theory Spec2Isabelle
  imports Main "HOL-Library.Signed_Division"
begin

section \<open>Column-major buffers and counted loops\<close>

text \<open>
  A raw buffer (\<open>T*\<close>) is a store from offsets to values.  Entry \<open>(i,j)\<close> of a
  column-major matrix with leading dimension \<open>ld\<close> lives at offset \<open>i + j*ld\<close>.
  The operand buffers \<open>A\<close> and \<open>B\<close> are \<open>const\<close> and separate from the
  output buffer \<open>C\<close>.  Dimensions and leading dimensions are \<open>BlasInt\<close>s in the
  source; they are naturals here (a negative dimension would run no loop iteration,
  a negative offset is outside every buffer), and offsets are not wrapped.
  A loop \<open>for( BlasInt i=0; i<n; ++i )\<close> is a \<open>fold\<close> over \<open>[0..<n]\<close>.
\<close>

type_synonym 'a buffer = "nat \<Rightarrow> 'a"

definition toupper :: "char \<Rightarrow> char" where
  "toupper c = (let v = (of_char c :: nat) in
                if 97 \<le> v \<and> v \<le> 122 then char_of (v - 32) else c)"

section \<open>The portable kernel \<open>blas::Gemm\<close> (core/imports/blas/Gemm.hpp)\<close>

definition zero_fill :: "nat \<Rightarrow> nat \<Rightarrow> nat \<Rightarrow> ('a::zero) buffer \<Rightarrow> 'a buffer" where
  "zero_fill m n CLDim C =
     fold (\<lambda>j. fold (\<lambda>i C. C(i + j * CLDim := 0)) [0..<m]) [0..<n] C"

definition scale_fill :: "nat \<Rightarrow> nat \<Rightarrow> 'a \<Rightarrow> nat \<Rightarrow> ('a::times) buffer \<Rightarrow> 'a buffer" where
  "scale_fill m n beta CLDim C =
     fold (\<lambda>j. fold (\<lambda>i C. C(i + j * CLDim := C (i + j * CLDim) * beta)) [0..<m]) [0..<n] C"

text \<open>
  The three branches with \<open>transA = 'N'\<close> share one loop nest (\<open>j\<close>, \<open>l\<close>, \<open>i\<close>) and
  differ in how \<open>gamma\<close> is formed from \<open>alpha\<close> and the entry of \<open>B\<close>;
  \<open>gam l j\<close> is that value.
\<close>

definition axpy_loops ::
  "nat \<Rightarrow> nat \<Rightarrow> nat \<Rightarrow> (nat \<Rightarrow> nat \<Rightarrow> 'a) \<Rightarrow> 'a buffer \<Rightarrow> nat \<Rightarrow> ('a::{plus,times}) buffer \<Rightarrow> nat
     \<Rightarrow> 'a buffer" where
  "axpy_loops m n k gam A ALDim C CLDim =
     fold (\<lambda>j. fold (\<lambda>l.
        let gamma = gam l j in
        fold (\<lambda>i C. let delta = A (i + l * ALDim) * gamma
                    in C(i + j * CLDim := C (i + j * CLDim) + delta)) [0..<m])
        [0..<k]) [0..<n] C"

text \<open>
  The six remaining branches share the nest (\<open>j\<close>, \<open>i\<close>, \<open>l\<close>): \<open>gamma\<close> is set to
  zero, accumulates one product \<open>delta\<close> per \<open>l\<close>, is multiplied by \<open>alpha\<close> and
  added to the entry of \<open>C\<close>; \<open>del i l j\<close> is the product.
\<close>

definition dot_loops ::
  "nat \<Rightarrow> nat \<Rightarrow> nat \<Rightarrow> (nat \<Rightarrow> nat \<Rightarrow> nat \<Rightarrow> 'a) \<Rightarrow> 'a \<Rightarrow> ('a::{zero,plus,times}) buffer \<Rightarrow> nat
     \<Rightarrow> 'a buffer" where
  "dot_loops m n k del alpha C CLDim =
     fold (\<lambda>j. fold (\<lambda>i C.
        let gamma = fold (\<lambda>l gamma. gamma + del i l j) [0..<k] 0;
            gamma = gamma * alpha
        in C(i + j * CLDim := C (i + j * CLDim) + gamma)) [0..<m]) [0..<n] C"

text \<open>
  \<open>Conj\<close> is the conjugation of the element type (the identity for a real type).
\<close>

definition Gemm ::
  "('a \<Rightarrow> 'a) \<Rightarrow> char \<Rightarrow> char \<Rightarrow> nat \<Rightarrow> nat \<Rightarrow> nat \<Rightarrow> 'a \<Rightarrow> 'a buffer \<Rightarrow> nat \<Rightarrow> 'a buffer \<Rightarrow> nat
     \<Rightarrow> 'a \<Rightarrow> ('a::comm_ring_1) buffer \<Rightarrow> nat \<Rightarrow> 'a buffer" where
  "Gemm Conj transA transB m n k alpha A ALDim B BLDim beta C CLDim =
    (if m > 0 \<and> n > 0 \<and> k = 0 \<and> beta = 0 then zero_fill m n CLDim C
     else
      let C = (if beta = 0 then zero_fill m n CLDim C
               else if beta \<noteq> 1 then scale_fill m n beta CLDim C
               else C)
      in
      if toupper transA = CHR ''N'' \<and> toupper transB = CHR ''N'' then
        axpy_loops m n k (\<lambda>l j. alpha * B (l + j * BLDim)) A ALDim C CLDim
      else if toupper transA = CHR ''N'' then
        (if toupper transB = CHR ''T'' then
           axpy_loops m n k (\<lambda>l j. alpha * B (j + l * BLDim)) A ALDim C CLDim
         else
           axpy_loops m n k (\<lambda>l j. Conj (B (j + l * BLDim)) * alpha) A ALDim C CLDim)
      else if toupper transB = CHR ''N'' then
        (if toupper transA = CHR ''T'' then
           dot_loops m n k (\<lambda>i l j. A (l + i * ALDim) * B (l + j * BLDim)) alpha C CLDim
         else
           dot_loops m n k (\<lambda>i l j. Conj (A (l + i * ALDim)) * B (l + j * BLDim)) alpha C CLDim)
      else
        (if toupper transA = CHR ''T'' \<and> toupper transB = CHR ''T'' then
           dot_loops m n k (\<lambda>i l j. A (l + i * ALDim) * B (j + l * BLDim)) alpha C CLDim
         else if toupper transA = CHR ''T'' then
           dot_loops m n k (\<lambda>i l j. Conj (B (j + l * BLDim)) * A (l + i * ALDim)) alpha C CLDim
         else if toupper transB = CHR ''T'' then
           dot_loops m n k (\<lambda>i l j. Conj (A (l + i * ALDim)) * B (j + l * BLDim)) alpha C CLDim
         else
           dot_loops m n k (\<lambda>i l j. Conj (A (l + i * ALDim)) * Conj (B (j + l * BLDim))) alpha C CLDim))"

text \<open>
  Entry \<open>(r,s)\<close> of \<open>op(X)\<close> as the contract words it: the stored matrix for \<open>'N'\<close>,
  its transpose for \<open>'T'\<close>, its conjugate transpose for \<open>'C'\<close>.
\<close>

definition op_entry :: "('a \<Rightarrow> 'a) \<Rightarrow> char \<Rightarrow> 'a buffer \<Rightarrow> nat \<Rightarrow> nat \<Rightarrow> nat \<Rightarrow> 'a" where
  "op_entry Conj tr X ld r s =
     (if toupper tr = CHR ''N'' then X (r + s * ld)
      else if toupper tr = CHR ''T'' then X (s + r * ld)
      else Conj (X (s + r * ld)))"



section \<open>Sequential matrices, errors and communication calls\<close>

text \<open>
  A \<open>Matrix<T>\<close> is a height, a width, a leading dimension and a buffer.  An exception
  is a value of type \<open>error\<close>; a routine that takes its output by reference returns the
  state of that output together with the exception it threw, if any.
\<close>

record 'a Matrix =
  Height :: nat
  Width :: nat
  LDim :: nat
  Buffer :: "'a buffer"

datatype Orientation = NORMAL | TRANSPOSE | ADJOINT

datatype error = LogicError string | RuntimeError string

text \<open>
  Modelled from the spec: \<open>OrientationToChar\<close> is not in the sources; it names the
  three orientations by the characters of the local compute primitive.
\<close>

fun OrientationToChar :: "Orientation \<Rightarrow> char" where
  "OrientationToChar NORMAL = CHR ''N''"
| "OrientationToChar TRANSPOSE = CHR ''T''"
| "OrientationToChar ADJOINT = CHR ''C''"

text \<open>
  Modelled from the spec: \<open>MemZero\<close> is not in the sources; it clears \<open>count\<close>
  consecutive entries starting at an offset.
\<close>

definition MemZero :: "('a::zero) buffer \<Rightarrow> nat \<Rightarrow> nat \<Rightarrow> 'a buffer" where
  "MemZero buf off count = (\<lambda>x. if off \<le> x \<and> x < off + count then 0 else buf x)"

text \<open>\<open>Zero( Matrix<T>& A )\<close> of blas_like/level1/Zero.hpp.\<close>

definition Zero :: "('a::zero) Matrix \<Rightarrow> 'a Matrix" where
  "Zero A =
     (let height = Height A; width = Width A; ALDim = LDim A; ABuf = Buffer A in
      if ALDim = height then A\<lparr>Buffer := MemZero ABuf 0 (height * width)\<rparr>
      else A\<lparr>Buffer := fold (\<lambda>j ABuf. MemZero ABuf (j * ALDim) height) [0..<width] ABuf\<rparr>)"

text \<open>
  Modelled from the spec: the operator \<open>C *= beta\<close> is not in the sources.  It is the
  scale phase of section 4.4: every entry of \<open>C\<close> is multiplied by \<open>beta\<close> in place,
  and \<open>beta = 0\<close> is the zeroing shortcut.
\<close>

definition Scale :: "'a \<Rightarrow> ('a::comm_ring_1) Matrix \<Rightarrow> 'a Matrix" where
  "Scale beta C =
     (if beta = 0 then Zero C
      else C\<lparr>Buffer := scale_fill (Height C) (Width C) beta (LDim C) (Buffer C)\<rparr>)"

text \<open>
  Communication calls, as section 6 of the spec lists them, each on a communicator of
  the process grid: the column communicator of grid column \<open>q\<close> (\<open>MCComm\<close>, the
  processes sharing that column), the row communicator of grid row \<open>p\<close> (\<open>MRComm\<close>),
  and the two linearisations of the whole grid.  A redistributing assignment is one
  call on the whole grid.
\<close>

datatype communicator = MCComm nat | MRComm nat | VCComm | VRComm

datatype call = Redistribute | AllReduce communicator | Broadcast int communicator

section \<open>The \<open>Gemm\<close> entry points (blas_like/level3/Gemm.cpp)\<close>

text \<open>
  The sequential overload: first the chain of conformance checks, each of which throws
  with \<open>LogicError\<close>, then the dispatch on the contraction dimension.  The build
  without \<open>EL_USE_CUBLAS\<close> is modelled, in which the only kernel is \<open>blas::Gemm\<close>.
\<close>

definition Gemm_Matrix_check ::
  "Orientation \<Rightarrow> Orientation \<Rightarrow> 'a Matrix \<Rightarrow> 'a Matrix \<Rightarrow> 'a Matrix \<Rightarrow> error option" where
  "Gemm_Matrix_check orientA orientB A B C =
     (if orientA = NORMAL \<and> orientB = NORMAL then
        (if Height A \<noteq> Height C \<or> Width B \<noteq> Width C \<or> Width A \<noteq> Height B
         then Some (LogicError ''Nonconformal GemmNN'') else None)
      else if orientA = NORMAL then
        (if Height A \<noteq> Height C \<or> Height B \<noteq> Width C \<or> Width A \<noteq> Width B
         then Some (LogicError ''Nonconformal GemmN(T/C)'') else None)
      else if orientB = NORMAL then
        (if Width A \<noteq> Height C \<or> Width B \<noteq> Width C \<or> Height A \<noteq> Height B
         then Some (LogicError ''Nonconformal Gemm(T/C)N'') else None)
      else
        (if Width A \<noteq> Height C \<or> Height B \<noteq> Width C \<or> Height A \<noteq> Width B
         then Some (LogicError ''Nonconformal Gemm(T/C)(T/C)'') else None))"

definition Gemm_Matrix ::
  "('a \<Rightarrow> 'a) \<Rightarrow> Orientation \<Rightarrow> Orientation \<Rightarrow> 'a \<Rightarrow> 'a Matrix \<Rightarrow> 'a Matrix \<Rightarrow> 'a
     \<Rightarrow> ('a::comm_ring_1) Matrix \<Rightarrow> 'a Matrix \<times> error option" where
  "Gemm_Matrix Conj orientA orientB alpha A B beta C =
    (case Gemm_Matrix_check orientA orientB A B C of
       Some e \<Rightarrow> (C, Some e)
     | None \<Rightarrow>
        (let transA = OrientationToChar orientA;
             transB = OrientationToChar orientB;
             m = Height C;
             n = Width C;
             k = (if orientA = NORMAL then Width A else Height A)
         in if k \<noteq> 0 then
              (C\<lparr>Buffer := Gemm Conj transA transB m n k alpha (Buffer A) (LDim A)
                                 (Buffer B) (LDim B) beta (Buffer C) (LDim C)\<rparr>, None)
            else (Scale beta C, None)))"

text \<open>
  A process's share of an \<open>AbstractDistMatrix<T>\<close>, as far as the entry point uses it:
  the global height and width and the local matrix.
\<close>

record 'a DistMatrix =
  GlobalHeight :: nat
  GlobalWidth :: nat
  LocalMatrix :: "'a Matrix"

text \<open>
  Modelled from the spec: the enumeration \<open>GemmAlgorithm\<close> is declared outside the
  sources; only \<open>GEMM_CANNON\<close> is named by the entry point.
\<close>

datatype GemmAlgorithm =
  GEMM_DEFAULT | GEMM_SUMMA_A | GEMM_SUMMA_B | GEMM_SUMMA_C | GEMM_SUMMA_DOT | GEMM_CANNON

text \<open>
  Modelled from the spec: the orientation variants \<open>gemm::Cannon_NN\<close>,
  \<open>gemm::SUMMA_NN\<close>, \<open>gemm::SUMMA_NT\<close>, \<open>gemm::SUMMA_TN\<close> and \<open>gemm::SUMMA_TT\<close> are
  not in the sources.  Sections 4.4 and 7 say of them: a dimension mismatch between
  \<open>A\<close>, \<open>B\<close> and \<open>C\<close> is reported before any communication is issued; a contraction
  dimension of zero short-circuits to the pure-scale step, so nothing further is done;
  otherwise operand alignment, panel products and reductions follow, which the
  parameter \<open>panels\<close> stands for (it yields the new share of \<open>C\<close> and the calls issued).
  A process is its share of \<open>C\<close> and the list of communication calls it has issued.
\<close>

definition op_Height :: "Orientation \<Rightarrow> 'a DistMatrix \<Rightarrow> nat" where
  "op_Height orient X = (if orient = NORMAL then GlobalHeight X else GlobalWidth X)"

definition op_Width :: "Orientation \<Rightarrow> 'a DistMatrix \<Rightarrow> nat" where
  "op_Width orient X = (if orient = NORMAL then GlobalWidth X else GlobalHeight X)"

type_synonym 'a panel_phase =
  "Orientation \<Rightarrow> Orientation \<Rightarrow> 'a \<Rightarrow> 'a DistMatrix \<Rightarrow> 'a DistMatrix \<Rightarrow> 'a DistMatrix
     \<Rightarrow> 'a DistMatrix \<times> call list"

definition Gemm_variant ::
  "'a panel_phase \<Rightarrow> Orientation \<Rightarrow> Orientation \<Rightarrow> 'a \<Rightarrow> 'a DistMatrix \<Rightarrow> 'a DistMatrix
     \<Rightarrow> 'a DistMatrix \<times> call list \<Rightarrow> ('a DistMatrix \<times> call list) \<times> error option" where
  "Gemm_variant panels orientA orientB alpha A B proc =
     (let C = fst proc; issued = snd proc in
      if op_Height orientA A \<noteq> GlobalHeight C \<or> op_Width orientB B \<noteq> GlobalWidth C \<or>
         op_Width orientA A \<noteq> op_Height orientB B
      then (proc, Some (LogicError ''Nonconformal matrices''))
      else if op_Width orientA A = 0 then (proc, None)
      else (let (C', calls) = panels orientA orientB alpha A B C
            in ((C', issued @ calls), None)))"

definition Cannon_NN ::
  "'a panel_phase \<Rightarrow> 'a \<Rightarrow> 'a DistMatrix \<Rightarrow> 'a DistMatrix \<Rightarrow> 'a DistMatrix \<times> call list
     \<Rightarrow> ('a DistMatrix \<times> call list) \<times> error option" where
  "Cannon_NN panels alpha A B proc = Gemm_variant panels NORMAL NORMAL alpha A B proc"

definition SUMMA_NN ::
  "'a panel_phase \<Rightarrow> 'a \<Rightarrow> 'a DistMatrix \<Rightarrow> 'a DistMatrix \<Rightarrow> 'a DistMatrix \<times> call list
     \<Rightarrow> GemmAlgorithm \<Rightarrow> ('a DistMatrix \<times> call list) \<times> error option" where
  "SUMMA_NN panels alpha A B proc alg = Gemm_variant panels NORMAL NORMAL alpha A B proc"

definition SUMMA_NT ::
  "'a panel_phase \<Rightarrow> Orientation \<Rightarrow> 'a \<Rightarrow> 'a DistMatrix \<Rightarrow> 'a DistMatrix
     \<Rightarrow> 'a DistMatrix \<times> call list \<Rightarrow> GemmAlgorithm
     \<Rightarrow> ('a DistMatrix \<times> call list) \<times> error option" where
  "SUMMA_NT panels orientB alpha A B proc alg = Gemm_variant panels NORMAL orientB alpha A B proc"

definition SUMMA_TN ::
  "'a panel_phase \<Rightarrow> Orientation \<Rightarrow> 'a \<Rightarrow> 'a DistMatrix \<Rightarrow> 'a DistMatrix
     \<Rightarrow> 'a DistMatrix \<times> call list \<Rightarrow> GemmAlgorithm
     \<Rightarrow> ('a DistMatrix \<times> call list) \<times> error option" where
  "SUMMA_TN panels orientA alpha A B proc alg = Gemm_variant panels orientA NORMAL alpha A B proc"

definition SUMMA_TT ::
  "'a panel_phase \<Rightarrow> Orientation \<Rightarrow> Orientation \<Rightarrow> 'a \<Rightarrow> 'a DistMatrix \<Rightarrow> 'a DistMatrix
     \<Rightarrow> 'a DistMatrix \<times> call list \<Rightarrow> GemmAlgorithm
     \<Rightarrow> ('a DistMatrix \<times> call list) \<times> error option" where
  "SUMMA_TT panels orientA orientB alpha A B proc alg =
     Gemm_variant panels orientA orientB alpha A B proc"

text \<open>
  The distributed overload.  \<open>C *= beta\<close> on a distributed matrix scales the local
  matrix of each process and communicates nothing (section 4.4, scale phase).
\<close>

definition Gemm_Dist ::
  "'a panel_phase \<Rightarrow> Orientation \<Rightarrow> Orientation \<Rightarrow> 'a \<Rightarrow> 'a DistMatrix \<Rightarrow> 'a DistMatrix \<Rightarrow> 'a
     \<Rightarrow> ('a::comm_ring_1) DistMatrix \<times> call list \<Rightarrow> GemmAlgorithm
     \<Rightarrow> ('a DistMatrix \<times> call list) \<times> error option" where
  "Gemm_Dist panels orientA orientB alpha A B beta proc alg =
    (let C = (fst proc)\<lparr>LocalMatrix := Scale beta (LocalMatrix (fst proc))\<rparr>;
         proc = (C, snd proc)
     in if orientA = NORMAL \<and> orientB = NORMAL then
          (if alg = GEMM_CANNON then Cannon_NN panels alpha A B proc
           else SUMMA_NN panels alpha A B proc alg)
        else if orientA = NORMAL then SUMMA_NT panels orientB alpha A B proc alg
        else if orientB = NORMAL then SUMMA_TN panels orientA alpha A B proc alg
        else SUMMA_TT panels orientA orientB alpha A B proc alg)"

text \<open>
  The conformance conditions as the contract words them: \<open>op(A)\<close> has the height of
  \<open>C\<close>, \<open>op(B)\<close> has the width of \<open>C\<close>, and the width of \<open>op(A)\<close> is the height of
  \<open>op(B)\<close>.
\<close>

definition op_dims :: "Orientation \<Rightarrow> nat \<times> nat \<Rightarrow> nat \<times> nat" where
  "op_dims orient d = (if orient = NORMAL then d else (snd d, fst d))"

definition nonconformal ::
  "Orientation \<Rightarrow> Orientation \<Rightarrow> nat \<times> nat \<Rightarrow> nat \<times> nat \<Rightarrow> nat \<times> nat \<Rightarrow> bool" where
  "nonconformal orientA orientB dimA dimB dimC =
     (fst (op_dims orientA dimA) \<noteq> fst dimC \<or> snd (op_dims orientB dimB) \<noteq> snd dimC \<or>
      snd (op_dims orientA dimA) \<noteq> fst (op_dims orientB dimB))"

text \<open>Constant matrices for the worked examples: every stored entry is \<open>v\<close>.\<close>

definition const_Matrix :: "nat \<Rightarrow> nat \<Rightarrow> int \<Rightarrow> int Matrix" where
  "const_Matrix h w v = \<lparr>Height = h, Width = w, LDim = h, Buffer = (\<lambda>x. v)\<rparr>"

definition const_DistMatrix :: "nat \<Rightarrow> nat \<Rightarrow> int \<Rightarrow> int DistMatrix" where
  "const_DistMatrix h w v = \<lparr>GlobalHeight = h, GlobalWidth = w, LocalMatrix = const_Matrix h w v\<rparr>"

definition no_panels :: "int panel_phase" where
  "no_panels orientA orientB alpha A B C = (C, [])"

section \<open>Cyclic distributions\<close>

text \<open>
  Modelled from the spec: \<open>utilities::Shift\<close> and \<open>utilities::LocalLength\<close> are not
  in the sources.  The alignment is the grid coordinate that owns global index 0 and
  the shift is its process-relative offset, so the process of rank \<open>rank\<close> holds the
  global indices \<open>shift, shift + modulus, shift + 2 modulus, \<dots>\<close>; of the first \<open>n\<close>
  indices it holds \<open>\<lceil>(n - shift) / modulus\<rceil>\<close>.
\<close>

definition Shift :: "nat \<Rightarrow> nat \<Rightarrow> nat \<Rightarrow> nat" where
  "Shift rank alignment modulus = (rank + modulus - alignment) mod modulus"

definition LocalLength :: "nat \<Rightarrow> nat \<Rightarrow> nat \<Rightarrow> nat" where
  "LocalLength n shift modulus = (if n > shift then (n - shift - 1) div modulus + 1 else 0)"

section \<open>Entry access of a \<open>[VR,* ]\<close> matrix (core/DistMatrix/VR_Star.cpp)\<close>

text \<open>
  Indices, dimensions and ranks are C++ \<open>int\<close>s: \<open>%\<close> is \<open>smod\<close> and \<open>/\<close> is \<open>sdiv\<close>
  (both truncate towards zero).  A \<open>complex<Z>\<close> is the pair of its real and imaginary
  part.  A process holds a local matrix of \<open>LocalHeight\<close> rows and as many columns as
  the global matrix; \<open>LocalEntry\<close> is its content.  A process sees of the grid its
  size and its own rank in the row-major (\<open>VR\<close>) ordering.
\<close>

type_synonym 'z cplx = "'z \<times> 'z"

record 'z VR_Star =
  GHeight :: int
  GWidth :: int
  ColAlignment :: int
  ColShift :: int
  LocalHeight_VR_Star :: int
  LocalEntry :: "int \<Rightarrow> int \<Rightarrow> 'z cplx"

record Grid =
  Size :: int
  VRRank :: int

text \<open>
  Modelled from the spec: \<open>GetLocalEntry\<close> and \<open>SetLocalEntry\<close> are not in the sources;
  they read and write an entry of the local matrix.  An access outside the local
  matrix is outside the buffer of the process, which is undefined behaviour in C++:
  such a read yields no defined value and such a write no defined state (\<open>None\<close>).
\<close>

definition in_local :: "'z VR_Star \<Rightarrow> int \<Rightarrow> int \<Rightarrow> bool" where
  "in_local A iLoc j \<longleftrightarrow> 0 \<le> iLoc \<and> iLoc < LocalHeight_VR_Star A \<and> 0 \<le> j \<and> j < GWidth A"

definition GetLocalEntry :: "'z VR_Star \<Rightarrow> int \<Rightarrow> int \<Rightarrow> 'z cplx option" where
  "GetLocalEntry A iLoc j = (if in_local A iLoc j then Some (LocalEntry A iLoc j) else None)"

definition write_entry :: "'z VR_Star \<Rightarrow> int \<Rightarrow> int \<Rightarrow> 'z cplx \<Rightarrow> 'z VR_Star" where
  "write_entry A iLoc j v = A\<lparr>LocalEntry := (LocalEntry A)(iLoc := (LocalEntry A iLoc)(j := v))\<rparr>"

definition SetLocalEntry :: "'z VR_Star \<Rightarrow> int \<Rightarrow> int \<Rightarrow> 'z cplx \<Rightarrow> 'z VR_Star option" where
  "SetLocalEntry A iLoc j v = (if in_local A iLoc j then Some (write_entry A iLoc j v) else None)"

text \<open>
  Modelled from the spec: \<open>AssertValidEntry\<close> is not in the sources; access with
  \<open>(i,j)\<close> outside \<open>[0,M) \<times> [0,N)\<close> is an error.
\<close>

definition AssertValidEntry :: "'z VR_Star \<Rightarrow> int \<Rightarrow> int \<Rightarrow> error option" where
  "AssertValidEntry A i j =
     (if i < 0 \<or> i \<ge> GHeight A \<or> j < 0 \<or> j \<ge> GWidth A
      then Some (LogicError ''Entry is out of bounds'') else None)"

text \<open>
  \<open>GetReal\<close> and \<open>GetImag\<close> up to their \<open>Broadcast\<close>: the owner rank the process
  computed and the content of its variable \<open>u\<close> (\<open>None\<close> while it holds no defined
  value: uninitialised, or read from outside the local buffer).  The flag \<open>RELEASE\<close>
  is the preprocessor symbol of that name; the check is compiled only without it.
\<close>

definition GetReal_local ::
  "bool \<Rightarrow> Grid \<Rightarrow> 'z VR_Star \<Rightarrow> int \<Rightarrow> int \<Rightarrow> error + (int \<times> 'z option)" where
  "GetReal_local RELEASE g A i j =
     (case (if RELEASE then None else AssertValidEntry A i j) of
        Some e \<Rightarrow> Inl e
      | None \<Rightarrow>
         (let ownerRank = (i + ColAlignment A) smod Size g;
              u = (if VRRank g = ownerRank
                   then (let iLoc = (i - ColShift A) sdiv Size g
                         in map_option fst (GetLocalEntry A iLoc j))
                   else None)
          in Inr (ownerRank, u)))"

definition GetImag_local ::
  "bool \<Rightarrow> Grid \<Rightarrow> 'z VR_Star \<Rightarrow> int \<Rightarrow> int \<Rightarrow> error + (int \<times> 'z option)" where
  "GetImag_local RELEASE g A i j =
     (case (if RELEASE then None else AssertValidEntry A i j) of
        Some e \<Rightarrow> Inl e
      | None \<Rightarrow>
         (let ownerRank = (i + ColAlignment A) smod Size g;
              u = (if VRRank g = ownerRank
                   then (let iLoc = (i - ColShift A) sdiv Size g
                         in map_option snd (GetLocalEntry A iLoc j))
                   else None)
          in Inr (ownerRank, u)))"

text \<open>
  Modelled from the spec: \<open>Broadcast\<close> over a communicator leaves in the buffer of
  every member the content of the buffer of the member whose rank is the root; a root
  that is no rank of the communicator delivers nothing.  \<open>bufs r\<close> is the buffer of
  rank \<open>r\<close> of the \<open>p\<close> members when they enter the call.
\<close>

definition Broadcast_result :: "int \<Rightarrow> (int \<Rightarrow> 'v option) \<Rightarrow> int \<Rightarrow> 'v option" where
  "Broadcast_result p bufs root = (if 0 \<le> root \<and> root < p then bufs root else None)"

text \<open>
  The whole collective call: every process of the grid of size \<open>p\<close> calls the accessor
  on its share \<open>As rank\<close>; the result is what the process of rank \<open>rank\<close> returns and
  the communication calls it issued.
\<close>

definition u_of :: "error + (int \<times> 'z option) \<Rightarrow> 'z option" where
  "u_of r = (case r of Inl e \<Rightarrow> None | Inr (ownerRank, u) \<Rightarrow> u)"

definition GetReal ::
  "bool \<Rightarrow> int \<Rightarrow> (int \<Rightarrow> 'z VR_Star) \<Rightarrow> int \<Rightarrow> int \<Rightarrow> int \<Rightarrow> (error + 'z option) \<times> call list" where
  "GetReal RELEASE p As i j rank =
     (case GetReal_local RELEASE \<lparr>Size = p, VRRank = rank\<rparr> (As rank) i j of
        Inl e \<Rightarrow> (Inl e, [])
      | Inr (ownerRank, u) \<Rightarrow>
          (Inr (Broadcast_result p
                  (\<lambda>r. u_of (GetReal_local RELEASE \<lparr>Size = p, VRRank = r\<rparr> (As r) i j)) ownerRank),
           [Broadcast ownerRank VRComm]))"

definition GetImag ::
  "bool \<Rightarrow> int \<Rightarrow> (int \<Rightarrow> 'z VR_Star) \<Rightarrow> int \<Rightarrow> int \<Rightarrow> int \<Rightarrow> (error + 'z option) \<times> call list" where
  "GetImag RELEASE p As i j rank =
     (case GetImag_local RELEASE \<lparr>Size = p, VRRank = rank\<rparr> (As rank) i j of
        Inl e \<Rightarrow> (Inl e, [])
      | Inr (ownerRank, u) \<Rightarrow>
          (Inr (Broadcast_result p
                  (\<lambda>r. u_of (GetImag_local RELEASE \<lparr>Size = p, VRRank = r\<rparr> (As r) i j)) ownerRank),
           [Broadcast ownerRank VRComm]))"

text \<open>
  \<open>SetReal\<close> and \<open>SetImag\<close> are local: the new share of the process (\<open>None\<close> when an
  access outside the local buffer has left no defined state), the communication calls
  it issued, and the exception thrown, if any.
\<close>

definition SetReal ::
  "bool \<Rightarrow> Grid \<Rightarrow> 'z VR_Star \<Rightarrow> int \<Rightarrow> int \<Rightarrow> 'z
     \<Rightarrow> ('z VR_Star option \<times> call list) \<times> error option" where
  "SetReal RELEASE g A i j u =
     (case (if RELEASE then None else AssertValidEntry A i j) of
        Some e \<Rightarrow> ((Some A, []), Some e)
      | None \<Rightarrow>
         (let ownerRank = (i + ColAlignment A) smod Size g in
          if VRRank g = ownerRank then
            (let iLoc = (i - ColShift A) sdiv Size g
             in case map_option snd (GetLocalEntry A iLoc j) of
                  None \<Rightarrow> ((None, []), None)
                | Some v \<Rightarrow> ((SetLocalEntry A iLoc j (u, v), []), None))
          else ((Some A, []), None)))"

definition SetImag ::
  "bool \<Rightarrow> Grid \<Rightarrow> 'z VR_Star \<Rightarrow> int \<Rightarrow> int \<Rightarrow> 'z
     \<Rightarrow> ('z VR_Star option \<times> call list) \<times> error option" where
  "SetImag RELEASE g A i j v =
     (case (if RELEASE then None else AssertValidEntry A i j) of
        Some e \<Rightarrow> ((Some A, []), Some e)
      | None \<Rightarrow>
         (let ownerRank = (i + ColAlignment A) smod Size g in
          if VRRank g = ownerRank then
            (let iLoc = (i - ColShift A) sdiv Size g
             in case map_option fst (GetLocalEntry A iLoc j) of
                  None \<Rightarrow> ((None, []), None)
                | Some u \<Rightarrow> ((SetLocalEntry A iLoc j (u, v), []), None))
          else ((Some A, []), None)))"

text \<open>
  The data model of the spec for \<open>[VR,* ]\<close>: the shares \<open>As\<close> of the \<open>p\<close> processes
  hold the global \<open>M\<close> by \<open>N\<close> matrix \<open>X\<close> when all carry the same dimensions and
  column alignment, the shift of each is that of its rank, its local height is the
  number of global rows it holds, and local row \<open>iLoc\<close> of a process is global row
  \<open>ColShift + iLoc * p\<close>.
\<close>

definition holds_VR_Star ::
  "int \<Rightarrow> int \<Rightarrow> int \<Rightarrow> int \<Rightarrow> (int \<Rightarrow> 'z VR_Star) \<Rightarrow> (int \<Rightarrow> int \<Rightarrow> 'z cplx) \<Rightarrow> bool" where
  "holds_VR_Star p align M N As X \<longleftrightarrow>
     0 < p \<and> 0 \<le> align \<and> align < p \<and>
     (\<forall>rank. 0 \<le> rank \<and> rank < p \<longrightarrow>
        GHeight (As rank) = M \<and> GWidth (As rank) = N \<and> ColAlignment (As rank) = align \<and>
        ColShift (As rank) = int (Shift (nat rank) (nat align) (nat p)) \<and>
        LocalHeight_VR_Star (As rank) =
          int (LocalLength (nat M) (Shift (nat rank) (nat align) (nat p)) (nat p)) \<and>
        (\<forall>iLoc j. 0 \<le> iLoc \<and> ColShift (As rank) + iLoc * p < M \<and> 0 \<le> j \<and> j < N \<longrightarrow>
           LocalEntry (As rank) iLoc j = X (ColShift (As rank) + iLoc * p) j))"

text \<open>The shares of a grid of \<open>p\<close> processes that hold a given matrix, for the examples.\<close>

definition share_VR_Star ::
  "int \<Rightarrow> int \<Rightarrow> int \<Rightarrow> int \<Rightarrow> (int \<Rightarrow> int \<Rightarrow> 'z cplx) \<Rightarrow> int \<Rightarrow> 'z VR_Star" where
  "share_VR_Star p align M N X rank =
     \<lparr>GHeight = M, GWidth = N, ColAlignment = align,
      ColShift = int (Shift (nat rank) (nat align) (nat p)),
      LocalHeight_VR_Star = int (LocalLength (nat M) (Shift (nat rank) (nat align) (nat p)) (nat p)),
      LocalEntry = (\<lambda>iLoc j. X (int (Shift (nat rank) (nat align) (nat p)) + iLoc * p) j)\<rparr>"

definition example_entries :: "int \<Rightarrow> int \<Rightarrow> int cplx" where
  "example_entries i j = (10 * i + j, 100 + 10 * i + j)"

section \<open>The distributed dot product (blas/level1/Dot/Dot.cpp)\<close>












section \<open>The Hermitian one-norm (lapack/Norms/HermitianOneNorm.cpp)\<close>















definition example_square :: "nat \<Rightarrow> nat \<Rightarrow> int" where
  "example_square i j = (if i \<le> j then int (i + 2 * j) - 3 else 100)"

text \<open>
  The addition of \<open>float\<close> (IEEE 754 binary32, round to nearest, ties to even) on
  the values that are non-negative integers, written on those integers.  A binary32
  value has 24 significant bits: a sum below \<open>2^24\<close> is exact; a larger one, with
  \<open>e\<close> bits beyond the 24, is rounded to a multiple of \<open>2^e\<close>.  Overflow to infinity
  (sums of \<open>2^128\<close> and more) is not modelled.
\<close>

function excess_bits :: "int \<Rightarrow> nat" where
  "excess_bits n = (if n < 16777216 then 0 else Suc (excess_bits (n div 2)))"
  by pat_completeness auto
termination
  by (relation "measure nat") auto

declare excess_bits.simps [simp del]

definition round_binary32 :: "int \<Rightarrow> int" where
  "round_binary32 n =
     (let e = excess_bits n; q = n div 2 ^ e; rest = n mod 2 ^ e in
      if 2 * rest < 2 ^ e then q * 2 ^ e
      else if 2 ^ e < 2 * rest then (q + 1) * 2 ^ e
      else if even q then q * 2 ^ e else (q + 1) * 2 ^ e)"

definition float_add :: "int \<Rightarrow> int \<Rightarrow> int" where
  "float_add x y = round_binary32 (x + y)"

text \<open>
  A 4 by 4 matrix of \<open>float\<close>s whose stored upper triangle holds \<open>2^24\<close> at \<open>(0,0)\<close>
  and 1 at \<open>(0,1)\<close> and \<open>(0,3)\<close>.
\<close>

definition example_float :: "nat \<Rightarrow> nat \<Rightarrow> int" where
  "example_float i j =
     (if i = 0 \<and> j = 0 then 16777216 else if i = 0 \<and> (j = 1 \<or> j = 3) then 1 else 0)"

section \<open>Distributions and redistribution\<close>

text \<open>
  Modelled from the spec: the distribution descriptors, the grid and the redistribution
  engine are not in the sources (only calls of the redistributing assignment are).
  Sections 3 and 4 of the spec give the following.  A grid has height \<open>r\<close> and width
  \<open>c\<close>; a process is at grid row \<open>p\<close> and grid column \<open>q\<close>.  Each dimension of a
  matrix carries a tag: \<open>MC\<close> and \<open>MR\<close> are cyclic along the column and the row
  communicator (stride \<open>r\<close>, \<open>c\<close>), \<open>VC\<close> and \<open>VR\<close> are cyclic along the column-major
  and row-major linearisation (stride \<open>r c\<close>), \<open>STAR\<close> replicates the dimension on every
  process (stride 1).  The alignment of a dimension is the rank that owns index 0.
\<close>

datatype Dist = MC | MR | VC | VR | STAR

fun stride :: "Dist \<Rightarrow> nat \<Rightarrow> nat \<Rightarrow> nat" where
  "stride MC r c = r"
| "stride MR r c = c"
| "stride VC r c = r * c"
| "stride VR r c = r * c"
| "stride STAR r c = 1"

fun dist_rank :: "Dist \<Rightarrow> nat \<Rightarrow> nat \<Rightarrow> nat \<times> nat \<Rightarrow> nat" where
  "dist_rank MC r c (p, q) = p"
| "dist_rank MR r c (p, q) = q"
| "dist_rank VC r c (p, q) = p + q * r"
| "dist_rank VR r c (p, q) = q + p * c"
| "dist_rank STAR r c (p, q) = 0"

record Layout =
  ColDist :: Dist
  RowDist :: Dist
  ColAlign :: nat
  RowAlign :: nat

definition colStride :: "Layout \<Rightarrow> nat \<Rightarrow> nat \<Rightarrow> nat" where
  "colStride L r c = stride (ColDist L) r c"

definition rowStride :: "Layout \<Rightarrow> nat \<Rightarrow> nat \<Rightarrow> nat" where
  "rowStride L r c = stride (RowDist L) r c"

definition colShift :: "Layout \<Rightarrow> nat \<Rightarrow> nat \<Rightarrow> nat \<times> nat \<Rightarrow> nat" where
  "colShift L r c pq = Shift (dist_rank (ColDist L) r c pq) (ColAlign L) (colStride L r c)"

definition rowShift :: "Layout \<Rightarrow> nat \<Rightarrow> nat \<Rightarrow> nat \<times> nat \<Rightarrow> nat" where
  "rowShift L r c pq = Shift (dist_rank (RowDist L) r c pq) (RowAlign L) (rowStride L r c)"

text \<open>
  A distributed matrix: global height and width, layout, and for the process at
  \<open>(p,q)\<close> a local buffer, column-major with leading dimension equal to the local
  height.
\<close>

record 'a DistributedMatrix =
  DHeight :: nat
  DWidth :: nat
  DLayout :: Layout
  LocalBuffer :: "nat \<times> nat \<Rightarrow> 'a list"

definition localHeight :: "'a DistributedMatrix \<Rightarrow> nat \<Rightarrow> nat \<Rightarrow> nat \<times> nat \<Rightarrow> nat" where
  "localHeight X r c pq = LocalLength (DHeight X) (colShift (DLayout X) r c pq) (colStride (DLayout X) r c)"

definition localWidth :: "'a DistributedMatrix \<Rightarrow> nat \<Rightarrow> nat \<Rightarrow> nat \<times> nat \<Rightarrow> nat" where
  "localWidth X r c pq = LocalLength (DWidth X) (rowShift (DLayout X) r c pq) (rowStride (DLayout X) r c)"

text \<open>
  The owner of a global entry is resolved from distribution and alignment: the rank
  \<open>(i + alignment) mod stride\<close> along the tag of each dimension fixes the grid
  coordinates that the tag distributes over; a replicated dimension fixes none, and
  the asking process reads its own copy.
\<close>

fun place :: "Dist \<Rightarrow> nat \<Rightarrow> nat \<Rightarrow> nat \<Rightarrow> nat \<times> nat \<Rightarrow> nat \<times> nat" where
  "place MC r c v (p, q) = (v, q)"
| "place MR r c v (p, q) = (p, v)"
| "place VC r c v (p, q) = (v mod r, v div r)"
| "place VR r c v (p, q) = (v div c, v mod c)"
| "place STAR r c v (p, q) = (p, q)"

definition owner :: "Layout \<Rightarrow> nat \<Rightarrow> nat \<Rightarrow> nat \<Rightarrow> nat \<Rightarrow> nat \<times> nat \<Rightarrow> nat \<times> nat" where
  "owner L r c i j asking =
     place (RowDist L) r c ((j + RowAlign L) mod rowStride L r c)
       (place (ColDist L) r c ((i + ColAlign L) mod colStride L r c) asking)"

definition global_entry :: "'a DistributedMatrix \<Rightarrow> nat \<Rightarrow> nat \<Rightarrow> nat \<Rightarrow> nat \<Rightarrow> nat \<times> nat \<Rightarrow> 'a" where
  "global_entry X r c i j asking =
     (let own = owner (DLayout X) r c i j asking;
          iLoc = i div colStride (DLayout X) r c;
          jLoc = j div rowStride (DLayout X) r c
      in LocalBuffer X own ! (iLoc + jLoc * localHeight X r c own))"

text \<open>
  The distribution pairs for which a redistribution path exists; any other pair is an
  unsupported-operation error.  In each of them the two tags distribute over
  different grid coordinates, or one of the dimensions is replicated.
\<close>

definition supported :: "Layout \<Rightarrow> bool" where
  "supported L \<longleftrightarrow>
     (ColDist L, RowDist L) \<in> set [(MC, MR), (MR, MC), (MC, STAR), (STAR, MC), (MR, STAR),
        (STAR, MR), (VC, STAR), (STAR, VC), (VR, STAR), (STAR, VR), (STAR, STAR)]"

text \<open>
  Redistribution produces the target's local buffers such that every global entry is
  correct: the local entry \<open>(iLoc,jLoc)\<close> of a process under the target layout is the
  global entry \<open>(colShift + iLoc * colStride, rowShift + jLoc * rowStride)\<close> of the
  source.
\<close>

definition relayout :: "nat \<Rightarrow> nat \<Rightarrow> 'a DistributedMatrix \<Rightarrow> Layout \<Rightarrow> 'a DistributedMatrix" where
  "relayout r c X L =
     (let Y = X\<lparr>DLayout := L\<rparr> in
      Y\<lparr>LocalBuffer := (\<lambda>pq.
          map (\<lambda>k. let iLoc = k mod localHeight Y r c pq;
                       jLoc = k div localHeight Y r c pq
                   in global_entry X r c (colShift L r c pq + iLoc * colStride L r c)
                        (rowShift L r c pq + jLoc * rowStride L r c) pq)
              [0..<localHeight Y r c pq * localWidth Y r c pq])\<rparr>)"

definition redistribute ::
  "nat \<Rightarrow> nat \<Rightarrow> 'a DistributedMatrix \<Rightarrow> Layout \<Rightarrow> error + 'a DistributedMatrix" where
  "redistribute r c X L =
     (if supported (DLayout X) \<and> supported L then Inr (relayout r c X L)
      else Inl (LogicError ''Unsupported redistribution''))"

text \<open>
  The data model: the local buffers of \<open>X\<close> hold the global matrix \<open>G\<close> on an \<open>r\<close> by
  \<open>c\<close> grid when the alignments are ranks of their strides, every local buffer has
  the local height times the local width entries, and local entry \<open>(iLoc,jLoc)\<close> is
  the global entry at the indices the shifts and strides give.
\<close>

definition holds_layout :: "nat \<Rightarrow> nat \<Rightarrow> 'a DistributedMatrix \<Rightarrow> (nat \<Rightarrow> nat \<Rightarrow> 'a) \<Rightarrow> bool" where
  "holds_layout r c X G \<longleftrightarrow>
     0 < r \<and> 0 < c \<and>
     ColAlign (DLayout X) < colStride (DLayout X) r c \<and>
     RowAlign (DLayout X) < rowStride (DLayout X) r c \<and>
     (\<forall>p<r. \<forall>q<c.
        length (LocalBuffer X (p, q)) = localHeight X r c (p, q) * localWidth X r c (p, q) \<and>
        (\<forall>iLoc<localHeight X r c (p, q). \<forall>jLoc<localWidth X r c (p, q).
           LocalBuffer X (p, q) ! (iLoc + jLoc * localHeight X r c (p, q)) =
             G (colShift (DLayout X) r c (p, q) + iLoc * colStride (DLayout X) r c)
               (rowShift (DLayout X) r c (p, q) + jLoc * rowStride (DLayout X) r c)))"

text \<open>The distributed matrix that holds a given global matrix, for the examples.\<close>

definition distribute :: "nat \<Rightarrow> nat \<Rightarrow> nat \<Rightarrow> nat \<Rightarrow> Layout \<Rightarrow> (nat \<Rightarrow> nat \<Rightarrow> 'a) \<Rightarrow> 'a DistributedMatrix" where
  "distribute r c M N L G =
     relayout r c \<lparr>DHeight = M, DWidth = N,
                   DLayout = \<lparr>ColDist = STAR, RowDist = STAR, ColAlign = 0, RowAlign = 0\<rparr>,
                   LocalBuffer = (\<lambda>pq. map (\<lambda>k. G (k mod M) (k div M)) [0..<M * N])\<rparr> L"

section \<open>The local triangular rank-2k update (blas_like/level3/Trr2k/Local.hpp)\<close>

text \<open>
  Modelled from the spec: the class \<open>AbstractDistMatrix\<close>, the partition routines,
  \<open>ScaleTrapezoid\<close>, \<open>AxpyTriangle\<close> and \<open>LocalTrr2kBlocksize\<close> are not in the
  sources.  Section 9 of the spec has a partition be a non-owning window into the
  storage of its parent, given by offsets, extents and strides.  A \<open>View\<close> is such a
  window for one process: the global height and width of the (sub)matrix, the shift
  and stride of its rows and of its columns (the global row of local row \<open>iLoc\<close> of
  the window is \<open>ColShift + iLoc * ColStride\<close>; a replicated dimension has shift 0
  and stride 1), and the local row and column of the parent's local entries at which
  the window starts.  The local entries of a matrix are a store indexed by local row
  and column; all windows into one matrix read and write the same store.
\<close>

datatype UpperOrLower = LOWER | UPPER

type_synonym 'a entries = "nat \<Rightarrow> nat \<Rightarrow> 'a"

record View =
  Height_V :: nat
  Width_V :: nat
  ColShift_V :: nat
  ColStride_V :: nat
  RowShift_V :: nat
  RowStride_V :: nat
  LocalRow0 :: nat
  LocalCol0 :: nat

definition LocalHeight_V :: "View \<Rightarrow> nat" where
  "LocalHeight_V A = LocalLength (Height_V A) (ColShift_V A) (ColStride_V A)"

definition LocalWidth_V :: "View \<Rightarrow> nat" where
  "LocalWidth_V A = LocalLength (Width_V A) (RowShift_V A) (RowStride_V A)"

definition PartitionDown :: "View \<Rightarrow> nat \<Rightarrow> View \<times> View" where
  "PartitionDown A half =
     (let above = LocalLength half (ColShift_V A) (ColStride_V A) in
      (A\<lparr>Height_V := half\<rparr>,
       A\<lparr>Height_V := Height_V A - half,
         ColShift_V := ColShift_V A + above * ColStride_V A - half,
         LocalRow0 := LocalRow0 A + above\<rparr>))"

definition PartitionRight :: "View \<Rightarrow> nat \<Rightarrow> View \<times> View" where
  "PartitionRight A half =
     (let left = LocalLength half (RowShift_V A) (RowStride_V A) in
      (A\<lparr>Width_V := half\<rparr>,
       A\<lparr>Width_V := Width_V A - half,
         RowShift_V := RowShift_V A + left * RowStride_V A - half,
         LocalCol0 := LocalCol0 A + left\<rparr>))"

definition PartitionDownDiagonal :: "View \<Rightarrow> nat \<Rightarrow> View \<times> View \<times> View \<times> View" where
  "PartitionDownDiagonal E half =
     (let (ET, EB) = PartitionDown E half;
          (ETL, ETR) = PartitionRight ET half;
          (EBL, EBR) = PartitionRight EB half
      in (ETL, ETR, EBL, EBR))"

text \<open>
  \<open>LockedMatrix()\<close> and \<open>Matrix()\<close> hand the local part of a window to the sequential
  routines.  The window is passed as its column-major image with the local height as
  leading dimension, and what the routine leaves in the image is stored back in the
  window.
\<close>

definition in_window :: "View \<Rightarrow> nat \<Rightarrow> nat \<Rightarrow> bool" where
  "in_window A iLoc jLoc \<longleftrightarrow>
     LocalRow0 A \<le> iLoc \<and> iLoc < LocalRow0 A + LocalHeight_V A \<and>
     LocalCol0 A \<le> jLoc \<and> jLoc < LocalCol0 A + LocalWidth_V A"

definition LockedMatrix :: "View \<times> 'a entries \<Rightarrow> 'a Matrix" where
  "LockedMatrix A =
     \<lparr>Height = LocalHeight_V (fst A), Width = LocalWidth_V (fst A), LDim = LocalHeight_V (fst A),
      Buffer = (\<lambda>x. snd A (LocalRow0 (fst A) + x mod LocalHeight_V (fst A))
                            (LocalCol0 (fst A) + x div LocalHeight_V (fst A)))\<rparr>"

definition store_Matrix :: "View \<Rightarrow> 'a entries \<Rightarrow> 'a Matrix \<Rightarrow> 'a entries" where
  "store_Matrix E sE M =
     (\<lambda>iLoc jLoc. if in_window E iLoc jLoc
                  then Buffer M ((iLoc - LocalRow0 E) + (jLoc - LocalCol0 E) * LDim M)
                  else sE iLoc jLoc)"

definition Gemm_local ::
  "('a \<Rightarrow> 'a) \<Rightarrow> Orientation \<Rightarrow> Orientation \<Rightarrow> 'a \<Rightarrow> View \<times> 'a entries \<Rightarrow> View \<times> 'a entries \<Rightarrow> 'a
     \<Rightarrow> View \<Rightarrow> ('a::comm_ring_1) entries \<Rightarrow> error + 'a entries" where
  "Gemm_local Conj orientA orientB alpha A B beta E sE =
     (case Gemm_Matrix Conj orientA orientB alpha (LockedMatrix A) (LockedMatrix B) beta
             (LockedMatrix (E, sE)) of
        (M, None) \<Rightarrow> Inr (store_Matrix E sE M)
      | (M, Some e) \<Rightarrow> Inl e)"

text \<open>
  The triangle of a distributed matrix is a matter of global indices.
  \<open>ScaleTrapezoid\<close> scales the entries of the triangle, the diagonal included;
  \<open>AxpyTriangle\<close> adds \<open>alpha\<close> times the triangle of \<open>X\<close> to that of \<open>Y\<close>, where
  \<open>X\<close> is aligned with \<open>Y\<close>.
\<close>

fun in_triangle :: "UpperOrLower \<Rightarrow> nat \<Rightarrow> nat \<Rightarrow> bool" where
  "in_triangle LOWER i j = (j \<le> i)"
| "in_triangle UPPER i j = (i \<le> j)"

definition global_row :: "View \<Rightarrow> nat \<Rightarrow> nat" where
  "global_row E iLoc = ColShift_V E + (iLoc - LocalRow0 E) * ColStride_V E"

definition global_col :: "View \<Rightarrow> nat \<Rightarrow> nat" where
  "global_col E jLoc = RowShift_V E + (jLoc - LocalCol0 E) * RowStride_V E"

definition ScaleTrapezoid ::
  "'a \<Rightarrow> UpperOrLower \<Rightarrow> View \<Rightarrow> ('a::comm_ring_1) entries \<Rightarrow> 'a entries" where
  "ScaleTrapezoid gamma uplo E sE =
     (\<lambda>iLoc jLoc. if in_window E iLoc jLoc \<and> in_triangle uplo (global_row E iLoc) (global_col E jLoc)
                  then gamma * sE iLoc jLoc else sE iLoc jLoc)"

definition AxpyTriangle ::
  "UpperOrLower \<Rightarrow> 'a \<Rightarrow> View \<times> 'a entries \<Rightarrow> View \<Rightarrow> ('a::comm_ring_1) entries \<Rightarrow> 'a entries" where
  "AxpyTriangle uplo alpha X Y sY =
     (\<lambda>iLoc jLoc. if in_window Y iLoc jLoc \<and> in_triangle uplo (global_row Y iLoc) (global_col Y jLoc)
                  then sY iLoc jLoc +
                       alpha * snd X (LocalRow0 (fst X) + (iLoc - LocalRow0 Y))
                                     (LocalCol0 (fst X) + (jLoc - LocalCol0 Y))
                  else sY iLoc jLoc)"

text \<open>
  \<open>F->AlignWith( E ); F->Resize( E.Height(), E.Width() )\<close> on a newly constructed
  matrix: the window of \<open>E\<close> over storage of its own, whose content is whatever the
  allocation holds (\<open>fresh\<close>).
\<close>

definition aligned_with :: "View \<Rightarrow> View" where
  "aligned_with E = E\<lparr>LocalRow0 := 0, LocalCol0 := 0\<rparr>"

definition and_then :: "error + 'a \<Rightarrow> ('a \<Rightarrow> error + 'b) \<Rightarrow> error + 'b" where
  "and_then x f = (case x of Inl e \<Rightarrow> Inl e | Inr v \<Rightarrow> f v)"

text \<open>
  The kernel.  The operands \<open>A\<close>, \<open>B\<close>, \<open>C\<close>, \<open>D\<close> are windows with their stores; \<open>E\<close>
  is a window into the store \<open>sE\<close>, which is returned updated.  Line 71 of the
  source reads \<open>ScaleTrapezoid( gamma, uplo, *E )\<close> although \<open>E\<close> is a reference and
  the sources declare no unary \<open>operator*\<close> for it, so that the template cannot be
  instantiated as it is written; the call is taken to be on \<open>E\<close> itself, the matrix
  whose quadrants the following lines update.
\<close>

definition LocalTrr2kKernel ::
  "('a \<Rightarrow> 'a) \<Rightarrow> 'a entries \<Rightarrow> UpperOrLower \<Rightarrow> Orientation \<Rightarrow> Orientation \<Rightarrow> Orientation \<Rightarrow> Orientation
     \<Rightarrow> 'a \<Rightarrow> View \<times> 'a entries \<Rightarrow> View \<times> 'a entries
     \<Rightarrow> 'a \<Rightarrow> View \<times> 'a entries \<Rightarrow> View \<times> 'a entries
     \<Rightarrow> 'a \<Rightarrow> View \<Rightarrow> ('a::comm_ring_1) entries \<Rightarrow> error + 'a entries" where
  "LocalTrr2kKernel Conj fresh uplo orientA orientB orientC orientD alpha A B beta C D gamma E sE =
    (let transA = (orientA \<noteq> NORMAL); transB = (orientB \<noteq> NORMAL);
         transC = (orientC \<noteq> NORMAL); transD = (orientD \<noteq> NORMAL);
         half = Height_V E div 2;
         (A0, A1) = (if transA then PartitionRight (fst A) half else PartitionDown (fst A) half);
         (B0, B1) = (if transB then PartitionDown (fst B) half else PartitionRight (fst B) half);
         (C0, C1) = (if transC then PartitionRight (fst C) half else PartitionDown (fst C) half);
         (D0, D1) = (if transD then PartitionDown (fst D) half else PartitionRight (fst D) half);
         (ETL, ETR, EBL, EBR) = PartitionDownDiagonal E half;
         sE = ScaleTrapezoid gamma uplo E sE
     in
     and_then
       (if uplo = LOWER then
          and_then (Gemm_local Conj orientA orientB alpha (A1, snd A) (B0, snd B) 1 EBL sE)
            (\<lambda>sE. Gemm_local Conj orientC orientD beta (C1, snd C) (D0, snd D) 1 EBL sE)
        else
          and_then (Gemm_local Conj orientA orientB alpha (A0, snd A) (B1, snd B) 1 ETR sE)
            (\<lambda>sE. Gemm_local Conj orientC orientD beta (C0, snd C) (D1, snd D) 1 ETR sE))
       (\<lambda>sE.
     let FTL = aligned_with ETL in
     and_then (Gemm_local Conj orientA orientB alpha (A0, snd A) (B0, snd B) 0 FTL fresh)
       (\<lambda>sFTL.
     and_then (Gemm_local Conj orientC orientD beta (C0, snd C) (D0, snd D) 1 FTL sFTL)
       (\<lambda>sFTL.
     let sE = AxpyTriangle uplo 1 (FTL, sFTL) ETL sE;
         FBR = aligned_with EBR in
     and_then (Gemm_local Conj orientA orientB alpha (A1, snd A) (B1, snd B) 0 FBR fresh)
       (\<lambda>sFBR.
     and_then (Gemm_local Conj orientC orientD beta (C1, snd C) (D1, snd D) 1 FBR sFBR)
       (\<lambda>sFBR.
     Inr (AxpyTriangle uplo 1 (FBR, sFBR) EBR sE)))))))"

text \<open>
  The recursive routine.  \<open>threshold\<close> is \<open>g.Width() * LocalTrr2kBlocksize<T>()\<close>.
  The recursion is bounded by \<open>fuel\<close>; \<open>None\<close> is a run that has not returned
  within the bound.
\<close>

fun LocalTrr2k ::
  "nat \<Rightarrow> nat \<Rightarrow> ('a \<Rightarrow> 'a) \<Rightarrow> 'a entries \<Rightarrow> UpperOrLower
     \<Rightarrow> Orientation \<Rightarrow> Orientation \<Rightarrow> Orientation \<Rightarrow> Orientation
     \<Rightarrow> 'a \<Rightarrow> View \<times> 'a entries \<Rightarrow> View \<times> 'a entries
     \<Rightarrow> 'a \<Rightarrow> View \<times> 'a entries \<Rightarrow> View \<times> 'a entries
     \<Rightarrow> 'a \<Rightarrow> View \<Rightarrow> ('a::comm_ring_1) entries \<Rightarrow> (error + 'a entries) option" where
  "LocalTrr2k 0 threshold Conj fresh uplo orientA orientB orientC orientD
       alpha A B beta C D gamma E sE = None"
| "LocalTrr2k (Suc fuel) threshold Conj fresh uplo orientA orientB orientC orientD
       alpha A B beta C D gamma E sE =
    (let transA = (orientA \<noteq> NORMAL); transB = (orientB \<noteq> NORMAL);
         transC = (orientC \<noteq> NORMAL); transD = (orientD \<noteq> NORMAL)
     in
     if Height_V E < threshold then
       Some (LocalTrr2kKernel Conj fresh uplo orientA orientB orientC orientD
               alpha A B beta C D gamma E sE)
     else
      (let half = Height_V E div 2;
           (A0, A1) = (if transA then PartitionRight (fst A) half else PartitionDown (fst A) half);
           (B0, B1) = (if transB then PartitionDown (fst B) half else PartitionRight (fst B) half);
           (C0, C1) = (if transC then PartitionRight (fst C) half else PartitionDown (fst C) half);
           (D0, D1) = (if transD then PartitionDown (fst D) half else PartitionRight (fst D) half);
           (ETL, ETR, EBL, EBR) = PartitionDownDiagonal E half
       in
       case (if uplo = LOWER then
               and_then (Gemm_local Conj orientA orientB alpha (A1, snd A) (B0, snd B) gamma EBL sE)
                 (\<lambda>sE. Gemm_local Conj orientC orientD beta (C1, snd C) (D0, snd D) 1 EBL sE)
             else
               and_then (Gemm_local Conj orientA orientB alpha (A0, snd A) (B1, snd B) gamma ETR sE)
                 (\<lambda>sE. Gemm_local Conj orientC orientD beta (C0, snd C) (D1, snd D) 1 ETR sE)) of
         Inl e \<Rightarrow> Some (Inl e)
       | Inr sE \<Rightarrow>
          (case LocalTrr2k fuel threshold Conj fresh uplo orientA orientB orientC orientD
                  alpha (A0, snd A) (B0, snd B) beta (C0, snd C) (D0, snd D) gamma ETL sE of
             None \<Rightarrow> None
           | Some (Inl e) \<Rightarrow> Some (Inl e)
           | Some (Inr sE) \<Rightarrow>
               LocalTrr2k fuel threshold Conj fresh uplo orientA orientB orientC orientD
                 alpha (A1, snd A) (B1, snd B) beta (C1, snd C) (D1, snd D) gamma EBR sE)))"

text \<open>
  Notions for stating what the update computes.  \<open>op_local\<close> is entry \<open>(i,l)\<close> of
  \<open>op(A)\<close> read from the window of \<open>A\<close>.  An operand that supplies the rows of the
  product (\<open>A\<close> and \<open>C\<close>) conforms to \<open>E\<close> when \<open>op\<close> of it has the height of \<open>E\<close>
  and \<open>k\<close> columns, its distributed dimension has the shift and stride of the rows
  of \<open>E\<close>, and its other dimension is replicated; likewise an operand that supplies
  the columns (\<open>B\<close> and \<open>D\<close>).
\<close>

definition op_local :: "('a \<Rightarrow> 'a) \<Rightarrow> Orientation \<Rightarrow> View \<times> 'a entries \<Rightarrow> nat \<Rightarrow> nat \<Rightarrow> 'a" where
  "op_local Conj orient A i l =
     (if orient = NORMAL then snd A (LocalRow0 (fst A) + i) (LocalCol0 (fst A) + l)
      else if orient = TRANSPOSE then snd A (LocalRow0 (fst A) + l) (LocalCol0 (fst A) + i)
      else Conj (snd A (LocalRow0 (fst A) + l) (LocalCol0 (fst A) + i)))"

definition conforms_rows :: "Orientation \<Rightarrow> View \<Rightarrow> View \<Rightarrow> nat \<Rightarrow> bool" where
  "conforms_rows orient A E k \<longleftrightarrow>
     (if orient = NORMAL
      then Height_V A = Height_V E \<and> Width_V A = k \<and>
           ColShift_V A = ColShift_V E \<and> ColStride_V A = ColStride_V E \<and>
           RowShift_V A = 0 \<and> RowStride_V A = 1
      else Width_V A = Height_V E \<and> Height_V A = k \<and>
           RowShift_V A = ColShift_V E \<and> RowStride_V A = ColStride_V E \<and>
           ColShift_V A = 0 \<and> ColStride_V A = 1)"

definition conforms_cols :: "Orientation \<Rightarrow> View \<Rightarrow> View \<Rightarrow> nat \<Rightarrow> bool" where
  "conforms_cols orient B E k \<longleftrightarrow>
     (if orient = NORMAL
      then Width_V B = Width_V E \<and> Height_V B = k \<and>
           RowShift_V B = RowShift_V E \<and> RowStride_V B = RowStride_V E \<and>
           ColShift_V B = 0 \<and> ColStride_V B = 1
      else Height_V B = Width_V E \<and> Width_V B = k \<and>
           ColShift_V B = RowShift_V E \<and> ColStride_V B = RowStride_V E \<and>
           RowShift_V B = 0 \<and> RowStride_V B = 1)"

definition gemm_update ::
  "('a \<Rightarrow> 'a) \<Rightarrow> Orientation \<Rightarrow> Orientation \<Rightarrow> 'a \<Rightarrow> View \<times> 'a entries \<Rightarrow> View \<times> 'a entries \<Rightarrow> nat
     \<Rightarrow> 'a \<Rightarrow> View \<Rightarrow> ('a::comm_ring_1) entries \<Rightarrow> 'a entries" where
  "gemm_update Conj orientA orientB alpha A B k beta E sE =
     (\<lambda>iLoc jLoc.
        if in_window E iLoc jLoc
        then alpha * (\<Sum>l<k. op_local Conj orientA A (iLoc - LocalRow0 E) l *
                              op_local Conj orientB B l (jLoc - LocalCol0 E))
             + beta * sE iLoc jLoc
        else sE iLoc jLoc)"

definition trr2k_update ::
  "('a \<Rightarrow> 'a) \<Rightarrow> UpperOrLower \<Rightarrow> Orientation \<Rightarrow> Orientation \<Rightarrow> Orientation \<Rightarrow> Orientation
     \<Rightarrow> 'a \<Rightarrow> View \<times> 'a entries \<Rightarrow> View \<times> 'a entries \<Rightarrow> nat
     \<Rightarrow> 'a \<Rightarrow> View \<times> 'a entries \<Rightarrow> View \<times> 'a entries \<Rightarrow> nat
     \<Rightarrow> 'a \<Rightarrow> View \<Rightarrow> ('a::comm_ring_1) entries \<Rightarrow> 'a entries" where
  "trr2k_update Conj uplo orientA orientB orientC orientD alpha A B kAB beta C D kCD gamma E sE =
     (\<lambda>iLoc jLoc.
        if in_window E iLoc jLoc \<and> in_triangle uplo (global_row E iLoc) (global_col E jLoc)
        then alpha * (\<Sum>l<kAB. op_local Conj orientA A (iLoc - LocalRow0 E) l *
                                op_local Conj orientB B l (jLoc - LocalCol0 E))
             + beta * (\<Sum>l<kCD. op_local Conj orientC C (iLoc - LocalRow0 E) l *
                                 op_local Conj orientD D l (jLoc - LocalCol0 E))
             + gamma * sE iLoc jLoc
        else sE iLoc jLoc)"

text \<open>The four windows that \<open>PartitionDownDiagonal\<close> yields.\<close>

definition quadTL :: "View \<Rightarrow> nat \<Rightarrow> View" where
  "quadTL E half = fst (PartitionRight (fst (PartitionDown E half)) half)"

definition quadTR :: "View \<Rightarrow> nat \<Rightarrow> View" where
  "quadTR E half = snd (PartitionRight (fst (PartitionDown E half)) half)"

definition quadBL :: "View \<Rightarrow> nat \<Rightarrow> View" where
  "quadBL E half = fst (PartitionRight (snd (PartitionDown E half)) half)"

definition quadBR :: "View \<Rightarrow> nat \<Rightarrow> View" where
  "quadBR E half = snd (PartitionRight (snd (PartitionDown E half)) half)"

text \<open>
  The partition of an operand at \<open>half\<close> along the dimension it shares with \<open>E\<close>:
  an operand that supplies rows is cut downwards, or to the right when it is used
  transposed; an operand that supplies columns the other way round.
\<close>

definition part_rows :: "Orientation \<Rightarrow> View \<Rightarrow> nat \<Rightarrow> View \<times> View" where
  "part_rows orient A half =
     (if orient \<noteq> NORMAL then PartitionRight A half else PartitionDown A half)"

definition part_cols :: "Orientation \<Rightarrow> View \<Rightarrow> nat \<Rightarrow> View \<times> View" where
  "part_cols orient B half =
     (if orient \<noteq> NORMAL then PartitionDown B half else PartitionRight B half)"











text \<open>
  A 1 by 1 matrix on a grid of one process, for the run with a blocksize of one.
\<close>

definition unit_view :: View where
  "unit_view = \<lparr>Height_V = 1, Width_V = 1, ColShift_V = 0, ColStride_V = 1,
                 RowShift_V = 0, RowStride_V = 1, LocalRow0 = 0, LocalCol0 = 0\<rparr>"

section \<open>Properties of the portable kernel\<close>

lemma toupper_simps:
  "toupper CHR ''N'' = CHR ''N''" "toupper CHR ''n'' = CHR ''N''"
  "toupper CHR ''T'' = CHR ''T''" "toupper CHR ''t'' = CHR ''T''"
  "toupper CHR ''C'' = CHR ''C''" "toupper CHR ''c'' = CHR ''C''"
  by code_simp+

lemma block_loop:
  assumes body: "\<And>j C x. body j C x = (if j * ld \<le> x \<and> x < j * ld + m then h j (x - j * ld) (C x) else C x)"
    and mld: "m \<le> ld" and i: "i < m"
  shows "fold body [0..<n] C (i + j * ld) = (if j < n then h j i (C (i + j * ld)) else C (i + j * ld))"
proof (induction n)
  case 0 show ?case by simp
next
  case (Suc n)
  have in_block: "(n * ld \<le> i + j * ld \<and> i + j * ld < n * ld + m) \<longleftrightarrow> j = n"
  proof
    assume a: "n * ld \<le> i + j * ld \<and> i + j * ld < n * ld + m"
    have "\<not> j < n"
    proof
      assume "j < n"
      then have "Suc j \<le> n" by simp
      then have "Suc j * ld \<le> n * ld" by (rule mult_le_mono1)
      with a i mld show False by simp
    qed
    moreover have "\<not> n < j"
    proof
      assume "n < j"
      then have "Suc n \<le> j" by simp
      then have "Suc n * ld \<le> j * ld" by (rule mult_le_mono1)
      with a i mld show False by simp
    qed
    ultimately show "j = n" by simp
  next
    assume "j = n" with i show "n * ld \<le> i + j * ld \<and> i + j * ld < n * ld + m" by simp
  qed
  show ?case
    using Suc.IH in_block by (auto simp: body)
qed

lemma row_loop:
  "fold (\<lambda>i C. C(i + off := g i (C (i + off)))) [0..<m] C x =
     (if off \<le> x \<and> x < off + m then g (x - off) (C x) else C x)"
  by (induction m) auto

lemma acc_loop:
  "fold (\<lambda>l (C::nat \<Rightarrow> 'a::comm_monoid_add). (\<lambda>x. if P x then C x + f l x else C x)) [0..<k] C x =
     (if P x then C x + (\<Sum>l<k. f l x) else C x)"
  by (induction k) (auto simp: add.assoc)

lemma sum_loop:
  "fold (\<lambda>l (g::'a::comm_monoid_add). g + f l) [0..<k] z = z + (\<Sum>l<k. f l)"
  by (induction k) (auto simp: add.assoc)

lemma zero_fill_entry:
  assumes "m \<le> CLDim" "i < m" "j < n"
  shows "zero_fill m n CLDim C (i + j * CLDim) = 0"
proof -
  have "fold (\<lambda>j. fold (\<lambda>i C. C(i + j * CLDim := 0)) [0..<m]) [0..<n] C (i + j * CLDim) =
          (if j < n then 0 else C (i + j * CLDim))"
    by (rule block_loop [where h = "\<lambda>j i c. 0" and m = m])
       (simp_all add: row_loop [where g = "\<lambda>i c. 0"] assms)
  with assms show ?thesis by (simp add: zero_fill_def)
qed

lemma scale_fill_entry:
  assumes "m \<le> CLDim" "i < m" "j < n"
  shows "scale_fill m n beta CLDim C (i + j * CLDim) = C (i + j * CLDim) * beta"
proof -
  have "fold (\<lambda>j. fold (\<lambda>i C. C(i + j * CLDim := C (i + j * CLDim) * beta)) [0..<m]) [0..<n] C
          (i + j * CLDim) =
          (if j < n then C (i + j * CLDim) * beta else C (i + j * CLDim))"
    by (rule block_loop [where h = "\<lambda>j i c. c * beta" and m = m])
       (simp_all add: row_loop [where g = "\<lambda>i c. c * beta"] assms)
  with assms show ?thesis by (simp add: scale_fill_def)
qed

lemma axpy_column:
  fixes C :: "nat \<Rightarrow> 'a::comm_ring_1"
  shows "fold (\<lambda>l. let gamma = gam l j in
            fold (\<lambda>i C. let delta = A (i + l * ALDim) * gamma
                    in C(i + j * CLDim := C (i + j * CLDim) + delta)) [0..<m]) [0..<k] C x =
    (if j * CLDim \<le> x \<and> x < j * CLDim + m
     then C x + (\<Sum>l<k. A (x - j * CLDim + l * ALDim) * gam l j) else C x)"
proof -
  have "(\<lambda>l. let gamma = gam l j in
            fold (\<lambda>i C. let delta = A (i + l * ALDim) * gamma
                    in C(i + j * CLDim := C (i + j * CLDim) + delta)) [0..<m]) =
        (\<lambda>l C x. if j * CLDim \<le> x \<and> x < j * CLDim + m
                 then C x + A (x - j * CLDim + l * ALDim) * gam l j else C x)"
  proof (intro ext)
    fix l C x
    show "(let gamma = gam l j in
            fold (\<lambda>i C. let delta = A (i + l * ALDim) * gamma
                    in C(i + j * CLDim := C (i + j * CLDim) + delta)) [0..<m]) C x =
          (if j * CLDim \<le> x \<and> x < j * CLDim + m
                 then C x + A (x - j * CLDim + l * ALDim) * gam l j else C x)"
      unfolding Let_def
      by (rule row_loop [where g = "\<lambda>i c. c + A (i + l * ALDim) * gam l j"])
  qed
  then show ?thesis by (simp only: acc_loop)
qed

lemma axpy_loops_entry:
  fixes C :: "nat \<Rightarrow> 'a::comm_ring_1"
  assumes "m \<le> CLDim" "i < m" "j < n"
  shows "axpy_loops m n k gam A ALDim C CLDim (i + j * CLDim) =
           C (i + j * CLDim) + (\<Sum>l<k. A (i + l * ALDim) * gam l j)"
proof -
  have "axpy_loops m n k gam A ALDim C CLDim (i + j * CLDim) =
     (if j < n then C (i + j * CLDim) + (\<Sum>l<k. A (i + l * ALDim) * gam l j)
      else C (i + j * CLDim))"
    unfolding axpy_loops_def
    by (rule block_loop [where h = "\<lambda>j i c. c + (\<Sum>l<k. A (i + l * ALDim) * gam l j)" and m = m])
       (simp_all only: axpy_column assms)
  with assms show ?thesis by simp
qed

lemma dot_loops_entry:
  fixes C :: "nat \<Rightarrow> 'a::comm_ring_1"
  assumes "m \<le> CLDim" "i < m" "j < n"
  shows "dot_loops m n k del alpha C CLDim (i + j * CLDim) =
           C (i + j * CLDim) + (\<Sum>l<k. del i l j) * alpha"
proof -
  have body: "fold (\<lambda>i C.
        let gamma = fold (\<lambda>l gamma. gamma + del i l j) [0..<k] 0;
            gamma = gamma * alpha
        in C(i + j * CLDim := C (i + j * CLDim) + gamma)) [0..<m] C x =
      (if j * CLDim \<le> x \<and> x < j * CLDim + m
       then C x + (\<Sum>l<k. del (x - j * CLDim) l j) * alpha else C x)" for j C x
    unfolding Let_def sum_loop add_0
    by (rule row_loop [where g = "\<lambda>i c. c + (\<Sum>l<k. del i l j) * alpha"])
  have "dot_loops m n k del alpha C CLDim (i + j * CLDim) =
     (if j < n then C (i + j * CLDim) + (\<Sum>l<k. del i l j) * alpha else C (i + j * CLDim))"
    unfolding dot_loops_def
    by (rule block_loop [where h = "\<lambda>j i c. c + (\<Sum>l<k. del i l j) * alpha" and m = m])
       (simp_all only: body assms)
  with assms show ?thesis by simp
qed


lemma toupper_cases:
  assumes "t \<in> set ''NTCntc''"
  shows "toupper t = CHR ''N'' \<or> toupper t = CHR ''T'' \<or> toupper t = CHR ''C''"
  using assms toupper_simps by auto

lemma Gemm_kernel_entry:
  fixes C :: "nat \<Rightarrow> 'a::comm_ring_1"
  assumes tA: "transA \<in> set ''NTCntc''" and tB: "transB \<in> set ''NTCntc''"
    and ld: "m \<le> CLDim" and i: "i < m" and j: "j < n"
  shows "Gemm Conj transA transB m n k alpha A ALDim B BLDim beta C CLDim (i + j * CLDim) =
           alpha * (\<Sum>l<k. op_entry Conj transA A ALDim i l * op_entry Conj transB B BLDim l j)
           + beta * C (i + j * CLDim)"
proof -
  note entry = zero_fill_entry [OF ld i j] scale_fill_entry [OF ld i j]
    axpy_loops_entry [OF ld i j] dot_loops_entry [OF ld i j]
  have ne: "CHR ''T'' \<noteq> CHR ''N''" "CHR ''C'' \<noteq> CHR ''N''" "CHR ''C'' \<noteq> CHR ''T''" by simp_all
  from toupper_cases [OF tA] toupper_cases [OF tB]
  consider (NN) "toupper transA = CHR ''N''" "toupper transB = CHR ''N''"
    | (NT) "toupper transA = CHR ''N''" "toupper transB = CHR ''T''"
    | (NC) "toupper transA = CHR ''N''" "toupper transB = CHR ''C''"
    | (TN) "toupper transA = CHR ''T''" "toupper transB = CHR ''N''"
    | (TT) "toupper transA = CHR ''T''" "toupper transB = CHR ''T''"
    | (TC) "toupper transA = CHR ''T''" "toupper transB = CHR ''C''"
    | (CN) "toupper transA = CHR ''C''" "toupper transB = CHR ''N''"
    | (CT) "toupper transA = CHR ''C''" "toupper transB = CHR ''T''"
    | (CC) "toupper transA = CHR ''C''" "toupper transB = CHR ''C''"
    by blast
  then show ?thesis
  proof cases
    case NN then show ?thesis
      using i j
      by (simp add: Gemm_def op_entry_def entry ne; simp add: sum_distrib_left sum_distrib_right mult_ac)
  next
    case NT then show ?thesis
      using i j
      by (simp add: Gemm_def op_entry_def entry ne; simp add: sum_distrib_left sum_distrib_right mult_ac)
  next
    case NC then show ?thesis
      using i j
      by (simp add: Gemm_def op_entry_def entry ne; simp add: sum_distrib_left sum_distrib_right mult_ac)
  next
    case TN then show ?thesis
      using i j
      by (simp add: Gemm_def op_entry_def entry ne; simp add: sum_distrib_left sum_distrib_right mult_ac)
  next
    case TT then show ?thesis
      using i j
      by (simp add: Gemm_def op_entry_def entry ne; simp add: sum_distrib_left sum_distrib_right mult_ac)
  next
    case TC then show ?thesis
      using i j
      by (simp add: Gemm_def op_entry_def entry ne; simp add: sum_distrib_left sum_distrib_right mult_ac)
  next
    case CN then show ?thesis
      using i j
      by (simp add: Gemm_def op_entry_def entry ne; simp add: sum_distrib_left sum_distrib_right mult_ac)
  next
    case CT then show ?thesis
      using i j
      by (simp add: Gemm_def op_entry_def entry ne; simp add: sum_distrib_left sum_distrib_right mult_ac)
  next
    case CC then show ?thesis
      using i j
      by (simp add: Gemm_def op_entry_def entry ne; simp add: sum_distrib_left sum_distrib_right mult_ac)
  qed
qed

text \<open>
  Claim C1.  For orientation characters among \<open>N\<close>, \<open>T\<close>, \<open>C\<close> in either case and all
  \<open>m\<close>, \<open>n\<close>, \<open>k\<close>, the portable kernel leaves in entry \<open>(i,j)\<close> of \<open>C\<close>, for \<open>i < m\<close>
  and \<open>j < n\<close>, the value \<open>alpha * (\<Sum>l<k. op(A)(i,l) * op(B)(l,j)) + beta * C(i,j)\<close>
  of the old \<open>C\<close>, over any commutative ring with a conjugation.  The output buffer is
  column-major storage, that is, its leading dimension is at least its height
  (\<open>m \<le> CLDim\<close>), so that distinct entries have distinct offsets.
\<close>

theorem Gemm_entry:
  fixes C :: "nat \<Rightarrow> 'a::comm_ring_1"
  assumes "transA \<in> set ''NTCntc''" and "transB \<in> set ''NTCntc''"
    and "m \<le> CLDim" and "i < m" and "j < n"
  shows "Gemm Conj transA transB m n k alpha A ALDim B BLDim beta C CLDim (i + j * CLDim) =
           alpha * (\<Sum>l<k. op_entry Conj transA A ALDim i l * op_entry Conj transB B BLDim l j)
           + beta * C (i + j * CLDim)"
  using assms by (rule Gemm_kernel_entry)

text \<open>
  The theorem at a concrete call: \<open>A = (1 2)\<^sup>T\<close>, \<open>B = (3 4)\<^sup>T\<close>, \<open>C\<close> all ones,
  \<open>C := 2 A B\<^sup>T + 3 C\<close>; entry \<open>(1,1)\<close> becomes \<open>2 * 2 * 4 + 3 = 19\<close>.
\<close>

theorem Gemm_entry_witness:
  "Gemm (\<lambda>z. z) CHR ''n'' CHR ''T'' 2 2 1 (2::int) (\<lambda>x. int x + 1) 2 (\<lambda>x. int x + 3) 2 3
     (\<lambda>x. 1) 2 (1 + 1 * 2) = 19"
  using Gemm_entry [of "CHR ''n''" "CHR ''T''" 2 2 1 1 2 "\<lambda>z. z" 1 "2::int"
      "\<lambda>x. int x + 1" 2 "\<lambda>x. int x + 3" 2 3 "\<lambda>x. 1"]
  by (simp add: op_entry_def toupper_simps)


section \<open>Properties of the \<open>Gemm\<close> entry points\<close>

lemma Gemm_Matrix_check_iff:
  "Gemm_Matrix_check orientA orientB A B C \<noteq> None \<longleftrightarrow>
     nonconformal orientA orientB (Height A, Width A) (Height B, Width B) (Height C, Width C)"
  by (cases "orientA = NORMAL"; cases "orientB = NORMAL")
     (simp_all add: Gemm_Matrix_check_def nonconformal_def op_dims_def)

lemma Gemm_Matrix_raises_iff:
  "snd (Gemm_Matrix Conj orientA orientB alpha A B beta C) \<noteq> None \<longleftrightarrow>
     Gemm_Matrix_check orientA orientB A B C \<noteq> None"
  by (simp add: Gemm_Matrix_def Let_def split: option.split)

lemma Gemm_Matrix_raise_frame:
  "Gemm_Matrix_check orientA orientB A B C = Some e \<Longrightarrow>
     Gemm_Matrix Conj orientA orientB alpha A B beta C = (C, Some e)"
  by (simp add: Gemm_Matrix_def)

lemma Gemm_Dist_eq:
  "Gemm_Dist panels orientA orientB alpha A B beta (C, issued) alg =
     Gemm_variant panels orientA orientB alpha A B (C\<lparr>LocalMatrix := Scale beta (LocalMatrix C)\<rparr>, issued)"
  by (simp add: Gemm_Dist_def Cannon_NN_def SUMMA_NN_def SUMMA_NT_def SUMMA_TN_def SUMMA_TT_def Let_def)

lemma Gemm_variant_raises_iff:
  "snd (Gemm_variant panels orientA orientB alpha A B proc) \<noteq> None \<longleftrightarrow>
    nonconformal orientA orientB (GlobalHeight A, GlobalWidth A) (GlobalHeight B, GlobalWidth B)
      (GlobalHeight (fst proc), GlobalWidth (fst proc))"
  by (cases "orientA = NORMAL"; cases "orientB = NORMAL")
     (auto simp add: Gemm_variant_def nonconformal_def op_dims_def op_Height_def op_Width_def Let_def split: prod.split)

lemma Gemm_variant_raise_frame:
  "nonconformal orientA orientB (GlobalHeight A, GlobalWidth A) (GlobalHeight B, GlobalWidth B)
      (GlobalHeight (fst proc), GlobalWidth (fst proc)) \<Longrightarrow>
    Gemm_variant panels orientA orientB alpha A B proc = (proc, Some (LogicError ''Nonconformal matrices''))"
  by (cases "orientA = NORMAL"; cases "orientB = NORMAL")
     (auto simp add: Gemm_variant_def nonconformal_def op_dims_def op_Height_def op_Width_def Let_def)

lemma Gemm_variant_k0:
  "\<not> nonconformal orientA orientB (GlobalHeight A, GlobalWidth A) (GlobalHeight B, GlobalWidth B)
      (GlobalHeight (fst proc), GlobalWidth (fst proc)) \<Longrightarrow> op_Width orientA A = 0 \<Longrightarrow>
    Gemm_variant panels orientA orientB alpha A B proc = (proc, None)"
  by (cases "orientA = NORMAL"; cases "orientB = NORMAL")
     (auto simp add: Gemm_variant_def nonconformal_def op_dims_def op_Height_def op_Width_def Let_def)

lemma MemZero_cols:
  "fold (\<lambda>j ABuf. MemZero ABuf (j * ld) h) [0..<w] buf x =
     (if \<exists>j<w. j * ld \<le> x \<and> x < j * ld + h then 0 else buf x)"
proof (induction w)
  case 0 show ?case by simp
next
  case (Suc w)
  have "(\<exists>j<Suc w. j * ld \<le> x \<and> x < j * ld + h) \<longleftrightarrow>
        (\<exists>j<w. j * ld \<le> x \<and> x < j * ld + h) \<or> (w * ld \<le> x \<and> x < w * ld + h)"
    by (metis less_Suc_eq)
  moreover have "fold (\<lambda>j ABuf. MemZero ABuf (j * ld) h) [0..<Suc w] buf x =
      (if w * ld \<le> x \<and> x < w * ld + h then 0
       else fold (\<lambda>j ABuf. MemZero ABuf (j * ld) h) [0..<w] buf x)"
    by (simp add: MemZero_def)
  ultimately show ?case using Suc.IH by auto
qed

lemma Zero_entry:
  assumes "Height A \<le> LDim A" "i < Height A" "j < Width A"
  shows "Buffer (Zero A) (i + j * LDim A) = 0"
proof (cases "LDim A = Height A")
  case True
  have "i + j * Height A < Height A * Width A"
  proof -
    have "i + j * Height A < Height A + j * Height A" using assms by simp
    also have "\<dots> = Height A * Suc j" by simp
    also have "\<dots> \<le> Height A * Width A" using assms by (intro mult_le_mono2) simp
    finally show ?thesis .
  qed
  with True show ?thesis by (simp add: Zero_def Let_def MemZero_def)
next
  case False
  have "\<exists>j'<Width A. j' * LDim A \<le> i + j * LDim A \<and> i + j * LDim A < j' * LDim A + Height A"
    using assms by (intro exI [of _ j]) simp
  with False show ?thesis by (simp add: Zero_def Let_def MemZero_cols)
qed

lemma Zero_dims: "Height (Zero A) = Height A" "Width (Zero A) = Width A" "LDim (Zero A) = LDim A"
  by (simp_all add: Zero_def Let_def)


lemma Scale_zero_entry:
  fixes C :: "('a::comm_ring_1) Matrix"
  assumes "Height C \<le> LDim C" "i < Height C" "j < Width C"
  shows "Buffer (Scale 0 C) (i + j * LDim C) = 0"
  using Zero_entry [OF assms] by (simp add: Scale_def)

lemma Scale_entry:
  fixes C :: "('a::comm_ring_1) Matrix"
  assumes "Height C \<le> LDim C" "i < Height C" "j < Width C"
  shows "Buffer (Scale beta C) (i + j * LDim C) = beta * Buffer C (i + j * LDim C)"
proof (cases "beta = 0")
  case True
  then show ?thesis using Zero_entry [OF assms] by (simp add: Scale_def)
next
  case False
  then show ?thesis
    by (simp add: Scale_def scale_fill_entry [OF assms] mult.commute)
qed

lemma Scale_dims:
  fixes C :: "('a::comm_ring_1) Matrix"
  shows "LDim (Scale beta C) = LDim C" "Height (Scale beta C) = Height C" "Width (Scale beta C) = Width C"
  by (simp_all add: Scale_def Zero_dims)

text \<open>
  Claim C3, as amended.  The sequential overload raises its nonconformal-dimensions
  error exactly when the shapes violate the conformance conditions of the orientation
  pair, and then \<open>C\<close> is as it was.  The distributed overload has no check of its own:
  it scales the local matrix of \<open>C\<close> by \<open>beta\<close> and dispatches to the variant of
  the orientation pair; the variant raises exactly when the global shapes are
  nonconformal, and at that point no communication call has been added and \<open>C\<close> is
  the old \<open>C\<close> scaled by \<open>beta\<close>.
\<close>

theorem Gemm_conformance_amended:
  fixes C :: "('a::comm_ring_1) Matrix" and D :: "'a DistMatrix"
  shows "(snd (Gemm_Matrix Conj orientA orientB alpha A B beta C) \<noteq> None \<longleftrightarrow>
            nonconformal orientA orientB (Height A, Width A) (Height B, Width B) (Height C, Width C))
       \<and> (snd (Gemm_Matrix Conj orientA orientB alpha A B beta C) \<noteq> None \<longrightarrow>
            fst (Gemm_Matrix Conj orientA orientB alpha A B beta C) = C)
       \<and> (snd (Gemm_Dist panels orientA orientB alpha A' B' beta (D, issued) alg) \<noteq> None \<longleftrightarrow>
            nonconformal orientA orientB (GlobalHeight A', GlobalWidth A')
              (GlobalHeight B', GlobalWidth B') (GlobalHeight D, GlobalWidth D))
       \<and> (snd (Gemm_Dist panels orientA orientB alpha A' B' beta (D, issued) alg) \<noteq> None \<longrightarrow>
            fst (Gemm_Dist panels orientA orientB alpha A' B' beta (D, issued) alg) =
              (D\<lparr>LocalMatrix := Scale beta (LocalMatrix D)\<rparr>, issued))"
proof (intro conjI impI)
  show "snd (Gemm_Matrix Conj orientA orientB alpha A B beta C) \<noteq> None \<longleftrightarrow>
            nonconformal orientA orientB (Height A, Width A) (Height B, Width B) (Height C, Width C)"
    by (simp only: Gemm_Matrix_raises_iff Gemm_Matrix_check_iff)
next
  assume "snd (Gemm_Matrix Conj orientA orientB alpha A B beta C) \<noteq> None"
  then have "Gemm_Matrix_check orientA orientB A B C \<noteq> None"
    using Gemm_Matrix_raises_iff [of Conj orientA orientB alpha A B beta C] by blast
  then obtain e where "Gemm_Matrix_check orientA orientB A B C = Some e"
    by auto
  then show "fst (Gemm_Matrix Conj orientA orientB alpha A B beta C) = C"
    by (simp add: Gemm_Matrix_raise_frame)
next
  show "snd (Gemm_Dist panels orientA orientB alpha A' B' beta (D, issued) alg) \<noteq> None \<longleftrightarrow>
            nonconformal orientA orientB (GlobalHeight A', GlobalWidth A')
              (GlobalHeight B', GlobalWidth B') (GlobalHeight D, GlobalWidth D)"
    using Gemm_variant_raises_iff [of panels orientA orientB alpha A' B'
        "(D\<lparr>LocalMatrix := Scale beta (LocalMatrix D)\<rparr>, issued)"]
    by (simp add: Gemm_Dist_eq)
next
  assume "snd (Gemm_Dist panels orientA orientB alpha A' B' beta (D, issued) alg) \<noteq> None"
  then have "nonconformal orientA orientB (GlobalHeight A', GlobalWidth A')
              (GlobalHeight B', GlobalWidth B') (GlobalHeight D, GlobalWidth D)"
    using Gemm_variant_raises_iff [of panels orientA orientB alpha A' B'
        "(D\<lparr>LocalMatrix := Scale beta (LocalMatrix D)\<rparr>, issued)"]
    by (simp add: Gemm_Dist_eq)
  then show "fst (Gemm_Dist panels orientA orientB alpha A' B' beta (D, issued) alg) =
              (D\<lparr>LocalMatrix := Scale beta (LocalMatrix D)\<rparr>, issued)"
    by (simp add: Gemm_Dist_eq Gemm_variant_raise_frame)
qed

text \<open>
  Both overloads on a nonconformal call (\<open>A\<close> and \<open>B\<close> are 1 by 1, \<open>C\<close> is 2 by 2).
\<close>

theorem Gemm_conformance_amended_witness:
  "fst (Gemm_Matrix (\<lambda>z. z) NORMAL TRANSPOSE 1 (const_Matrix 1 1 1) (const_Matrix 1 1 1) 0
          (const_Matrix 2 2 5)) = const_Matrix 2 2 5
   \<and> fst (Gemm_Dist no_panels NORMAL TRANSPOSE 1 (const_DistMatrix 1 1 1) (const_DistMatrix 1 1 1) 0
          (const_DistMatrix 2 2 5, []) GEMM_DEFAULT) =
        ((const_DistMatrix 2 2 5)\<lparr>LocalMatrix := Scale 0 (const_Matrix 2 2 5)\<rparr>, [])"
  using Gemm_conformance_amended [of "\<lambda>z. z" NORMAL TRANSPOSE 1 "const_Matrix 1 1 1"
      "const_Matrix 1 1 1" 0 "const_Matrix 2 2 5" no_panels "const_DistMatrix 1 1 1"
      "const_DistMatrix 1 1 1" "const_DistMatrix 2 2 5" "[]" GEMM_DEFAULT]
  by (simp add: nonconformal_def op_dims_def const_Matrix_def const_DistMatrix_def)

text \<open>
  The distributed overload on the same nonconformal shapes with \<open>beta = 0\<close>: the error
  is raised, and the entry of \<open>C\<close> that held 5 holds 0.
\<close>

theorem Gemm_Dist_raise_after_scale:
  "snd (Gemm_Dist no_panels NORMAL NORMAL 1 (const_DistMatrix 1 1 1) (const_DistMatrix 1 1 1) 0
         (const_DistMatrix 2 2 5, []) GEMM_DEFAULT) = Some (LogicError ''Nonconformal matrices'')
   \<and> Buffer (LocalMatrix (const_DistMatrix 2 2 5)) 0 = 5
   \<and> Buffer (LocalMatrix (fst (fst (Gemm_Dist no_panels NORMAL NORMAL 1 (const_DistMatrix 1 1 1)
         (const_DistMatrix 1 1 1) 0 (const_DistMatrix 2 2 5, []) GEMM_DEFAULT)))) 0 = 0"
  by (simp add: Gemm_Dist_eq Gemm_variant_def op_Height_def op_Width_def Scale_def Zero_def
      MemZero_def const_Matrix_def const_DistMatrix_def)


lemma OrientationToChar_valid: "OrientationToChar orient \<in> set ''NTCntc''"
  by (cases orient) simp_all

text \<open>
  Claim C5.  When the contraction dimension is zero and the call is conformal, the
  sequential overload returns \<open>C\<close> scaled by \<open>beta\<close> and nothing else: the shape of
  \<open>C\<close> is kept, every entry \<open>(i,j)\<close> of \<open>C\<close> becomes \<open>beta\<close> times its old value,
  the result is the same whatever the buffers of \<open>A\<close> and \<open>B\<close> hold, and with
  \<open>beta = 0\<close> every entry of \<open>C\<close> is zero.  The kernel \<open>blas::Gemm\<close> called with
  \<open>k = 0\<close> leaves the same entries, and zero in each of them when \<open>beta = 0\<close>.  The
  distributed overload with \<open>K = 0\<close> and \<open>beta = 0\<close> leaves the local matrix of \<open>C\<close>
  zeroed, with its shape, and adds no communication call (the variants being those of
  the spec).  Local matrices are column-major storage.
\<close>

theorem Gemm_zero_contraction:
  fixes C :: "('a::comm_ring_1) Matrix" and D :: "'a DistMatrix"
  assumes seq_k: "(if orientA = NORMAL then Width A else Height A) = 0"
    and seq_ok: "\<not> nonconformal orientA orientB (Height A, Width A) (Height B, Width B)
                    (Height C, Width C)"
    and seq_ld: "Height C \<le> LDim C"
    and dist_k: "op_Width orientA A' = 0"
    and dist_ok: "\<not> nonconformal orientA orientB (GlobalHeight A', GlobalWidth A')
                    (GlobalHeight B', GlobalWidth B') (GlobalHeight D, GlobalWidth D)"
    and dist_ld: "Height (LocalMatrix D) \<le> LDim (LocalMatrix D)"
  shows "Gemm_Matrix Conj orientA orientB alpha A B beta C = (Scale beta C, None)
       \<and> Gemm_Matrix Conj orientA orientB alpha (A\<lparr>Buffer := a\<rparr>) (B\<lparr>Buffer := b\<rparr>) beta C =
           Gemm_Matrix Conj orientA orientB alpha A B beta C
       \<and> (i < Height C \<and> j < Width C \<longrightarrow>
            Buffer (fst (Gemm_Matrix Conj orientA orientB alpha A B 0 C)) (i + j * LDim C) = 0)
       \<and> Gemm_Dist panels orientA orientB alpha A' B' 0 (D, issued) alg =
           ((D\<lparr>LocalMatrix := Zero (LocalMatrix D)\<rparr>, issued), None)
       \<and> (i' < Height (LocalMatrix D) \<and> j' < Width (LocalMatrix D) \<longrightarrow>
            Buffer (Zero (LocalMatrix D)) (i' + j' * LDim (LocalMatrix D)) = 0)
       \<and> Height (Zero (LocalMatrix D)) = Height (LocalMatrix D)
       \<and> Width (Zero (LocalMatrix D)) = Width (LocalMatrix D)
       \<and> (i < Height C \<and> j < Width C \<longrightarrow>
            Buffer (fst (Gemm_Matrix Conj orientA orientB alpha A B beta C)) (i + j * LDim C) =
              beta * Buffer C (i + j * LDim C))
       \<and> Height (fst (Gemm_Matrix Conj orientA orientB alpha A B beta C)) = Height C
       \<and> Width (fst (Gemm_Matrix Conj orientA orientB alpha A B beta C)) = Width C
       \<and> LDim (fst (Gemm_Matrix Conj orientA orientB alpha A B beta C)) = LDim C
       \<and> (i < Height C \<and> j < Width C \<longrightarrow>
            Gemm Conj (OrientationToChar orientA) (OrientationToChar orientB) (Height C) (Width C) 0
              alpha a ALDim b BLDim beta (Buffer C) (LDim C) (i + j * LDim C) =
              beta * Buffer C (i + j * LDim C))"
proof -
  have chk: "Gemm_Matrix_check orientA orientB A B C = None"
    using seq_ok Gemm_Matrix_check_iff [of orientA orientB A B C] by blast
  have k0: "\<not> (if orientA = NORMAL then Width A else Height A) \<noteq> 0"
    using seq_k by simp
  have seq: "Gemm_Matrix Conj orientA orientB alpha A B bt C = (Scale bt C, None)" for bt
    unfolding Gemm_Matrix_def chk Let_def option.case if_not_P [OF k0] ..
  have "Gemm_Matrix_check orientA orientB (A\<lparr>Buffer := a\<rparr>) (B\<lparr>Buffer := b\<rparr>) C =
      Gemm_Matrix_check orientA orientB A B C"
    by (simp add: Gemm_Matrix_check_def)
  then have chk': "Gemm_Matrix_check orientA orientB (A\<lparr>Buffer := a\<rparr>) (B\<lparr>Buffer := b\<rparr>) C = None"
    by (simp only: chk)
  have k0': "\<not> (if orientA = NORMAL then Width (A\<lparr>Buffer := a\<rparr>) else Height (A\<lparr>Buffer := a\<rparr>)) \<noteq> 0"
    using seq_k by (auto split: if_splits)
  have seq': "Gemm_Matrix Conj orientA orientB alpha (A\<lparr>Buffer := a\<rparr>) (B\<lparr>Buffer := b\<rparr>) beta C =
      (Scale beta C, None)"
    unfolding Gemm_Matrix_def chk' Let_def option.case if_not_P [OF k0'] ..
  have zero: "i < Height C \<and> j < Width C \<longrightarrow>
      Buffer (fst (Gemm_Matrix Conj orientA orientB alpha A B 0 C)) (i + j * LDim C) = 0"
    unfolding seq fst_conv using seq_ld Scale_zero_entry [of C] by blast
  have nc: "\<not> nonconformal orientA orientB (GlobalHeight A', GlobalWidth A')
      (GlobalHeight B', GlobalWidth B')
      (GlobalHeight (fst (D\<lparr>LocalMatrix := Zero (LocalMatrix D)\<rparr>, issued)),
       GlobalWidth (fst (D\<lparr>LocalMatrix := Zero (LocalMatrix D)\<rparr>, issued)))"
    using dist_ok by simp
  have sc0: "Scale 0 (LocalMatrix D) = Zero (LocalMatrix D)"
    by (simp add: Scale_def)
  have dist: "Gemm_Dist panels orientA orientB alpha A' B' 0 (D, issued) alg =
           ((D\<lparr>LocalMatrix := Zero (LocalMatrix D)\<rparr>, issued), None)"
    unfolding Gemm_Dist_eq sc0 by (rule Gemm_variant_k0 [OF nc dist_k])
  have dzero: "i' < Height (LocalMatrix D) \<and> j' < Width (LocalMatrix D) \<longrightarrow>
            Buffer (Zero (LocalMatrix D)) (i' + j' * LDim (LocalMatrix D)) = 0"
    using dist_ld Zero_entry [of "LocalMatrix D"] by blast
  have scaled: "i < Height C \<and> j < Width C \<longrightarrow>
      Buffer (fst (Gemm_Matrix Conj orientA orientB alpha A B beta C)) (i + j * LDim C) =
        beta * Buffer C (i + j * LDim C)"
    unfolding seq fst_conv using seq_ld Scale_entry [of C i j beta] by blast
  have shape: "Height (fst (Gemm_Matrix Conj orientA orientB alpha A B beta C)) = Height C"
    "Width (fst (Gemm_Matrix Conj orientA orientB alpha A B beta C)) = Width C"
    "LDim (fst (Gemm_Matrix Conj orientA orientB alpha A B beta C)) = LDim C"
    unfolding seq fst_conv by (rule Scale_dims)+
  have kernel: "i < Height C \<and> j < Width C \<longrightarrow>
      Gemm Conj (OrientationToChar orientA) (OrientationToChar orientB) (Height C) (Width C) 0
        alpha a ALDim b BLDim beta (Buffer C) (LDim C) (i + j * LDim C) =
        beta * Buffer C (i + j * LDim C)"
    using Gemm_kernel_entry [OF OrientationToChar_valid OrientationToChar_valid seq_ld,
        of i j "Width C" Conj orientA orientB 0 alpha a ALDim b BLDim beta "Buffer C"]
    by simp
  show ?thesis
    by (intro conjI) (fact seq, simp only: seq seq', fact zero, fact dist, fact dzero,
        fact Zero_dims, fact Zero_dims, fact scaled, fact shape, fact shape, fact shape,
        fact kernel)
qed

text \<open>
  The theorem at \<open>A\<close> of shape 2 by 0, \<open>B\<close> of shape 0 by 2 and \<open>C\<close> of shape 2 by 2
  with every entry 5, for \<open>beta = 0\<close> and for \<open>beta = 3\<close>.
\<close>

theorem Gemm_zero_contraction_witness:
  "Gemm_Matrix (\<lambda>z. z) NORMAL NORMAL 3 (const_Matrix 2 0 1) (const_Matrix 0 2 1) 0 (const_Matrix 2 2 5)
      = (Scale 0 (const_Matrix 2 2 5), None)
   \<and> Buffer (fst (Gemm_Matrix (\<lambda>z. z) NORMAL NORMAL 3 (const_Matrix 2 0 1) (const_Matrix 0 2 1) 0
        (const_Matrix 2 2 5))) (1 + 1 * 2) = 0
   \<and> Gemm_Dist no_panels NORMAL NORMAL 3 (const_DistMatrix 2 0 1) (const_DistMatrix 0 2 1) 0
        (const_DistMatrix 2 2 5, []) GEMM_DEFAULT =
        (((const_DistMatrix 2 2 5)\<lparr>LocalMatrix := Zero (const_Matrix 2 2 5)\<rparr>, []), None)
   \<and> Buffer (Zero (const_Matrix 2 2 5)) (1 + 1 * 2) = 0
   \<and> Buffer (fst (Gemm_Matrix (\<lambda>z. z) NORMAL NORMAL 3 (const_Matrix 2 0 1) (const_Matrix 0 2 1) 3
        (const_Matrix 2 2 5))) (1 + 1 * 2) = 15
   \<and> Gemm (\<lambda>z. z) CHR ''N'' CHR ''N'' 2 2 0 3 (\<lambda>x. 1) 2 (\<lambda>x. 1) 1 3 (\<lambda>x. 5) 2 (1 + 1 * 2) = (15::int)"
proof -
  have d: "Height (const_Matrix 2 2 5) = 2" "Width (const_Matrix 2 2 5) = 2"
    "LDim (const_Matrix 2 2 5) = 2" "LocalMatrix (const_DistMatrix 2 2 5) = const_Matrix 2 2 5"
    "Buffer (const_Matrix 2 2 5) = (\<lambda>x. 5)"
    by (simp_all add: const_Matrix_def const_DistMatrix_def)
  have h: "(if NORMAL = NORMAL then Width (const_Matrix 2 0 1) else Height (const_Matrix 2 0 1)) = 0"
    "\<not> nonconformal NORMAL NORMAL (Height (const_Matrix 2 0 1), Width (const_Matrix 2 0 1))
        (Height (const_Matrix 0 2 1), Width (const_Matrix 0 2 1))
        (Height (const_Matrix 2 2 5), Width (const_Matrix 2 2 5))"
    "Height (const_Matrix 2 2 5) \<le> LDim (const_Matrix 2 2 5)"
    "op_Width NORMAL (const_DistMatrix 2 0 1) = 0"
    "\<not> nonconformal NORMAL NORMAL
        (GlobalHeight (const_DistMatrix 2 0 1), GlobalWidth (const_DistMatrix 2 0 1))
        (GlobalHeight (const_DistMatrix 0 2 1), GlobalWidth (const_DistMatrix 0 2 1))
        (GlobalHeight (const_DistMatrix 2 2 5), GlobalWidth (const_DistMatrix 2 2 5))"
    "Height (LocalMatrix (const_DistMatrix 2 2 5)) \<le> LDim (LocalMatrix (const_DistMatrix 2 2 5))"
    by (simp_all add: nonconformal_def op_dims_def op_Width_def const_Matrix_def const_DistMatrix_def)
  show ?thesis
    using Gemm_zero_contraction [OF h, of "\<lambda>z. z" 3 0 "\<lambda>x. 1" "\<lambda>x. 1" 1 1 no_panels "[]"
        GEMM_DEFAULT 1 1 2 1]
      Gemm_zero_contraction [OF h, of "\<lambda>z. z" 3 3 "\<lambda>x. 1" "\<lambda>x. 1" 1 1 no_panels "[]"
        GEMM_DEFAULT 1 1 2 1]
    by (auto simp add: d)
qed


section \<open>Properties of cyclic distributions\<close>

lemma LocalLength_iff:
  assumes "0 < s"
  shows "k < LocalLength n sh s \<longleftrightarrow> sh + k * s < n"
proof (cases "sh < n")
  case False
  then show ?thesis by (simp add: LocalLength_def)
next
  case True
  have "k < LocalLength n sh s \<longleftrightarrow> k \<le> (n - sh - 1) div s"
    using True by (simp add: LocalLength_def less_Suc_eq_le)
  also have "\<dots> \<longleftrightarrow> k * s \<le> n - sh - 1"
    using assms by (simp add: less_eq_div_iff_mult_less_eq)
  also have "\<dots> \<longleftrightarrow> sh + k * s < n"
    using True by auto
  finally show ?thesis .
qed

section \<open>Properties of entry access under \<open>[VR,* ]\<close>\<close>

lemma smod_nonneg: "0 \<le> a \<Longrightarrow> 0 < b \<Longrightarrow> (a::int) smod b = a mod b"
  by (simp add: signed_modulo_int_def sgn_if)

lemma sdiv_nonneg: "0 \<le> a \<Longrightarrow> 0 < b \<Longrightarrow> (a::int) sdiv b = a div b"
  by (simp add: signed_divide_int_def sgn_if)

lemma int_Shift:
  assumes "0 \<le> rank" "0 \<le> align" "align < p"
  shows "int (Shift (nat rank) (nat align) (nat p)) = (rank - align) mod p"
proof -
  have "int (Shift (nat rank) (nat align) (nat p)) = int (nat rank + nat p - nat align) mod int (nat p)"
    by (simp add: Shift_def zmod_int)
  also have "int (nat rank + nat p - nat align) = rank + p - align"
    using assms by simp
  also have "int (nat p) = p" using assms by simp
  also have "(rank + p - align) mod p = (rank - align) mod p"
    by (metis add_diff_eq diff_add_eq mod_add_self2)
  finally show ?thesis .
qed

lemma int_LocalLength_iff:
  assumes p: "0 < p" and iLoc: "0 \<le> iLoc"
  shows "iLoc < int (LocalLength (nat M) sh (nat p)) \<longleftrightarrow> int sh + iLoc * p < M"
proof -
  have np: "0 < nat p" using p by simp
  have "iLoc < int (LocalLength (nat M) sh (nat p)) \<longleftrightarrow> nat iLoc < LocalLength (nat M) sh (nat p)"
    using iLoc by (simp add: nat_less_iff)
  also have "\<dots> \<longleftrightarrow> sh + nat iLoc * nat p < nat M"
    by (rule LocalLength_iff [OF np])
  also have "\<dots> \<longleftrightarrow> int (sh + nat iLoc * nat p) < M"
    by (rule zless_nat_eq_int_zless)
  also have "int (sh + nat iLoc * nat p) = int sh + iLoc * p"
    using p iLoc by simp
  finally show ?thesis .
qed

lemma owner_shift:
  fixes p :: int
  assumes "0 < p"
  shows "((i + align) mod p - align) mod p = i mod p"
  by (metis add_diff_cancel_right' mod_diff_left_eq)

lemma owner_unique:
  fixes p :: int
  assumes "0 < p" "0 \<le> rank" "rank < p" "0 \<le> i"
  shows "(\<exists>iLoc\<ge>0. (rank - align) mod p + iLoc * p = i) \<longleftrightarrow> rank = (i + align) mod p"
proof
  assume "\<exists>iLoc\<ge>0. (rank - align) mod p + iLoc * p = i"
  then obtain iLoc where "(rank - align) mod p + iLoc * p = i" by blast
  then have "i mod p = (rank - align) mod p"
    by (metis mod_mod_trivial mod_mult_self1)
  then have "(i + align) mod p = (rank - align + align) mod p"
    by (metis mod_add_left_eq)
  with assms show "rank = (i + align) mod p" by simp
next
  assume r: "rank = (i + align) mod p"
  have "(rank - align) mod p = i mod p"
    unfolding r using assms(1) by (rule owner_shift)
  moreover have "0 \<le> i div p" using assms by (simp add: pos_imp_zdiv_nonneg_iff)
  moreover have "i mod p + i div p * p = i" by simp
  ultimately show "\<exists>iLoc\<ge>0. (rank - align) mod p + iLoc * p = i" by metis
qed

lemma owner_local_row:
  fixes p :: int
  assumes "0 < p"
  shows "(i - i mod p) div p = i div p"
  by (simp add: minus_mod_eq_div_mult assms)


lemma holds_VR_Star_owner_entry:
  assumes h: "holds_VR_Star p align M N As X"
    and i: "0 \<le> i" "i < M" and j: "0 \<le> j" "j < N"
  shows "ColShift (As ((i + align) mod p)) = i mod p"
    and "LocalEntry (As ((i + align) mod p)) (i div p) j = X i j"
    and "in_local (As ((i + align) mod p)) (i div p) j"
proof -
  let ?o = "(i + align) mod p"
  from h have p: "0 < p" "0 \<le> align" "align < p" by (simp_all add: holds_VR_Star_def)
  have o: "0 \<le> ?o" "?o < p" using p by simp_all
  from h o have sh: "ColShift (As ?o) = int (Shift (nat ?o) (nat align) (nat p))"
    and lh: "LocalHeight_VR_Star (As ?o) =
               int (LocalLength (nat M) (Shift (nat ?o) (nat align) (nat p)) (nat p))"
    and w: "GWidth (As ?o) = N"
    and ent: "\<And>iLoc j. 0 \<le> iLoc \<Longrightarrow> ColShift (As ?o) + iLoc * p < M \<Longrightarrow> 0 \<le> j \<Longrightarrow> j < N \<Longrightarrow>
           LocalEntry (As ?o) iLoc j = X (ColShift (As ?o) + iLoc * p) j"
    unfolding holds_VR_Star_def by blast+
  show shift: "ColShift (As ?o) = i mod p"
    unfolding sh int_Shift [OF o(1) p(2) p(3)] using p(1) by (rule owner_shift)
  have row: "ColShift (As ?o) + i div p * p = i" unfolding shift by simp
  have nn: "0 \<le> i div p" using i p by (simp add: pos_imp_zdiv_nonneg_iff)
  from ent [OF nn _ j] row i show "LocalEntry (As ?o) (i div p) j = X i j" by simp
  have "i div p < LocalHeight_VR_Star (As ?o)"
    unfolding lh int_LocalLength_iff [OF p(1) nn] using row i unfolding sh by simp
  then show "in_local (As ?o) (i div p) j"
    using nn j by (simp add: in_local_def w)
qed

lemma owner_sdiv:
  fixes p :: int
  assumes "0 < p" "0 \<le> i"
  shows "(i - i mod p) sdiv p = i div p"
proof -
  have "0 \<le> i - i mod p" using assms by (simp add: zmod_le_nonneg_dividend)
  then show ?thesis using assms by (simp add: sdiv_nonneg owner_local_row)
qed

lemma GetReal_local_valid:
  assumes h: "holds_VR_Star p align M N As X"
    and i: "0 \<le> i" "i < M" and j: "0 \<le> j" "j < N" and r: "0 \<le> rank" "rank < p"
  shows "GetReal_local RELEASE \<lparr>Size = p, VRRank = rank\<rparr> (As rank) i j =
           Inr ((i + align) mod p, if rank = (i + align) mod p then Some (fst (X i j)) else None)"
proof -
  from h have p: "0 < p" "0 \<le> align" "align < p" by (simp_all add: holds_VR_Star_def)
  from h r have d: "GHeight (As rank) = M" "GWidth (As rank) = N" "ColAlignment (As rank) = align"
    unfolding holds_VR_Star_def by blast+
  have chk: "(if RELEASE then None else AssertValidEntry (As rank) i j) = None"
    using i j by (simp add: AssertValidEntry_def d)
  have own: "(i + align) smod p = (i + align) mod p"
    using i p by (simp add: smod_nonneg)
  note loc = owner_sdiv [OF p(1) i(1)]
  show ?thesis
    unfolding GetReal_local_def chk
    using holds_VR_Star_owner_entry [OF h i j]
    by (simp add: d own loc GetLocalEntry_def Let_def)
qed

lemma GetImag_local_valid:
  assumes h: "holds_VR_Star p align M N As X"
    and i: "0 \<le> i" "i < M" and j: "0 \<le> j" "j < N" and r: "0 \<le> rank" "rank < p"
  shows "GetImag_local RELEASE \<lparr>Size = p, VRRank = rank\<rparr> (As rank) i j =
           Inr ((i + align) mod p, if rank = (i + align) mod p then Some (snd (X i j)) else None)"
proof -
  from h have p: "0 < p" "0 \<le> align" "align < p" by (simp_all add: holds_VR_Star_def)
  from h r have d: "GHeight (As rank) = M" "GWidth (As rank) = N" "ColAlignment (As rank) = align"
    unfolding holds_VR_Star_def by blast+
  have chk: "(if RELEASE then None else AssertValidEntry (As rank) i j) = None"
    using i j by (simp add: AssertValidEntry_def d)
  have own: "(i + align) smod p = (i + align) mod p"
    using i p by (simp add: smod_nonneg)
  note loc = owner_sdiv [OF p(1) i(1)]
  show ?thesis
    unfolding GetImag_local_def chk
    using holds_VR_Star_owner_entry [OF h i j]
    by (simp add: d own loc GetLocalEntry_def Let_def)
qed

text \<open>
  Claim C7.  Let the shares of the \<open>p\<close> processes hold the global matrix \<open>X\<close> under
  \<open>[VR,* ]\<close>, and let \<open>(i,j)\<close> be in bounds.  When all processes call \<open>GetReal(i,j)\<close>,
  each of them broadcasts from the rank \<open>(i + colAlignment) mod p\<close> over the \<open>VR\<close>
  communicator and returns the real part of \<open>X(i,j)\<close>; likewise \<open>GetImag\<close> and the
  imaginary part.  That rank is the only one with a local row for global row \<open>i\<close>,
  and its local entry \<open>((i - colShift) / p, j)\<close> lies in its local matrix and is
  \<open>X(i,j)\<close>.
\<close>

theorem GetReal_GetImag_owner_broadcast:
  assumes h: "holds_VR_Star p align M N As X"
    and i: "0 \<le> i" "i < M" and j: "0 \<le> j" "j < N" and r: "0 \<le> rank" "rank < p"
  shows "GetReal RELEASE p As i j rank =
           (Inr (Some (fst (X i j))), [Broadcast ((i + align) mod p) VRComm])
       \<and> GetImag RELEASE p As i j rank =
           (Inr (Some (snd (X i j))), [Broadcast ((i + align) mod p) VRComm])
       \<and> ((\<exists>iLoc\<ge>0. ColShift (As rank) + iLoc * p = i) \<longleftrightarrow> rank = (i + align) mod p)
       \<and> GetLocalEntry (As ((i + align) mod p))
            ((i - ColShift (As ((i + align) mod p))) sdiv p) j = Some (X i j)"
proof -
  let ?o = "(i + align) mod p"
  from h have p: "0 < p" "0 \<le> align" "align < p" by (simp_all add: holds_VR_Star_def)
  have o: "0 \<le> ?o" "?o < p" using p by simp_all
  have re: "GetReal RELEASE p As i j rank = (Inr (Some (fst (X i j))), [Broadcast ?o VRComm])"
    unfolding GetReal_def GetReal_local_valid [OF h i j r]
    using o by (simp add: Broadcast_result_def u_of_def GetReal_local_valid [OF h i j o])
  have im: "GetImag RELEASE p As i j rank = (Inr (Some (snd (X i j))), [Broadcast ?o VRComm])"
    unfolding GetImag_def GetImag_local_valid [OF h i j r]
    using o by (simp add: Broadcast_result_def u_of_def GetImag_local_valid [OF h i j o])
  from h r have sh: "ColShift (As rank) = (rank - align) mod p"
    unfolding holds_VR_Star_def using int_Shift [OF r(1) p(2) p(3)] by metis
  have uniq: "(\<exists>iLoc\<ge>0. ColShift (As rank) + iLoc * p = i) \<longleftrightarrow> rank = ?o"
    unfolding sh using p(1) r i(1) by (rule owner_unique)
  note loc = owner_sdiv [OF p(1) i(1)]
  have rd: "GetLocalEntry (As ?o) ((i - ColShift (As ?o)) sdiv p) j = Some (X i j)"
    using holds_VR_Star_owner_entry [OF h i j] by (simp add: GetLocalEntry_def loc)
  from re im uniq rd show ?thesis by blast
qed

lemma holds_share_VR_Star:
  "0 < p \<Longrightarrow> 0 \<le> align \<Longrightarrow> align < p \<Longrightarrow>
     holds_VR_Star p align M N (share_VR_Star p align M N X) X"
  by (simp add: holds_VR_Star_def share_VR_Star_def)

text \<open>
  A grid of three processes, column alignment 1, a 5 by 2 matrix with entry
  \<open>(i,j) = (10 i + j, 100 + 10 i + j)\<close>: entry \<open>(4,1)\<close> is owned by rank 2.
\<close>

theorem GetReal_GetImag_owner_broadcast_witness:
  "GetReal False 3 (share_VR_Star 3 1 5 2 example_entries) 4 1 0 =
     (Inr (Some 41), [Broadcast 2 VRComm])
   \<and> GetImag False 3 (share_VR_Star 3 1 5 2 example_entries) 4 1 0 =
     (Inr (Some 141), [Broadcast 2 VRComm])"
proof -
  have h: "holds_VR_Star 3 1 5 2 (share_VR_Star 3 1 5 2 example_entries) example_entries"
    by (simp add: holds_VR_Star_def share_VR_Star_def)
  show ?thesis
    using GetReal_GetImag_owner_broadcast [OF h, of 4 1 0 False]
    by (simp add: example_entries_def)
qed


lemma SetReal_valid:
  assumes h: "holds_VR_Star p align M N As X"
    and i: "0 \<le> i" "i < M" and j: "0 \<le> j" "j < N" and r: "0 \<le> rank" "rank < p"
  shows "SetReal RELEASE \<lparr>Size = p, VRRank = rank\<rparr> (As rank) i j u =
           (if rank = (i + align) mod p
            then ((Some (write_entry (As rank) (i div p) j (u, snd (X i j))), []), None)
            else ((Some (As rank), []), None))"
proof -
  from h have p: "0 < p" "0 \<le> align" "align < p" by (simp_all add: holds_VR_Star_def)
  from h r have d: "GHeight (As rank) = M" "GWidth (As rank) = N" "ColAlignment (As rank) = align"
    unfolding holds_VR_Star_def by blast+
  have chk: "(if RELEASE then None else AssertValidEntry (As rank) i j) = None"
    using i j by (simp add: AssertValidEntry_def d)
  have own: "(i + align) smod p = (i + align) mod p"
    using i p by (simp add: smod_nonneg)
  note loc = owner_sdiv [OF p(1) i(1)]
  show ?thesis
    unfolding SetReal_def chk
    using holds_VR_Star_owner_entry [OF h i j]
    by (simp add: d own loc GetLocalEntry_def SetLocalEntry_def Let_def)
qed

lemma SetImag_valid:
  assumes h: "holds_VR_Star p align M N As X"
    and i: "0 \<le> i" "i < M" and j: "0 \<le> j" "j < N" and r: "0 \<le> rank" "rank < p"
  shows "SetImag RELEASE \<lparr>Size = p, VRRank = rank\<rparr> (As rank) i j v =
           (if rank = (i + align) mod p
            then ((Some (write_entry (As rank) (i div p) j (fst (X i j), v)), []), None)
            else ((Some (As rank), []), None))"
proof -
  from h have p: "0 < p" "0 \<le> align" "align < p" by (simp_all add: holds_VR_Star_def)
  from h r have d: "GHeight (As rank) = M" "GWidth (As rank) = N" "ColAlignment (As rank) = align"
    unfolding holds_VR_Star_def by blast+
  have chk: "(if RELEASE then None else AssertValidEntry (As rank) i j) = None"
    using i j by (simp add: AssertValidEntry_def d)
  have own: "(i + align) smod p = (i + align) mod p"
    using i p by (simp add: smod_nonneg)
  note loc = owner_sdiv [OF p(1) i(1)]
  show ?thesis
    unfolding SetImag_def chk
    using holds_VR_Star_owner_entry [OF h i j]
    by (simp add: d own loc GetLocalEntry_def SetLocalEntry_def Let_def)
qed

lemma holds_VR_Star_update:
  assumes h: "holds_VR_Star p align M N As X"
    and i: "0 \<le> i" "i < M" and j: "0 \<le> j" "j < N"
  shows "holds_VR_Star p align M N
           (\<lambda>r. if r = (i + align) mod p then write_entry (As r) (i div p) j c else As r)
           (\<lambda>i' j'. if i' = i \<and> j' = j then c else X i' j')"
proof -
  let ?o = "(i + align) mod p"
  from h have p: "0 < p" "0 \<le> align" "align < p" by (simp_all add: holds_VR_Star_def)
  have o: "0 \<le> ?o" "?o < p" using p by simp_all
  note own = holds_VR_Star_owner_entry [OF h i j]
  have "GHeight (As' rank) = M \<and> GWidth (As' rank) = N \<and> ColAlignment (As' rank) = align \<and>
        ColShift (As' rank) = int (Shift (nat rank) (nat align) (nat p)) \<and>
        LocalHeight_VR_Star (As' rank) =
          int (LocalLength (nat M) (Shift (nat rank) (nat align) (nat p)) (nat p)) \<and>
        (\<forall>iLoc j'. 0 \<le> iLoc \<and> ColShift (As' rank) + iLoc * p < M \<and> 0 \<le> j' \<and> j' < N \<longrightarrow>
           LocalEntry (As' rank) iLoc j' = X' (ColShift (As' rank) + iLoc * p) j')"
    if r: "0 \<le> rank" "rank < p"
      and As': "As' = (\<lambda>r. if r = ?o then write_entry (As r) (i div p) j c else As r)"
      and X': "X' = (\<lambda>i' j'. if i' = i \<and> j' = j then c else X i' j')"
    for rank As' X'
  proof -
    from h r have d: "GHeight (As rank) = M" "GWidth (As rank) = N" "ColAlignment (As rank) = align"
      "ColShift (As rank) = int (Shift (nat rank) (nat align) (nat p))"
      "LocalHeight_VR_Star (As rank) =
         int (LocalLength (nat M) (Shift (nat rank) (nat align) (nat p)) (nat p))"
      and ent: "\<And>iLoc j. 0 \<le> iLoc \<Longrightarrow> ColShift (As rank) + iLoc * p < M \<Longrightarrow> 0 \<le> j \<Longrightarrow> j < N \<Longrightarrow>
           LocalEntry (As rank) iLoc j = X (ColShift (As rank) + iLoc * p) j"
      unfolding holds_VR_Star_def by blast+
    have sh: "ColShift (As rank) = (rank - align) mod p"
      unfolding d using int_Shift [OF r(1) p(2) p(3)] .
    show ?thesis
    proof (cases "rank = ?o")
      case True
      have shi: "ColShift (As rank) = i mod p" using own(1) True by simp
      have rows: "ColShift (As rank) + iLoc * p = i \<longleftrightarrow> iLoc = i div p" for iLoc
      proof
        assume "ColShift (As rank) + iLoc * p = i"
        then have "i div p = (i mod p + iLoc * p) div p" unfolding shi by simp
        also have "\<dots> = iLoc" using p by simp
        finally show "iLoc = i div p" by simp
      next
        assume "iLoc = i div p" then show "ColShift (As rank) + iLoc * p = i"
          unfolding shi by simp
      qed
      show ?thesis
        using True d ent rows by (auto simp: As' X' write_entry_def)
    next
      case False
      have "ColShift (As rank) + iLoc * p \<noteq> i" if "0 \<le> iLoc" for iLoc
        using owner_unique [OF p(1) r i(1), of align] False that unfolding sh by blast
      then show ?thesis
        using False d ent by (auto simp: As' X')
    qed
  qed
  then show ?thesis
    unfolding holds_VR_Star_def using p by blast
qed


text \<open>
  Claim C8.  Under the same assumptions, \<open>SetReal(i,j,u)\<close> on a process that is not
  the owner returns its share as it was; on the owner it writes \<open>(u, imaginary part of
  X(i,j))\<close> into local entry \<open>(i div p, j)\<close>, which lies in its local matrix, and
  every other local entry is unchanged; no communication call is issued and nothing is
  thrown.  After all processes have called it, the shares hold \<open>X\<close> with the real
  part of entry \<open>(i,j)\<close> replaced by \<open>u\<close>.  \<open>SetImag\<close> is symmetric and keeps the
  real part.
\<close>

theorem SetReal_SetImag_owner_only:
  assumes h: "holds_VR_Star p align M N As X"
    and i: "0 \<le> i" "i < M" and j: "0 \<le> j" "j < N" and r: "0 \<le> rank" "rank < p"
  shows "SetReal RELEASE \<lparr>Size = p, VRRank = rank\<rparr> (As rank) i j u =
           (if rank = (i + align) mod p
            then ((Some (write_entry (As rank) (i div p) j (u, snd (X i j))), []), None)
            else ((Some (As rank), []), None))
       \<and> SetImag RELEASE \<lparr>Size = p, VRRank = rank\<rparr> (As rank) i j v =
           (if rank = (i + align) mod p
            then ((Some (write_entry (As rank) (i div p) j (fst (X i j), v)), []), None)
            else ((Some (As rank), []), None))
       \<and> LocalEntry (write_entry (As rank) (i div p) j c) iLoc' j' =
           (if iLoc' = i div p \<and> j' = j then c else LocalEntry (As rank) iLoc' j')
       \<and> in_local (As ((i + align) mod p)) (i div p) j
       \<and> holds_VR_Star p align M N
           (\<lambda>r. the (fst (fst (SetReal RELEASE \<lparr>Size = p, VRRank = r\<rparr> (As r) i j u))))
           (\<lambda>i' j'. if i' = i \<and> j' = j then (u, snd (X i j)) else X i' j')
       \<and> holds_VR_Star p align M N
           (\<lambda>r. the (fst (fst (SetImag RELEASE \<lparr>Size = p, VRRank = r\<rparr> (As r) i j v))))
           (\<lambda>i' j'. if i' = i \<and> j' = j then (fst (X i j), v) else X i' j')"
proof -
  let ?o = "(i + align) mod p"
  from h have p: "0 < p" "0 \<le> align" "align < p" by (simp_all add: holds_VR_Star_def)
  have frame: "LocalEntry (write_entry (As rank) (i div p) j c) iLoc' j' =
           (if iLoc' = i div p \<and> j' = j then c else LocalEntry (As rank) iLoc' j')"
    by (simp add: write_entry_def)
  have same: "holds_VR_Star p align M N As1 X'" if "holds_VR_Star p align M N As2 X'"
    and "\<And>r. 0 \<le> r \<Longrightarrow> r < p \<Longrightarrow> As1 r = As2 r" for As1 As2 X'
    using that unfolding holds_VR_Star_def by simp
  have gre: "holds_VR_Star p align M N
           (\<lambda>r. the (fst (fst (SetReal RELEASE \<lparr>Size = p, VRRank = r\<rparr> (As r) i j u))))
           (\<lambda>i' j'. if i' = i \<and> j' = j then (u, snd (X i j)) else X i' j')"
    by (rule same [OF holds_VR_Star_update [OF h i j]]) (simp add: SetReal_valid [OF h i j])
  have gim: "holds_VR_Star p align M N
           (\<lambda>r. the (fst (fst (SetImag RELEASE \<lparr>Size = p, VRRank = r\<rparr> (As r) i j v))))
           (\<lambda>i' j'. if i' = i \<and> j' = j then (fst (X i j), v) else X i' j')"
    by (rule same [OF holds_VR_Star_update [OF h i j]]) (simp add: SetImag_valid [OF h i j])
  from SetReal_valid [OF h i j r, of RELEASE u] SetImag_valid [OF h i j r, of RELEASE v]
    frame gre gim holds_VR_Star_owner_entry(3) [OF h i j]
  show ?thesis by blast
qed

text \<open>
  The same grid and matrix: a process that does not own row 4, and the owner.
\<close>

theorem SetReal_SetImag_owner_only_witness:
  "SetReal False \<lparr>Size = 3, VRRank = 0\<rparr> (share_VR_Star 3 1 5 2 example_entries 0) 4 1 7 =
     ((Some (share_VR_Star 3 1 5 2 example_entries 0), []), None)
   \<and> SetReal False \<lparr>Size = 3, VRRank = 2\<rparr> (share_VR_Star 3 1 5 2 example_entries 2) 4 1 7 =
     ((Some (write_entry (share_VR_Star 3 1 5 2 example_entries 2) 1 1 (7, 141)), []), None)
   \<and> SetImag False \<lparr>Size = 3, VRRank = 2\<rparr> (share_VR_Star 3 1 5 2 example_entries 2) 4 1 7 =
     ((Some (write_entry (share_VR_Star 3 1 5 2 example_entries 2) 1 1 (41, 7)), []), None)"
proof -
  have h: "holds_VR_Star 3 1 5 2 (share_VR_Star 3 1 5 2 example_entries) example_entries"
    by (simp add: holds_VR_Star_def share_VR_Star_def)
  show ?thesis
    using SetReal_SetImag_owner_only [OF h, of 4 1 0 False 7]
      SetReal_SetImag_owner_only [OF h, of 4 1 2 False 7 7]
    by (simp add: example_entries_def)
qed









section \<open>Properties of the distributed dot product\<close>










section \<open>Properties of the Hermitian one-norm\<close>

lemma LocalLength_mono:
  assumes "0 < s" "a \<le> n"
  shows "LocalLength a sh s \<le> LocalLength n sh s"
proof (rule ccontr)
  assume "\<not> ?thesis"
  then have "LocalLength n sh s < LocalLength a sh s" by simp
  then have "sh + LocalLength n sh s * s < a" using assms by (simp add: LocalLength_iff)
  then have "sh + LocalLength n sh s * s < n" using assms by simp
  then have "LocalLength n sh s < LocalLength n sh s"
    using LocalLength_iff [OF assms(1), of "LocalLength n sh s" n sh] by blast
  then show False by simp
qed



































section \<open>Properties of redistribution\<close>

lemma Shift_owner:
  assumes "0 < m" "a < m"
  shows "Shift ((i + a) mod m) a m = i mod m"
proof -
  have "Shift ((i + a) mod m) a m = ((i + a) mod m + (m - a)) mod m"
    unfolding Shift_def using assms by (simp add: Nat.add_diff_assoc)
  also have "\<dots> = ((i + a) + (m - a)) mod m" by (simp add: mod_add_left_eq)
  also have "(i + a) + (m - a) = i + m" using assms by simp
  finally show ?thesis by simp
qed

lemma owner_owns:
  assumes sup: "supported L" and r: "0 < r" and c: "0 < c"
    and ca: "ColAlign L < colStride L r c" and ra: "RowAlign L < rowStride L r c"
    and p: "p < r" and q: "q < c"
  shows "fst (owner L r c i j (p, q)) < r \<and> snd (owner L r c i j (p, q)) < c \<and>
         colShift L r c (owner L r c i j (p, q)) = i mod colStride L r c \<and>
         rowShift L r c (owner L r c i j (p, q)) = j mod rowStride L r c"
proof -
  have rc: "0 < r * c" using r c by simp
  have vc: "v mod r + v div r * r = v" for v by simp
  have vr: "v mod c + v div c * c = v" for v by simp
  have dr: "v < r * c \<Longrightarrow> v div r < c" for v
    using r by (simp add: less_mult_imp_div_less mult.commute)
  have dc: "v < r * c \<Longrightarrow> v div c < r" for v
    using c by (simp add: less_mult_imp_div_less)
  have s1: "Shift 0 a (Suc 0) = 0" for a by (simp add: Shift_def)
  from sup consider
      "ColDist L = MC" "RowDist L = MR" | "ColDist L = MR" "RowDist L = MC"
    | "ColDist L = MC" "RowDist L = STAR" | "ColDist L = STAR" "RowDist L = MC"
    | "ColDist L = MR" "RowDist L = STAR" | "ColDist L = STAR" "RowDist L = MR"
    | "ColDist L = VC" "RowDist L = STAR" | "ColDist L = STAR" "RowDist L = VC"
    | "ColDist L = VR" "RowDist L = STAR" | "ColDist L = STAR" "RowDist L = VR"
    | "ColDist L = STAR" "RowDist L = STAR"
    unfolding supported_def by auto
  then show ?thesis
  proof cases
    case 1 with ca ra r c p q show ?thesis
      by (simp add: owner_def colShift_def rowShift_def colStride_def rowStride_def Shift_owner)
  next
    case 2 with ca ra r c p q show ?thesis
      by (simp add: owner_def colShift_def rowShift_def colStride_def rowStride_def Shift_owner)
  next
    case 3 with ca ra r c p q show ?thesis
      by (simp add: owner_def colShift_def rowShift_def colStride_def rowStride_def Shift_owner s1)
  next
    case 4 with ca ra r c p q show ?thesis
      by (simp add: owner_def colShift_def rowShift_def colStride_def rowStride_def Shift_owner s1)
  next
    case 5 with ca ra r c p q show ?thesis
      by (simp add: owner_def colShift_def rowShift_def colStride_def rowStride_def Shift_owner s1)
  next
    case 6 with ca ra r c p q show ?thesis
      by (simp add: owner_def colShift_def rowShift_def colStride_def rowStride_def Shift_owner s1)
  next
    case 7 with ca ra rc r c show ?thesis
      by (simp add: owner_def colShift_def rowShift_def colStride_def rowStride_def Shift_owner s1 dr)
  next
    case 8 with ca ra rc r c show ?thesis
      by (simp add: owner_def colShift_def rowShift_def colStride_def rowStride_def Shift_owner s1 dr)
  next
    case 9 with ca ra rc r c show ?thesis
      by (simp add: owner_def colShift_def rowShift_def colStride_def rowStride_def Shift_owner s1 dc)
  next
    case 10 with ca ra rc r c show ?thesis
      by (simp add: owner_def colShift_def rowShift_def colStride_def rowStride_def Shift_owner s1 dc)
  next
    case 11 with ca ra r c p q show ?thesis
      by (simp add: owner_def colShift_def rowShift_def colStride_def rowStride_def s1)
  qed
qed

lemma stride_pos: "0 < r \<Longrightarrow> 0 < c \<Longrightarrow> 0 < stride d r c"
  by (cases d) simp_all


lemma holds_layout_entry:
  assumes h: "holds_layout r c X G" and p: "p < r" and q: "q < c"
    and i: "iLoc < localHeight X r c (p, q)" and j: "jLoc < localWidth X r c (p, q)"
  shows "LocalBuffer X (p, q) ! (iLoc + jLoc * localHeight X r c (p, q)) =
             G (colShift (DLayout X) r c (p, q) + iLoc * colStride (DLayout X) r c)
               (rowShift (DLayout X) r c (p, q) + jLoc * rowStride (DLayout X) r c)"
  using h p q i j unfolding holds_layout_def by blast

lemma holds_layout_length:
  assumes h: "holds_layout r c X G" and p: "p < r" and q: "q < c"
  shows "length (LocalBuffer X (p, q)) = localHeight X r c (p, q) * localWidth X r c (p, q)"
  using h p q unfolding holds_layout_def by blast

lemma global_entry_holds:
  assumes h: "holds_layout r c X G" and sup: "supported (DLayout X)"
    and p: "p < r" and q: "q < c" and i: "i < DHeight X" and j: "j < DWidth X"
  shows "global_entry X r c i j (p, q) = G i j"
proof -
  let ?L = "DLayout X"
  from h have r: "0 < r" and c: "0 < c" and ca: "ColAlign ?L < colStride ?L r c"
    and ra: "RowAlign ?L < rowStride ?L r c"
    by (simp_all add: holds_layout_def)
  have cs: "0 < colStride ?L r c" and rs: "0 < rowStride ?L r c"
    using r c by (simp_all add: colStride_def rowStride_def stride_pos)
  obtain p' q' where o: "owner ?L r c i j (p, q) = (p', q')" by (cases "owner ?L r c i j (p, q)")
  from owner_owns [OF sup r c ca ra p q, of i j] o
  have p': "p' < r" and q': "q' < c"
    and csh: "colShift ?L r c (p', q') = i mod colStride ?L r c"
    and rsh: "rowShift ?L r c (p', q') = j mod rowStride ?L r c"
    by simp_all
  have gi: "colShift ?L r c (p', q') + i div colStride ?L r c * colStride ?L r c = i"
    unfolding csh by simp
  have gj: "rowShift ?L r c (p', q') + j div rowStride ?L r c * rowStride ?L r c = j"
    unfolding rsh by simp
  have il: "i div colStride ?L r c < localHeight X r c (p', q')"
    unfolding localHeight_def LocalLength_iff [OF cs] gi by (rule i)
  have jl: "j div rowStride ?L r c < localWidth X r c (p', q')"
    unfolding localWidth_def LocalLength_iff [OF rs] gj by (rule j)
  show ?thesis
    unfolding global_entry_def Let_def o holds_layout_entry [OF h p' q' il jl] gi gj ..
qed

lemma relayout_fields:
  "DHeight (relayout r c X L) = DHeight X" "DWidth (relayout r c X L) = DWidth X"
  "DLayout (relayout r c X L) = L"
  "localHeight (relayout r c X L) r c pq = LocalLength (DHeight X) (colShift L r c pq) (colStride L r c)"
  "localWidth (relayout r c X L) r c pq = LocalLength (DWidth X) (rowShift L r c pq) (rowStride L r c)"
  by (simp_all add: relayout_def Let_def localHeight_def localWidth_def)

lemma relayout_buffer:
  "LocalBuffer (relayout r c X L) pq =
     map (\<lambda>k. global_entry X r c
                (colShift L r c pq + k mod localHeight (relayout r c X L) r c pq * colStride L r c)
                (rowShift L r c pq + k div localHeight (relayout r c X L) r c pq * rowStride L r c) pq)
         [0..<localHeight (relayout r c X L) r c pq * localWidth (relayout r c X L) r c pq]"
  by (simp add: relayout_def Let_def localHeight_def localWidth_def)

lemma holds_relayout:
  assumes h: "holds_layout r c X G" and sup: "supported (DLayout X)"
    and ca: "ColAlign L < colStride L r c" and ra: "RowAlign L < rowStride L r c"
  shows "holds_layout r c (relayout r c X L) G"
proof -
  let ?Y = "relayout r c X L"
  from h have r: "0 < r" and c: "0 < c" by (simp_all add: holds_layout_def)
  have cs: "0 < colStride L r c" and rs: "0 < rowStride L r c"
    using r c by (simp_all add: colStride_def rowStride_def stride_pos)
  have ent: "LocalBuffer ?Y (p, q) ! (iLoc + jLoc * localHeight ?Y r c (p, q)) =
             G (colShift (DLayout ?Y) r c (p, q) + iLoc * colStride (DLayout ?Y) r c)
               (rowShift (DLayout ?Y) r c (p, q) + jLoc * rowStride (DLayout ?Y) r c)"
    if p: "p < r" and q: "q < c" and il: "iLoc < localHeight ?Y r c (p, q)"
      and jl: "jLoc < localWidth ?Y r c (p, q)" for p q iLoc jLoc
  proof -
    let ?lh = "localHeight ?Y r c (p, q)" and ?lw = "localWidth ?Y r c (p, q)"
    have k: "iLoc + jLoc * ?lh < ?lh * ?lw"
    proof -
      have "iLoc + jLoc * ?lh < ?lh + jLoc * ?lh" using il by simp
      also have "\<dots> = ?lh * Suc jLoc" by simp
      also have "\<dots> \<le> ?lh * ?lw" using jl by (intro mult_le_mono2) simp
      finally show ?thesis .
    qed
    have m: "(iLoc + jLoc * ?lh) mod ?lh = iLoc" "(iLoc + jLoc * ?lh) div ?lh = jLoc"
      using il by simp_all
    have gi: "colShift L r c (p, q) + iLoc * colStride L r c < DHeight X"
      using il unfolding relayout_fields LocalLength_iff [OF cs] .
    have gj: "rowShift L r c (p, q) + jLoc * rowStride L r c < DWidth X"
      using jl unfolding relayout_fields LocalLength_iff [OF rs] .
    have "LocalBuffer ?Y (p, q) ! (iLoc + jLoc * ?lh) =
          global_entry X r c (colShift L r c (p, q) + iLoc * colStride L r c)
            (rowShift L r c (p, q) + jLoc * rowStride L r c) (p, q)"
      unfolding relayout_buffer [of r c X L "(p, q)"] using k il by (simp add: m)
    also have "\<dots> = G (colShift L r c (p, q) + iLoc * colStride L r c)
            (rowShift L r c (p, q) + jLoc * rowStride L r c)"
      by (rule global_entry_holds [OF h sup p q gi gj])
    finally show ?thesis by (simp add: relayout_fields)
  qed
  have len: "length (LocalBuffer ?Y (p, q)) = localHeight ?Y r c (p, q) * localWidth ?Y r c (p, q)"
    for p q
    unfolding relayout_buffer [of r c X L "(p, q)"] by simp
  show ?thesis
    unfolding holds_layout_def using r c ca ra ent len by (simp add: relayout_fields(3))
qed

lemma holds_layout_unique:
  assumes hX: "holds_layout r c X G" and hZ: "holds_layout r c Z G"
    and same: "DLayout Z = DLayout X" "DHeight Z = DHeight X" "DWidth Z = DWidth X"
    and p: "p < r" and q: "q < c"
  shows "LocalBuffer Z (p, q) = LocalBuffer X (p, q)"
proof (rule nth_equalityI)
  have lh: "localHeight Z r c (p, q) = localHeight X r c (p, q)"
    and lw: "localWidth Z r c (p, q) = localWidth X r c (p, q)"
    by (simp_all add: localHeight_def localWidth_def same)
  show len: "length (LocalBuffer Z (p, q)) = length (LocalBuffer X (p, q))"
    by (simp add: holds_layout_length [OF hX p q] holds_layout_length [OF hZ p q] lh lw)
  fix k assume "k < length (LocalBuffer Z (p, q))"
  then have k: "k < localHeight X r c (p, q) * localWidth X r c (p, q)"
    by (simp add: holds_layout_length [OF hZ p q] lh lw)
  let ?lh = "localHeight X r c (p, q)"
  have pos: "0 < ?lh" using k by (cases "?lh = 0") simp_all
  have il: "k mod ?lh < ?lh" using pos by simp
  have jl: "k div ?lh < localWidth X r c (p, q)"
    using k pos by (simp add: less_mult_imp_div_less mult.commute)
  have kk: "k mod ?lh + k div ?lh * ?lh = k" by simp
  have "LocalBuffer X (p, q) ! (k mod ?lh + k div ?lh * ?lh) =
        LocalBuffer Z (p, q) ! (k mod ?lh + k div ?lh * ?lh)"
    using holds_layout_entry [OF hX p q il jl]
      holds_layout_entry [OF hZ p q, of "k mod ?lh" "k div ?lh"] il jl
    by (simp add: lh lw same)
  then show "LocalBuffer Z (p, q) ! k = LocalBuffer X (p, q) ! k"
    unfolding kk by simp
qed

text \<open>
  Claim C4.  Let \<open>X\<close> hold the global matrix \<open>G\<close> under a supported distribution
  \<open>D1\<close>, and let \<open>D2\<close> be a supported distribution with alignments in range.
  Redistributing \<open>X\<close> to \<open>D2\<close> succeeds, keeps the global shape, and the result
  holds the same \<open>G\<close>: every global entry reads the same before and after.
  Redistributing the result back to \<open>D1\<close> succeeds and gives every process a local
  buffer equal to its original one.  Redistribution is a function of its source, so
  repeating it gives the same buffers.
\<close>

theorem redistribute_round_trip:
  assumes h: "holds_layout r c X G" and sup1: "supported (DLayout X)" and sup2: "supported L"
    and ca: "ColAlign L < colStride L r c" and ra: "RowAlign L < rowStride L r c"
  shows "redistribute r c X L = Inr (relayout r c X L)
       \<and> DHeight (relayout r c X L) = DHeight X \<and> DWidth (relayout r c X L) = DWidth X
       \<and> holds_layout r c (relayout r c X L) G
       \<and> (\<forall>i<DHeight X. \<forall>j<DWidth X. \<forall>p<r. \<forall>q<c.
             global_entry (relayout r c X L) r c i j (p, q) = global_entry X r c i j (p, q))
       \<and> redistribute r c (relayout r c X L) (DLayout X) =
             Inr (relayout r c (relayout r c X L) (DLayout X))
       \<and> (\<forall>p<r. \<forall>q<c.
             LocalBuffer (relayout r c (relayout r c X L) (DLayout X)) (p, q) = LocalBuffer X (p, q))"
proof -
  let ?Y = "relayout r c X L" and ?Z = "relayout r c (relayout r c X L) (DLayout X)"
  from h have ca1: "ColAlign (DLayout X) < colStride (DLayout X) r c"
    and ra1: "RowAlign (DLayout X) < rowStride (DLayout X) r c"
    by (simp_all add: holds_layout_def)
  have hY: "holds_layout r c ?Y G" by (rule holds_relayout [OF h sup1 ca ra])
  have supY: "supported (DLayout ?Y)" using sup2 by (simp add: relayout_fields)
  have hZ: "holds_layout r c ?Z G" by (rule holds_relayout [OF hY supY ca1 ra1])
  have 1: "redistribute r c X L = Inr ?Y" using sup1 sup2 by (simp add: redistribute_def)
  have 2: "redistribute r c ?Y (DLayout X) = Inr ?Z"
    using sup1 supY by (simp add: redistribute_def)
  have 3: "\<forall>i<DHeight X. \<forall>j<DWidth X. \<forall>p<r. \<forall>q<c.
             global_entry ?Y r c i j (p, q) = global_entry X r c i j (p, q)"
    using global_entry_holds [OF h sup1] global_entry_holds [OF hY supY]
    by (simp add: relayout_fields)
  have 4: "\<forall>p<r. \<forall>q<c. LocalBuffer ?Z (p, q) = LocalBuffer X (p, q)"
    using holds_layout_unique [OF h hZ] by (simp add: relayout_fields)
  from 1 2 3 4 hY show ?thesis by (simp add: relayout_fields)
qed


lemma LocalLength_stride_1: "LocalLength n 0 (Suc 0) = n"
  by (simp add: LocalLength_def)

lemma holds_distribute:
  assumes r: "0 < r" and c: "0 < c"
    and ca: "ColAlign L < colStride L r c" and ra: "RowAlign L < rowStride L r c"
  shows "holds_layout r c (distribute r c M N L G) G"
  unfolding distribute_def
proof (rule holds_relayout [OF _ _ ca ra])
  let ?S = "\<lparr>DHeight = M, DWidth = N,
             DLayout = \<lparr>ColDist = STAR, RowDist = STAR, ColAlign = 0, RowAlign = 0\<rparr>,
             LocalBuffer = (\<lambda>pq. map (\<lambda>k. G (k mod M) (k div M)) [0..<M * N])\<rparr>"
  show "supported (DLayout ?S)" by (simp add: supported_def)
  have lh: "localHeight ?S r c pq = M" and lw: "localWidth ?S r c pq = N" for pq
    by (simp_all add: localHeight_def localWidth_def colShift_def rowShift_def colStride_def
        rowStride_def Shift_def LocalLength_stride_1)
  have ent: "LocalBuffer ?S (p, q) ! (iLoc + jLoc * M) = G iLoc jLoc"
    if "iLoc < M" "jLoc < N" for p q iLoc jLoc
  proof -
    have "iLoc + jLoc * M < M + jLoc * M" using that by simp
    also have "\<dots> = M * Suc jLoc" by simp
    also have "\<dots> \<le> M * N" using that by (intro mult_le_mono2) simp
    finally show ?thesis using that by simp
  qed
  show "holds_layout r c ?S G"
    unfolding holds_layout_def lh lw using r c ent
    by (simp add: colShift_def rowShift_def colStride_def rowStride_def Shift_def)
qed

text \<open>
  A 3 by 3 matrix on a 2 by 2 grid, from \<open>[MC,MR]\<close> with column alignment 1 to
  \<open>[VR,* ]\<close> with column alignment 3 and back.
\<close>

theorem redistribute_round_trip_witness:
  "redistribute 2 2
     (distribute 2 2 3 3 \<lparr>ColDist = MC, RowDist = MR, ColAlign = 1, RowAlign = 0\<rparr> example_square)
     \<lparr>ColDist = VR, RowDist = STAR, ColAlign = 3, RowAlign = 0\<rparr> =
   Inr (relayout 2 2
     (distribute 2 2 3 3 \<lparr>ColDist = MC, RowDist = MR, ColAlign = 1, RowAlign = 0\<rparr> example_square)
     \<lparr>ColDist = VR, RowDist = STAR, ColAlign = 3, RowAlign = 0\<rparr>)
   \<and> map (LocalBuffer (relayout 2 2 (relayout 2 2
          (distribute 2 2 3 3 \<lparr>ColDist = MC, RowDist = MR, ColAlign = 1, RowAlign = 0\<rparr> example_square)
          \<lparr>ColDist = VR, RowDist = STAR, ColAlign = 3, RowAlign = 0\<rparr>)
          \<lparr>ColDist = MC, RowDist = MR, ColAlign = 1, RowAlign = 0\<rparr>))
         [(0, 0), (0, 1), (1, 0), (1, 1)] =
       map (LocalBuffer
          (distribute 2 2 3 3 \<lparr>ColDist = MC, RowDist = MR, ColAlign = 1, RowAlign = 0\<rparr> example_square))
         [(0, 0), (0, 1), (1, 0), (1, 1)]"
proof -
  let ?L1 = "\<lparr>ColDist = MC, RowDist = MR, ColAlign = 1, RowAlign = 0\<rparr>"
  let ?L2 = "\<lparr>ColDist = VR, RowDist = STAR, ColAlign = 3, RowAlign = 0\<rparr>"
  have h: "holds_layout 2 2 (distribute 2 2 3 3 ?L1 example_square) example_square"
    by (rule holds_distribute) (simp_all add: colStride_def rowStride_def)
  have l: "DLayout (distribute 2 2 3 3 ?L1 example_square) = ?L1"
    by (simp add: distribute_def relayout_fields)
  have s1: "supported (DLayout (distribute 2 2 3 3 ?L1 example_square))"
    unfolding l by (simp add: supported_def)
  have s2: "supported ?L2" by (simp add: supported_def)
  have a: "ColAlign ?L2 < colStride ?L2 2 2" "RowAlign ?L2 < rowStride ?L2 2 2"
    by (simp_all add: colStride_def rowStride_def)
  have two: "(0::nat) < 2" "(1::nat) < 2" by simp_all
  show ?thesis
    using redistribute_round_trip [OF h s1 s2 a] two unfolding l by simp
qed


section \<open>Properties of the local triangular rank-2k update\<close>

lemma LockedMatrix_entry:
  assumes "i < LocalHeight_V (fst A)"
  shows "Buffer (LockedMatrix A) (i + j * LocalHeight_V (fst A)) =
           snd A (LocalRow0 (fst A) + i) (LocalCol0 (fst A) + j)"
  using assms by (simp add: LockedMatrix_def)

lemma LockedMatrix_dims:
  "Height (LockedMatrix A) = LocalHeight_V (fst A)" "Width (LockedMatrix A) = LocalWidth_V (fst A)"
  "LDim (LockedMatrix A) = LocalHeight_V (fst A)"
  by (simp_all add: LockedMatrix_def)

lemma OrientationToChar_toupper:
  "toupper (OrientationToChar orient) = OrientationToChar orient"
  "OrientationToChar orient \<in> set ''NTCntc''"
  by (cases orient; simp add: toupper_simps)+

lemma op_entry_LockedMatrix_rows:
  assumes "if orient = NORMAL then i < LocalHeight_V (fst A) else l < LocalHeight_V (fst A)"
  shows "op_entry Conj (OrientationToChar orient) (Buffer (LockedMatrix A)) (LocalHeight_V (fst A)) i l =
           op_local Conj orient A i l"
  using assms
  by (cases orient) (simp_all add: op_entry_def op_local_def toupper_simps LockedMatrix_entry)

lemma op_entry_LockedMatrix_cols:
  assumes "if orient = NORMAL then l < LocalHeight_V (fst B) else j < LocalHeight_V (fst B)"
  shows "op_entry Conj (OrientationToChar orient) (Buffer (LockedMatrix B)) (LocalHeight_V (fst B)) l j =
           op_local Conj orient B l j"
  using assms
  by (cases orient) (simp_all add: op_entry_def op_local_def toupper_simps LockedMatrix_entry)


lemma Gemm_local_spec:
  fixes sE :: "('a::comm_ring_1) entries"
  assumes lcA: "if orientA = NORMAL
                then LocalHeight_V (fst A) = LocalHeight_V E \<and> LocalWidth_V (fst A) = k
                else LocalWidth_V (fst A) = LocalHeight_V E \<and> LocalHeight_V (fst A) = k"
    and lcB: "if orientB = NORMAL
              then LocalHeight_V (fst B) = k \<and> LocalWidth_V (fst B) = LocalWidth_V E
              else LocalWidth_V (fst B) = k \<and> LocalHeight_V (fst B) = LocalWidth_V E"
  shows "Gemm_local Conj orientA orientB alpha A B beta E sE =
           Inr (gemm_update Conj orientA orientB alpha A B k beta E sE)"
proof -
  let ?MA = "LockedMatrix A" and ?MB = "LockedMatrix B" and ?ME = "LockedMatrix (E, sE)"
  let ?lh = "LocalHeight_V E" and ?lw = "LocalWidth_V E"
  have dE: "Height ?ME = ?lh" "Width ?ME = ?lw" "LDim ?ME = ?lh"
    by (simp_all add: LockedMatrix_def)
  have chk: "Gemm_Matrix_check orientA orientB ?MA ?MB ?ME = None"
    using lcA lcB
    by (cases "orientA = NORMAL"; cases "orientB = NORMAL")
       (simp_all add: Gemm_Matrix_check_def LockedMatrix_dims)
  have kk: "(if orientA = NORMAL then Width ?MA else Height ?MA) = k"
    using lcA by (simp add: LockedMatrix_dims)
  have old: "Buffer ?ME (i + j * ?lh) = sE (LocalRow0 E + i) (LocalCol0 E + j)" if "i < ?lh" for i j
    using LockedMatrix_entry [of i "(E, sE)" j] that by simp
  have opA: "op_entry Conj (OrientationToChar orientA) (Buffer ?MA) (LDim ?MA) i l =
             op_local Conj orientA A i l" if "i < ?lh" "l < k" for i l
    unfolding LockedMatrix_dims
    using lcA that by (intro op_entry_LockedMatrix_rows) (simp split: if_splits)
  have opB: "op_entry Conj (OrientationToChar orientB) (Buffer ?MB) (LDim ?MB) l j =
             op_local Conj orientB B l j" if "j < ?lw" "l < k" for l j
    unfolding LockedMatrix_dims
    using lcB that by (intro op_entry_LockedMatrix_cols) (simp split: if_splits)
  define M where "M = fst (Gemm_Matrix Conj orientA orientB alpha ?MA ?MB beta ?ME)"
  have res: "Gemm_Matrix Conj orientA orientB alpha ?MA ?MB beta ?ME = (M, None)"
    unfolding M_def by (simp add: Gemm_Matrix_def chk Let_def)
  have ld: "LDim M = ?lh"
    unfolding M_def by (simp add: Gemm_Matrix_def chk Let_def dE Scale_dims)
  have ent: "Buffer M (i + j * ?lh) =
      alpha * (\<Sum>l<k. op_local Conj orientA A i l * op_local Conj orientB B l j)
      + beta * sE (LocalRow0 E + i) (LocalCol0 E + j)"
    if i: "i < ?lh" and j: "j < ?lw" for i j
  proof (cases "k = 0")
    case True
    have "M = Scale beta ?ME"
      unfolding M_def using kk True by (simp add: Gemm_Matrix_def chk Let_def)
    then show ?thesis
      using Scale_entry [of ?ME i j beta] i j True by (simp add: dE old)
  next
    case False
    have "Buffer M (i + j * ?lh) =
        Gemm Conj (OrientationToChar orientA) (OrientationToChar orientB) ?lh ?lw k alpha
          (Buffer ?MA) (LDim ?MA) (Buffer ?MB) (LDim ?MB) beta (Buffer ?ME) ?lh (i + j * ?lh)"
      unfolding M_def using kk False by (simp add: Gemm_Matrix_def chk Let_def dE)
    also have "\<dots> = alpha * (\<Sum>l<k. op_entry Conj (OrientationToChar orientA) (Buffer ?MA) (LDim ?MA) i l *
                                op_entry Conj (OrientationToChar orientB) (Buffer ?MB) (LDim ?MB) l j)
                  + beta * Buffer ?ME (i + j * ?lh)"
      by (rule Gemm_kernel_entry [OF OrientationToChar_toupper(2) OrientationToChar_toupper(2) order_refl i j])
    also have "(\<Sum>l<k. op_entry Conj (OrientationToChar orientA) (Buffer ?MA) (LDim ?MA) i l *
                      op_entry Conj (OrientationToChar orientB) (Buffer ?MB) (LDim ?MB) l j) =
               (\<Sum>l<k. op_local Conj orientA A i l * op_local Conj orientB B l j)"
      by (rule sum.cong [OF refl]) (simp add: opA [OF i] opB [OF j])
    finally show ?thesis by (simp add: old [OF i])
  qed
  have "store_Matrix E sE M = gemm_update Conj orientA orientB alpha A B k beta E sE"
  proof (intro ext)
    fix iLoc jLoc
    show "store_Matrix E sE M iLoc jLoc = gemm_update Conj orientA orientB alpha A B k beta E sE iLoc jLoc"
    proof (cases "in_window E iLoc jLoc")
      case True
      then have i: "iLoc - LocalRow0 E < ?lh" and j: "jLoc - LocalCol0 E < ?lw"
        and r: "LocalRow0 E + (iLoc - LocalRow0 E) = iLoc" "LocalCol0 E + (jLoc - LocalCol0 E) = jLoc"
        by (auto simp: in_window_def)
      show ?thesis
        using True ent [OF i j] by (simp add: store_Matrix_def gemm_update_def ld r)
    next
      case False
      then show ?thesis by (simp add: store_Matrix_def gemm_update_def)
    qed
  qed
  then show ?thesis by (simp add: Gemm_local_def res)
qed


lemma LocalLength_ge:
  assumes "0 < r"
  shows "half \<le> cs + LocalLength half cs r * r"
  using LocalLength_iff [OF assms, of "LocalLength half cs r" half cs] by simp

lemma LocalLength_split:
  assumes r: "0 < r" and half: "half \<le> H"
  shows "LocalLength (H - half) (cs + LocalLength half cs r * r - half) r =
           LocalLength H cs r - LocalLength half cs r"
proof -
  let ?a = "LocalLength half cs r"
  have ge: "half \<le> cs + ?a * r" by (rule LocalLength_ge [OF r])
  have "k < LocalLength (H - half) (cs + ?a * r - half) r \<longleftrightarrow> k < LocalLength H cs r - ?a" for k
  proof -
    have "k < LocalLength (H - half) (cs + ?a * r - half) r \<longleftrightarrow> cs + ?a * r - half + k * r < H - half"
      by (rule LocalLength_iff [OF r])
    also have "\<dots> \<longleftrightarrow> cs + (?a + k) * r < H"
      using ge half by (simp add: algebra_simps) linarith
    also have "\<dots> \<longleftrightarrow> ?a + k < LocalLength H cs r"
      by (rule LocalLength_iff [OF r, symmetric])
    also have "\<dots> \<longleftrightarrow> k < LocalLength H cs r - ?a" by linarith
    finally show ?thesis .
  qed
  then show ?thesis by (metis less_irrefl linorder_neqE_nat)
qed

lemma PartitionDown_local:
  assumes r: "0 < ColStride_V A" and half: "half \<le> Height_V A"
  shows "LocalHeight_V (fst (PartitionDown A half)) = LocalLength half (ColShift_V A) (ColStride_V A)"
    and "LocalHeight_V (snd (PartitionDown A half)) =
           LocalHeight_V A - LocalLength half (ColShift_V A) (ColStride_V A)"
    and "LocalWidth_V (fst (PartitionDown A half)) = LocalWidth_V A"
    and "LocalWidth_V (snd (PartitionDown A half)) = LocalWidth_V A"
    and "LocalLength half (ColShift_V A) (ColStride_V A) \<le> LocalHeight_V A"
  using LocalLength_split [OF r half, of "ColShift_V A"] LocalLength_mono [OF r half, of "ColShift_V A"]
  by (simp_all add: PartitionDown_def LocalHeight_V_def LocalWidth_V_def Let_def)

lemma PartitionRight_local:
  assumes c: "0 < RowStride_V A" and half: "half \<le> Width_V A"
  shows "LocalWidth_V (fst (PartitionRight A half)) = LocalLength half (RowShift_V A) (RowStride_V A)"
    and "LocalWidth_V (snd (PartitionRight A half)) =
           LocalWidth_V A - LocalLength half (RowShift_V A) (RowStride_V A)"
    and "LocalHeight_V (fst (PartitionRight A half)) = LocalHeight_V A"
    and "LocalHeight_V (snd (PartitionRight A half)) = LocalHeight_V A"
    and "LocalLength half (RowShift_V A) (RowStride_V A) \<le> LocalWidth_V A"
  using LocalLength_split [OF c half, of "RowShift_V A"] LocalLength_mono [OF c half, of "RowShift_V A"]
  by (simp_all add: PartitionRight_def LocalHeight_V_def LocalWidth_V_def Let_def)

lemma PartitionDown_fields:
  "Height_V (fst (PartitionDown A half)) = half"
  "Height_V (snd (PartitionDown A half)) = Height_V A - half"
  "Width_V (fst (PartitionDown A half)) = Width_V A"
  "Width_V (snd (PartitionDown A half)) = Width_V A"
  "ColShift_V (fst (PartitionDown A half)) = ColShift_V A"
  "ColShift_V (snd (PartitionDown A half)) =
     ColShift_V A + LocalLength half (ColShift_V A) (ColStride_V A) * ColStride_V A - half"
  "ColStride_V (fst (PartitionDown A half)) = ColStride_V A"
  "ColStride_V (snd (PartitionDown A half)) = ColStride_V A"
  "RowShift_V (fst (PartitionDown A half)) = RowShift_V A"
  "RowShift_V (snd (PartitionDown A half)) = RowShift_V A"
  "RowStride_V (fst (PartitionDown A half)) = RowStride_V A"
  "RowStride_V (snd (PartitionDown A half)) = RowStride_V A"
  "LocalRow0 (fst (PartitionDown A half)) = LocalRow0 A"
  "LocalRow0 (snd (PartitionDown A half)) = LocalRow0 A + LocalLength half (ColShift_V A) (ColStride_V A)"
  "LocalCol0 (fst (PartitionDown A half)) = LocalCol0 A"
  "LocalCol0 (snd (PartitionDown A half)) = LocalCol0 A"
  by (simp_all add: PartitionDown_def Let_def)

lemma PartitionRight_fields:
  "Height_V (fst (PartitionRight A half)) = Height_V A"
  "Height_V (snd (PartitionRight A half)) = Height_V A"
  "Width_V (fst (PartitionRight A half)) = half"
  "Width_V (snd (PartitionRight A half)) = Width_V A - half"
  "ColShift_V (fst (PartitionRight A half)) = ColShift_V A"
  "ColShift_V (snd (PartitionRight A half)) = ColShift_V A"
  "ColStride_V (fst (PartitionRight A half)) = ColStride_V A"
  "ColStride_V (snd (PartitionRight A half)) = ColStride_V A"
  "RowShift_V (fst (PartitionRight A half)) = RowShift_V A"
  "RowShift_V (snd (PartitionRight A half)) =
     RowShift_V A + LocalLength half (RowShift_V A) (RowStride_V A) * RowStride_V A - half"
  "RowStride_V (fst (PartitionRight A half)) = RowStride_V A"
  "RowStride_V (snd (PartitionRight A half)) = RowStride_V A"
  "LocalRow0 (fst (PartitionRight A half)) = LocalRow0 A"
  "LocalRow0 (snd (PartitionRight A half)) = LocalRow0 A"
  "LocalCol0 (fst (PartitionRight A half)) = LocalCol0 A"
  "LocalCol0 (snd (PartitionRight A half)) = LocalCol0 A + LocalLength half (RowShift_V A) (RowStride_V A)"
  by (simp_all add: PartitionRight_def Let_def)

lemma PartitionDownDiagonal_eq:
  "PartitionDownDiagonal E half = (quadTL E half, quadTR E half, quadBL E half, quadBR E half)"
  by (simp add: PartitionDownDiagonal_def Let_def case_prod_unfold quadTL_def quadTR_def
      quadBL_def quadBR_def)


lemma quad_local:
  assumes r: "0 < ColStride_V E" and c: "0 < RowStride_V E"
    and h: "half \<le> Height_V E" and w: "half \<le> Width_V E"
  shows "LocalHeight_V (quadTL E half) = LocalLength half (ColShift_V E) (ColStride_V E)"
    and "LocalHeight_V (quadTR E half) = LocalLength half (ColShift_V E) (ColStride_V E)"
    and "LocalHeight_V (quadBL E half) = LocalHeight_V E - LocalLength half (ColShift_V E) (ColStride_V E)"
    and "LocalHeight_V (quadBR E half) = LocalHeight_V E - LocalLength half (ColShift_V E) (ColStride_V E)"
    and "LocalWidth_V (quadTL E half) = LocalLength half (RowShift_V E) (RowStride_V E)"
    and "LocalWidth_V (quadBL E half) = LocalLength half (RowShift_V E) (RowStride_V E)"
    and "LocalWidth_V (quadTR E half) = LocalWidth_V E - LocalLength half (RowShift_V E) (RowStride_V E)"
    and "LocalWidth_V (quadBR E half) = LocalWidth_V E - LocalLength half (RowShift_V E) (RowStride_V E)"
    and "LocalLength half (ColShift_V E) (ColStride_V E) \<le> LocalHeight_V E"
    and "LocalLength half (RowShift_V E) (RowStride_V E) \<le> LocalWidth_V E"
  using r c h w
  by (simp_all add: quadTL_def quadTR_def quadBL_def quadBR_def PartitionRight_local
      PartitionDown_local PartitionDown_fields)

lemma quad_fields:
  "LocalRow0 (quadTL E half) = LocalRow0 E" "LocalCol0 (quadTL E half) = LocalCol0 E"
  "LocalRow0 (quadTR E half) = LocalRow0 E"
  "LocalCol0 (quadTR E half) = LocalCol0 E + LocalLength half (RowShift_V E) (RowStride_V E)"
  "LocalRow0 (quadBL E half) = LocalRow0 E + LocalLength half (ColShift_V E) (ColStride_V E)"
  "LocalCol0 (quadBL E half) = LocalCol0 E"
  "LocalRow0 (quadBR E half) = LocalRow0 E + LocalLength half (ColShift_V E) (ColStride_V E)"
  "LocalCol0 (quadBR E half) = LocalCol0 E + LocalLength half (RowShift_V E) (RowStride_V E)"
  "Height_V (quadTL E half) = half" "Width_V (quadTL E half) = half"
  "Height_V (quadTR E half) = half" "Width_V (quadTR E half) = Width_V E - half"
  "Height_V (quadBL E half) = Height_V E - half" "Width_V (quadBL E half) = half"
  "Height_V (quadBR E half) = Height_V E - half" "Width_V (quadBR E half) = Width_V E - half"
  "ColStride_V (quadTL E half) = ColStride_V E" "RowStride_V (quadTL E half) = RowStride_V E"
  "ColStride_V (quadTR E half) = ColStride_V E" "RowStride_V (quadTR E half) = RowStride_V E"
  "ColStride_V (quadBL E half) = ColStride_V E" "RowStride_V (quadBL E half) = RowStride_V E"
  "ColStride_V (quadBR E half) = ColStride_V E" "RowStride_V (quadBR E half) = RowStride_V E"
  "ColShift_V (quadTL E half) = ColShift_V E" "RowShift_V (quadTL E half) = RowShift_V E"
  "ColShift_V (quadTR E half) = ColShift_V E"
  "RowShift_V (quadTR E half) =
     RowShift_V E + LocalLength half (RowShift_V E) (RowStride_V E) * RowStride_V E - half"
  "ColShift_V (quadBL E half) =
     ColShift_V E + LocalLength half (ColShift_V E) (ColStride_V E) * ColStride_V E - half"
  "RowShift_V (quadBL E half) = RowShift_V E"
  "ColShift_V (quadBR E half) =
     ColShift_V E + LocalLength half (ColShift_V E) (ColStride_V E) * ColStride_V E - half"
  "RowShift_V (quadBR E half) =
     RowShift_V E + LocalLength half (RowShift_V E) (RowStride_V E) * RowStride_V E - half"
  by (simp_all add: quadTL_def quadTR_def quadBL_def quadBR_def PartitionRight_fields
      PartitionDown_fields)

lemma quad_windows:
  assumes r: "0 < ColStride_V E" and c: "0 < RowStride_V E"
    and h: "half \<le> Height_V E" and w: "half \<le> Width_V E"
  shows "in_window (quadTL E half) i j \<longleftrightarrow>
           LocalRow0 E \<le> i \<and> i < LocalRow0 E + LocalLength half (ColShift_V E) (ColStride_V E) \<and>
           LocalCol0 E \<le> j \<and> j < LocalCol0 E + LocalLength half (RowShift_V E) (RowStride_V E)"
    and "in_window (quadTR E half) i j \<longleftrightarrow>
           LocalRow0 E \<le> i \<and> i < LocalRow0 E + LocalLength half (ColShift_V E) (ColStride_V E) \<and>
           LocalCol0 E + LocalLength half (RowShift_V E) (RowStride_V E) \<le> j \<and>
           j < LocalCol0 E + LocalWidth_V E"
    and "in_window (quadBL E half) i j \<longleftrightarrow>
           LocalRow0 E + LocalLength half (ColShift_V E) (ColStride_V E) \<le> i \<and>
           i < LocalRow0 E + LocalHeight_V E \<and>
           LocalCol0 E \<le> j \<and> j < LocalCol0 E + LocalLength half (RowShift_V E) (RowStride_V E)"
    and "in_window (quadBR E half) i j \<longleftrightarrow>
           LocalRow0 E + LocalLength half (ColShift_V E) (ColStride_V E) \<le> i \<and>
           i < LocalRow0 E + LocalHeight_V E \<and>
           LocalCol0 E + LocalLength half (RowShift_V E) (RowStride_V E) \<le> j \<and>
           j < LocalCol0 E + LocalWidth_V E"
  using quad_local(9,10) [OF r c h w]
  by (auto simp add: in_window_def quad_local [OF r c h w] quad_fields)

lemma global_row_low:
  assumes r: "0 < ColStride_V E"
  shows "LocalRow0 E \<le> i \<Longrightarrow> i < LocalRow0 E + LocalLength half (ColShift_V E) (ColStride_V E) \<Longrightarrow>
           global_row E i < half"
    and "LocalRow0 E + LocalLength half (ColShift_V E) (ColStride_V E) \<le> i \<Longrightarrow>
           half \<le> global_row E i"
proof -
  assume "LocalRow0 E \<le> i" "i < LocalRow0 E + LocalLength half (ColShift_V E) (ColStride_V E)"
  then have "i - LocalRow0 E < LocalLength half (ColShift_V E) (ColStride_V E)" by simp
  then show "global_row E i < half"
    unfolding global_row_def LocalLength_iff [OF r] .
next
  assume "LocalRow0 E + LocalLength half (ColShift_V E) (ColStride_V E) \<le> i"
  then have "\<not> i - LocalRow0 E < LocalLength half (ColShift_V E) (ColStride_V E)" by simp
  then show "half \<le> global_row E i"
    unfolding global_row_def LocalLength_iff [OF r] by simp
qed

lemma global_col_low:
  assumes c: "0 < RowStride_V E"
  shows "LocalCol0 E \<le> j \<Longrightarrow> j < LocalCol0 E + LocalLength half (RowShift_V E) (RowStride_V E) \<Longrightarrow>
           global_col E j < half"
    and "LocalCol0 E + LocalLength half (RowShift_V E) (RowStride_V E) \<le> j \<Longrightarrow>
           half \<le> global_col E j"
proof -
  assume "LocalCol0 E \<le> j" "j < LocalCol0 E + LocalLength half (RowShift_V E) (RowStride_V E)"
  then have "j - LocalCol0 E < LocalLength half (RowShift_V E) (RowStride_V E)" by simp
  then show "global_col E j < half"
    unfolding global_col_def LocalLength_iff [OF c] .
next
  assume "LocalCol0 E + LocalLength half (RowShift_V E) (RowStride_V E) \<le> j"
  then have "\<not> j - LocalCol0 E < LocalLength half (RowShift_V E) (RowStride_V E)" by simp
  then show "half \<le> global_col E j"
    unfolding global_col_def LocalLength_iff [OF c] by simp
qed

lemma global_row_quad:
  assumes r: "0 < ColStride_V E"
  shows "global_row (quadTL E half) i = global_row E i"
    and "global_row (quadTR E half) i = global_row E i"
    and "LocalRow0 E + LocalLength half (ColShift_V E) (ColStride_V E) \<le> i \<Longrightarrow>
           global_row (quadBL E half) i = global_row E i - half"
    and "LocalRow0 E + LocalLength half (ColShift_V E) (ColStride_V E) \<le> i \<Longrightarrow>
           global_row (quadBR E half) i = global_row E i - half"
proof -
  show "global_row (quadTL E half) i = global_row E i" "global_row (quadTR E half) i = global_row E i"
    by (simp_all add: global_row_def quad_fields)
  let ?a = "LocalLength half (ColShift_V E) (ColStride_V E)"
  assume i: "LocalRow0 E + ?a \<le> i"
  have ge: "half \<le> ColShift_V E + ?a * ColStride_V E" by (rule LocalLength_ge [OF r])
  have "i - LocalRow0 E = ?a + (i - (LocalRow0 E + ?a))" using i by simp
  then have "(i - LocalRow0 E) * ColStride_V E =
      ?a * ColStride_V E + (i - (LocalRow0 E + ?a)) * ColStride_V E"
    by (metis add_mult_distrib)
  then show "global_row (quadBL E half) i = global_row E i - half"
    "global_row (quadBR E half) i = global_row E i - half"
    using ge by (simp_all add: global_row_def quad_fields)
qed

lemma global_col_quad:
  assumes c: "0 < RowStride_V E"
  shows "global_col (quadTL E half) j = global_col E j"
    and "global_col (quadBL E half) j = global_col E j"
    and "LocalCol0 E + LocalLength half (RowShift_V E) (RowStride_V E) \<le> j \<Longrightarrow>
           global_col (quadTR E half) j = global_col E j - half"
    and "LocalCol0 E + LocalLength half (RowShift_V E) (RowStride_V E) \<le> j \<Longrightarrow>
           global_col (quadBR E half) j = global_col E j - half"
proof -
  show "global_col (quadTL E half) j = global_col E j" "global_col (quadBL E half) j = global_col E j"
    by (simp_all add: global_col_def quad_fields)
  let ?b = "LocalLength half (RowShift_V E) (RowStride_V E)"
  assume j: "LocalCol0 E + ?b \<le> j"
  have ge: "half \<le> RowShift_V E + ?b * RowStride_V E" by (rule LocalLength_ge [OF c])
  have "j - LocalCol0 E = ?b + (j - (LocalCol0 E + ?b))" using j by simp
  then have "(j - LocalCol0 E) * RowStride_V E =
      ?b * RowStride_V E + (j - (LocalCol0 E + ?b)) * RowStride_V E"
    by (metis add_mult_distrib)
  then show "global_col (quadTR E half) j = global_col E j - half"
    "global_col (quadBR E half) j = global_col E j - half"
    using ge by (simp_all add: global_col_def quad_fields)
qed


lemma LocalLength_replicated: "LocalLength k 0 (Suc 0) = k"
  by (simp add: LocalLength_def)

lemma conforms_rows_local:
  assumes "conforms_rows orient A E k"
  shows "if orient = NORMAL
         then LocalHeight_V A = LocalHeight_V E \<and> LocalWidth_V A = k
         else LocalWidth_V A = LocalHeight_V E \<and> LocalHeight_V A = k"
  using assms
  by (simp add: conforms_rows_def LocalHeight_V_def LocalWidth_V_def LocalLength_replicated
      split: if_splits)

lemma conforms_cols_local:
  assumes "conforms_cols orient B E k"
  shows "if orient = NORMAL
         then LocalHeight_V B = k \<and> LocalWidth_V B = LocalWidth_V E
         else LocalWidth_V B = k \<and> LocalHeight_V B = LocalWidth_V E"
  using assms
  by (simp add: conforms_cols_def LocalHeight_V_def LocalWidth_V_def LocalLength_replicated
      split: if_splits)

lemma part_rows_conforms:
  assumes A: "conforms_rows orient A E k"
  shows "Height_V E0 = half \<Longrightarrow> ColShift_V E0 = ColShift_V E \<Longrightarrow> ColStride_V E0 = ColStride_V E \<Longrightarrow>
           conforms_rows orient (fst (part_rows orient A half)) E0 k"
    and "Height_V E1 = Height_V E - half \<Longrightarrow>
         ColShift_V E1 = ColShift_V E + LocalLength half (ColShift_V E) (ColStride_V E) * ColStride_V E - half \<Longrightarrow>
         ColStride_V E1 = ColStride_V E \<Longrightarrow>
           conforms_rows orient (snd (part_rows orient A half)) E1 k"
  using A
  by (simp_all add: conforms_rows_def part_rows_def PartitionDown_fields PartitionRight_fields
      split: if_splits)

lemma part_cols_conforms:
  assumes B: "conforms_cols orient B E k"
  shows "Width_V E0 = half \<Longrightarrow> RowShift_V E0 = RowShift_V E \<Longrightarrow> RowStride_V E0 = RowStride_V E \<Longrightarrow>
           conforms_cols orient (fst (part_cols orient B half)) E0 k"
    and "Width_V E1 = Width_V E - half \<Longrightarrow>
         RowShift_V E1 = RowShift_V E + LocalLength half (RowShift_V E) (RowStride_V E) * RowStride_V E - half \<Longrightarrow>
         RowStride_V E1 = RowStride_V E \<Longrightarrow>
           conforms_cols orient (snd (part_cols orient B half)) E1 k"
  using B
  by (simp_all add: conforms_cols_def part_cols_def PartitionDown_fields PartitionRight_fields
      split: if_splits)

lemma part_rows_op_local:
  assumes A: "conforms_rows orient (fst A) E k"
  shows "op_local Conj orient (fst (part_rows orient (fst A) half), snd A) i l = op_local Conj orient A i l"
    and "op_local Conj orient (snd (part_rows orient (fst A) half), snd A) i l =
           op_local Conj orient A (i + LocalLength half (ColShift_V E) (ColStride_V E)) l"
  using A
  by (cases orient;
      simp add: conforms_rows_def part_rows_def op_local_def PartitionDown_fields PartitionRight_fields
        add.assoc add.left_commute add.commute)+

lemma part_cols_op_local:
  assumes B: "conforms_cols orient (fst B) E k"
  shows "op_local Conj orient (fst (part_cols orient (fst B) half), snd B) l j = op_local Conj orient B l j"
    and "op_local Conj orient (snd (part_cols orient (fst B) half), snd B) l j =
           op_local Conj orient B l (j + LocalLength half (RowShift_V E) (RowStride_V E))"
  using B
  by (cases orient;
      simp add: conforms_cols_def part_cols_def op_local_def PartitionDown_fields PartitionRight_fields
        add.assoc add.left_commute add.commute)+

lemma aligned_with_simps:
  "LocalHeight_V (aligned_with E) = LocalHeight_V E" "LocalWidth_V (aligned_with E) = LocalWidth_V E"
  "LocalRow0 (aligned_with E) = 0" "LocalCol0 (aligned_with E) = 0"
  "Height_V (aligned_with E) = Height_V E" "Width_V (aligned_with E) = Width_V E"
  "ColShift_V (aligned_with E) = ColShift_V E" "ColStride_V (aligned_with E) = ColStride_V E"
  "RowShift_V (aligned_with E) = RowShift_V E" "RowStride_V (aligned_with E) = RowStride_V E"
  "in_window (aligned_with E) i j \<longleftrightarrow> i < LocalHeight_V E \<and> j < LocalWidth_V E"
  by (simp_all add: aligned_with_def LocalHeight_V_def LocalWidth_V_def in_window_def)

lemma and_then_Inr: "and_then (Inr x) f = f x"
  by (simp add: and_then_def)

lemma LocalTrr2kKernel_unfold:
  "LocalTrr2kKernel Conj fresh uplo orientA orientB orientC orientD alpha A B beta C D gamma E sE =
    and_then
       (if uplo = LOWER then
          and_then (Gemm_local Conj orientA orientB alpha
                      (snd (part_rows orientA (fst A) (Height_V E div 2)), snd A)
                      (fst (part_cols orientB (fst B) (Height_V E div 2)), snd B) 1
                      (quadBL E (Height_V E div 2)) (ScaleTrapezoid gamma uplo E sE))
            (\<lambda>sE'. Gemm_local Conj orientC orientD beta
                      (snd (part_rows orientC (fst C) (Height_V E div 2)), snd C)
                      (fst (part_cols orientD (fst D) (Height_V E div 2)), snd D) 1
                      (quadBL E (Height_V E div 2)) sE')
        else
          and_then (Gemm_local Conj orientA orientB alpha
                      (fst (part_rows orientA (fst A) (Height_V E div 2)), snd A)
                      (snd (part_cols orientB (fst B) (Height_V E div 2)), snd B) 1
                      (quadTR E (Height_V E div 2)) (ScaleTrapezoid gamma uplo E sE))
            (\<lambda>sE'. Gemm_local Conj orientC orientD beta
                      (fst (part_rows orientC (fst C) (Height_V E div 2)), snd C)
                      (snd (part_cols orientD (fst D) (Height_V E div 2)), snd D) 1
                      (quadTR E (Height_V E div 2)) sE'))
       (\<lambda>sE1.
     and_then (Gemm_local Conj orientA orientB alpha
                 (fst (part_rows orientA (fst A) (Height_V E div 2)), snd A)
                 (fst (part_cols orientB (fst B) (Height_V E div 2)), snd B) 0
                 (aligned_with (quadTL E (Height_V E div 2))) fresh)
       (\<lambda>sFTL.
     and_then (Gemm_local Conj orientC orientD beta
                 (fst (part_rows orientC (fst C) (Height_V E div 2)), snd C)
                 (fst (part_cols orientD (fst D) (Height_V E div 2)), snd D) 1
                 (aligned_with (quadTL E (Height_V E div 2))) sFTL)
       (\<lambda>sFTL'.
     and_then (Gemm_local Conj orientA orientB alpha
                 (snd (part_rows orientA (fst A) (Height_V E div 2)), snd A)
                 (snd (part_cols orientB (fst B) (Height_V E div 2)), snd B) 0
                 (aligned_with (quadBR E (Height_V E div 2))) fresh)
       (\<lambda>sFBR.
     and_then (Gemm_local Conj orientC orientD beta
                 (snd (part_rows orientC (fst C) (Height_V E div 2)), snd C)
                 (snd (part_cols orientD (fst D) (Height_V E div 2)), snd D) 1
                 (aligned_with (quadBR E (Height_V E div 2))) sFBR)
       (\<lambda>sFBR'.
     Inr (AxpyTriangle uplo 1 (aligned_with (quadBR E (Height_V E div 2)), sFBR')
            (quadBR E (Height_V E div 2))
            (AxpyTriangle uplo 1 (aligned_with (quadTL E (Height_V E div 2)), sFTL')
               (quadTL E (Height_V E div 2)) sE1)))))))"
  by (simp add: LocalTrr2kKernel_def Let_def case_prod_unfold PartitionDownDiagonal_eq
      part_rows_def part_cols_def)


lemma Gemm_local_conforming:
  fixes sE :: "('a::comm_ring_1) entries"
  assumes "conforms_rows orientA (fst A) E k" and "conforms_cols orientB (fst B) E k"
  shows "Gemm_local Conj orientA orientB alpha A B beta E sE =
           Inr (gemm_update Conj orientA orientB alpha A B k beta E sE)"
  by (rule Gemm_local_spec) (rule conforms_rows_local [OF assms(1)], rule conforms_cols_local [OF assms(2)])

lemma conforms_aligned_with:
  "conforms_rows orient A (aligned_with E) k = conforms_rows orient A E k"
  "conforms_cols orient B (aligned_with E) k = conforms_cols orient B E k"
  by (simp_all add: conforms_rows_def conforms_cols_def aligned_with_simps)

lemma quad_conforms_rows:
  assumes A: "conforms_rows orient A E k"
  shows "conforms_rows orient (fst (part_rows orient A half)) (quadTL E half) k"
    and "conforms_rows orient (fst (part_rows orient A half)) (quadTR E half) k"
    and "conforms_rows orient (snd (part_rows orient A half)) (quadBL E half) k"
    and "conforms_rows orient (snd (part_rows orient A half)) (quadBR E half) k"
  by (rule part_rows_conforms [OF A]; simp add: quad_fields)+

lemma quad_conforms_cols:
  assumes B: "conforms_cols orient B E k"
  shows "conforms_cols orient (fst (part_cols orient B half)) (quadTL E half) k"
    and "conforms_cols orient (snd (part_cols orient B half)) (quadTR E half) k"
    and "conforms_cols orient (fst (part_cols orient B half)) (quadBL E half) k"
    and "conforms_cols orient (snd (part_cols orient B half)) (quadBR E half) k"
  by (rule part_cols_conforms [OF B]; simp add: quad_fields)+

lemma in_triangle_shift:
  "half \<le> x \<Longrightarrow> half \<le> y \<Longrightarrow> in_triangle uplo (x - half) (y - half) = in_triangle uplo x y"
  by (cases uplo) auto

lemma in_triangle_above:
  "x < half \<Longrightarrow> half \<le> y \<Longrightarrow> in_triangle uplo x y = (uplo = UPPER)"
  by (cases uplo) auto

lemma in_triangle_below:
  "half \<le> x \<Longrightarrow> y < half \<Longrightarrow> in_triangle uplo x y = (uplo = LOWER)"
  by (cases uplo) auto

lemma quad_cover:
  assumes r: "0 < ColStride_V E" and c: "0 < RowStride_V E"
    and h: "half \<le> Height_V E" and w: "half \<le> Width_V E"
  shows "in_window E i j \<longleftrightarrow>
           in_window (quadTL E half) i j \<or> in_window (quadTR E half) i j \<or>
           in_window (quadBL E half) i j \<or> in_window (quadBR E half) i j"
proof -
  have "LocalLength half (ColShift_V E) (ColStride_V E) \<le> LocalHeight_V E"
    "LocalLength half (RowShift_V E) (RowStride_V E) \<le> LocalWidth_V E"
    by (rule quad_local [OF r c h w])+
  then show ?thesis
    by (simp only: quad_windows [OF r c h w]) (auto simp add: in_window_def)
qed


lemma quad_TL:
  assumes r: "0 < ColStride_V E" and c: "0 < RowStride_V E"
    and h: "half \<le> Height_V E" and w: "half \<le> Width_V E"
    and q: "in_window (quadTL E half) i j"
  shows "in_window E i j" "\<not> in_window (quadTR E half) i j"
    "\<not> in_window (quadBL E half) i j" "\<not> in_window (quadBR E half) i j"
    "global_row E i < half" "global_col E j < half"
    "i - LocalRow0 E < LocalLength half (ColShift_V E) (ColStride_V E)"
    "j - LocalCol0 E < LocalLength half (RowShift_V E) (RowStride_V E)"
proof -
  have q': "LocalRow0 E \<le> i" "i < LocalRow0 E + LocalLength half (ColShift_V E) (ColStride_V E)"
    "LocalCol0 E \<le> j" "j < LocalCol0 E + LocalLength half (RowShift_V E) (RowStride_V E)"
    using q by (simp_all only: quad_windows [OF r c h w])
  show "in_window E i j" using q by (simp only: quad_cover [OF r c h w] simp_thms)
  show "\<not> in_window (quadTR E half) i j" "\<not> in_window (quadBL E half) i j"
    "\<not> in_window (quadBR E half) i j"
    using q' by (simp_all only: quad_windows [OF r c h w]) auto
  show "global_row E i < half" by (rule global_row_low(1) [OF r q'(1,2)])
  show "global_col E j < half" by (rule global_col_low(1) [OF c q'(3,4)])
  show "i - LocalRow0 E < LocalLength half (ColShift_V E) (ColStride_V E)"
    "j - LocalCol0 E < LocalLength half (RowShift_V E) (RowStride_V E)"
    using q' by auto
qed

lemma quad_TR:
  assumes r: "0 < ColStride_V E" and c: "0 < RowStride_V E"
    and h: "half \<le> Height_V E" and w: "half \<le> Width_V E"
    and q: "in_window (quadTR E half) i j"
  shows "in_window E i j" "\<not> in_window (quadTL E half) i j"
    "\<not> in_window (quadBL E half) i j" "\<not> in_window (quadBR E half) i j"
    "global_row E i < half" "half \<le> global_col E j"
    "i - LocalRow0 E < LocalLength half (ColShift_V E) (ColStride_V E)"
    "LocalCol0 E + LocalLength half (RowShift_V E) (RowStride_V E) \<le> j"
    "j - (LocalCol0 E + LocalLength half (RowShift_V E) (RowStride_V E)) <
       LocalWidth_V E - LocalLength half (RowShift_V E) (RowStride_V E)"
proof -
  have q': "LocalRow0 E \<le> i" "i < LocalRow0 E + LocalLength half (ColShift_V E) (ColStride_V E)"
    "LocalCol0 E + LocalLength half (RowShift_V E) (RowStride_V E) \<le> j"
    "j < LocalCol0 E + LocalWidth_V E"
    using q by (simp_all only: quad_windows [OF r c h w])
  show "in_window E i j" using q by (simp only: quad_cover [OF r c h w] simp_thms)
  show "\<not> in_window (quadTL E half) i j" "\<not> in_window (quadBL E half) i j"
    "\<not> in_window (quadBR E half) i j"
    using q' by (simp_all only: quad_windows [OF r c h w]) auto
  show "global_row E i < half" by (rule global_row_low(1) [OF r q'(1,2)])
  show "half \<le> global_col E j" by (rule global_col_low(2) [OF c q'(3)])
  show "i - LocalRow0 E < LocalLength half (ColShift_V E) (ColStride_V E)"
    "LocalCol0 E + LocalLength half (RowShift_V E) (RowStride_V E) \<le> j"
    "j - (LocalCol0 E + LocalLength half (RowShift_V E) (RowStride_V E)) <
       LocalWidth_V E - LocalLength half (RowShift_V E) (RowStride_V E)"
    using q' by auto
qed

lemma quad_BL:
  assumes r: "0 < ColStride_V E" and c: "0 < RowStride_V E"
    and h: "half \<le> Height_V E" and w: "half \<le> Width_V E"
    and q: "in_window (quadBL E half) i j"
  shows "in_window E i j" "\<not> in_window (quadTL E half) i j"
    "\<not> in_window (quadTR E half) i j" "\<not> in_window (quadBR E half) i j"
    "half \<le> global_row E i" "global_col E j < half"
    "LocalRow0 E + LocalLength half (ColShift_V E) (ColStride_V E) \<le> i"
    "i - (LocalRow0 E + LocalLength half (ColShift_V E) (ColStride_V E)) <
       LocalHeight_V E - LocalLength half (ColShift_V E) (ColStride_V E)"
    "j - LocalCol0 E < LocalLength half (RowShift_V E) (RowStride_V E)"
proof -
  have q': "LocalRow0 E + LocalLength half (ColShift_V E) (ColStride_V E) \<le> i"
    "i < LocalRow0 E + LocalHeight_V E"
    "LocalCol0 E \<le> j" "j < LocalCol0 E + LocalLength half (RowShift_V E) (RowStride_V E)"
    using q by (simp_all only: quad_windows [OF r c h w])
  show "in_window E i j" using q by (simp only: quad_cover [OF r c h w] simp_thms)
  show "\<not> in_window (quadTL E half) i j" "\<not> in_window (quadTR E half) i j"
    "\<not> in_window (quadBR E half) i j"
    using q' by (simp_all only: quad_windows [OF r c h w]) auto
  show "half \<le> global_row E i" by (rule global_row_low(2) [OF r q'(1)])
  show "global_col E j < half" by (rule global_col_low(1) [OF c q'(3,4)])
  show "LocalRow0 E + LocalLength half (ColShift_V E) (ColStride_V E) \<le> i"
    "i - (LocalRow0 E + LocalLength half (ColShift_V E) (ColStride_V E)) <
       LocalHeight_V E - LocalLength half (ColShift_V E) (ColStride_V E)"
    "j - LocalCol0 E < LocalLength half (RowShift_V E) (RowStride_V E)"
    using q' by auto
qed

lemma quad_BR:
  assumes r: "0 < ColStride_V E" and c: "0 < RowStride_V E"
    and h: "half \<le> Height_V E" and w: "half \<le> Width_V E"
    and q: "in_window (quadBR E half) i j"
  shows "in_window E i j" "\<not> in_window (quadTL E half) i j"
    "\<not> in_window (quadTR E half) i j" "\<not> in_window (quadBL E half) i j"
    "half \<le> global_row E i" "half \<le> global_col E j"
    "LocalRow0 E + LocalLength half (ColShift_V E) (ColStride_V E) \<le> i"
    "LocalCol0 E + LocalLength half (RowShift_V E) (RowStride_V E) \<le> j"
    "i - (LocalRow0 E + LocalLength half (ColShift_V E) (ColStride_V E)) <
       LocalHeight_V E - LocalLength half (ColShift_V E) (ColStride_V E)"
    "j - (LocalCol0 E + LocalLength half (RowShift_V E) (RowStride_V E)) <
       LocalWidth_V E - LocalLength half (RowShift_V E) (RowStride_V E)"
proof -
  have q': "LocalRow0 E + LocalLength half (ColShift_V E) (ColStride_V E) \<le> i"
    "i < LocalRow0 E + LocalHeight_V E"
    "LocalCol0 E + LocalLength half (RowShift_V E) (RowStride_V E) \<le> j"
    "j < LocalCol0 E + LocalWidth_V E"
    using q by (simp_all only: quad_windows [OF r c h w])
  show "in_window E i j" using q by (simp only: quad_cover [OF r c h w] simp_thms)
  show "\<not> in_window (quadTL E half) i j" "\<not> in_window (quadTR E half) i j"
    "\<not> in_window (quadBL E half) i j"
    using q' by (simp_all only: quad_windows [OF r c h w]) auto
  show "half \<le> global_row E i" by (rule global_row_low(2) [OF r q'(1)])
  show "half \<le> global_col E j" by (rule global_col_low(2) [OF c q'(3)])
  show "LocalRow0 E + LocalLength half (ColShift_V E) (ColStride_V E) \<le> i"
    "LocalCol0 E + LocalLength half (RowShift_V E) (RowStride_V E) \<le> j"
    "i - (LocalRow0 E + LocalLength half (ColShift_V E) (ColStride_V E)) <
       LocalHeight_V E - LocalLength half (ColShift_V E) (ColStride_V E)"
    "j - (LocalCol0 E + LocalLength half (RowShift_V E) (RowStride_V E)) <
       LocalWidth_V E - LocalLength half (RowShift_V E) (RowStride_V E)"
    using q' by auto
qed


lemma Gemm_local_quads:
  fixes s :: "('a::comm_ring_1) entries"
  assumes A: "conforms_rows orientA (fst A) E k" and B: "conforms_cols orientB (fst B) E k"
  shows "Gemm_local Conj orientA orientB alpha
           (fst (part_rows orientA (fst A) half), snd A) (fst (part_cols orientB (fst B) half), snd B)
           beta (quadTL E half) s =
         Inr (gemm_update Conj orientA orientB alpha
           (fst (part_rows orientA (fst A) half), snd A) (fst (part_cols orientB (fst B) half), snd B)
           k beta (quadTL E half) s)"
    and "Gemm_local Conj orientA orientB alpha
           (fst (part_rows orientA (fst A) half), snd A) (snd (part_cols orientB (fst B) half), snd B)
           beta (quadTR E half) s =
         Inr (gemm_update Conj orientA orientB alpha
           (fst (part_rows orientA (fst A) half), snd A) (snd (part_cols orientB (fst B) half), snd B)
           k beta (quadTR E half) s)"
    and "Gemm_local Conj orientA orientB alpha
           (snd (part_rows orientA (fst A) half), snd A) (fst (part_cols orientB (fst B) half), snd B)
           beta (quadBL E half) s =
         Inr (gemm_update Conj orientA orientB alpha
           (snd (part_rows orientA (fst A) half), snd A) (fst (part_cols orientB (fst B) half), snd B)
           k beta (quadBL E half) s)"
    and "Gemm_local Conj orientA orientB alpha
           (snd (part_rows orientA (fst A) half), snd A) (snd (part_cols orientB (fst B) half), snd B)
           beta (quadBR E half) s =
         Inr (gemm_update Conj orientA orientB alpha
           (snd (part_rows orientA (fst A) half), snd A) (snd (part_cols orientB (fst B) half), snd B)
           k beta (quadBR E half) s)"
    and "Gemm_local Conj orientA orientB alpha
           (fst (part_rows orientA (fst A) half), snd A) (fst (part_cols orientB (fst B) half), snd B)
           beta (aligned_with (quadTL E half)) s =
         Inr (gemm_update Conj orientA orientB alpha
           (fst (part_rows orientA (fst A) half), snd A) (fst (part_cols orientB (fst B) half), snd B)
           k beta (aligned_with (quadTL E half)) s)"
    and "Gemm_local Conj orientA orientB alpha
           (snd (part_rows orientA (fst A) half), snd A) (snd (part_cols orientB (fst B) half), snd B)
           beta (aligned_with (quadBR E half)) s =
         Inr (gemm_update Conj orientA orientB alpha
           (snd (part_rows orientA (fst A) half), snd A) (snd (part_cols orientB (fst B) half), snd B)
           k beta (aligned_with (quadBR E half)) s)"
  by (rule Gemm_local_conforming;
      simp add: quad_conforms_rows [OF A] quad_conforms_cols [OF B] conforms_aligned_with)+

lemma half_le: "n div 2 \<le> (n::nat)"
  by simp

lemma LocalTrr2kKernel_spec:
  fixes sE :: "('a::comm_ring_1) entries"
  assumes r: "0 < ColStride_V E" and c: "0 < RowStride_V E"
    and sq: "Width_V E = Height_V E"
    and cA: "conforms_rows orientA (fst A) E kAB" and cB: "conforms_cols orientB (fst B) E kAB"
    and cC: "conforms_rows orientC (fst C) E kCD" and cD: "conforms_cols orientD (fst D) E kCD"
  shows "LocalTrr2kKernel Conj fresh uplo orientA orientB orientC orientD alpha A B beta C D gamma E sE =
           Inr (trr2k_update Conj uplo orientA orientB orientC orientD
                  alpha A B kAB beta C D kCD gamma E sE)"
proof -
  let ?half = "Height_V E div 2"
  have h: "?half \<le> Height_V E" by simp
  have w: "?half \<le> Width_V E" by (simp add: sq)
  note gAB = Gemm_local_quads [OF cA cB, of Conj alpha ?half]
  note gCD = Gemm_local_quads [OF cC cD, of Conj beta ?half]
  note opA = part_rows_op_local [OF cA, of Conj ?half]
  note opB = part_cols_op_local [OF cB, of Conj ?half]
  note opC = part_rows_op_local [OF cC, of Conj ?half]
  note opD = part_cols_op_local [OF cD, of Conj ?half]
  note ql = quad_local [OF r c h w]
  note defs = AxpyTriangle_def gemm_update_def ScaleTrapezoid_def trr2k_update_def
  show ?thesis
  proof (cases uplo)
    case LOWER
    have "AxpyTriangle LOWER 1
            (aligned_with (quadBR E ?half),
             gemm_update Conj orientC orientD beta
               (snd (part_rows orientC (fst C) ?half), snd C) (snd (part_cols orientD (fst D) ?half), snd D)
               kCD 1 (aligned_with (quadBR E ?half))
               (gemm_update Conj orientA orientB alpha
                  (snd (part_rows orientA (fst A) ?half), snd A) (snd (part_cols orientB (fst B) ?half), snd B)
                  kAB 0 (aligned_with (quadBR E ?half)) fresh))
            (quadBR E ?half)
            (AxpyTriangle LOWER 1
               (aligned_with (quadTL E ?half),
                gemm_update Conj orientC orientD beta
                  (fst (part_rows orientC (fst C) ?half), snd C) (fst (part_cols orientD (fst D) ?half), snd D)
                  kCD 1 (aligned_with (quadTL E ?half))
                  (gemm_update Conj orientA orientB alpha
                     (fst (part_rows orientA (fst A) ?half), snd A) (fst (part_cols orientB (fst B) ?half), snd B)
                     kAB 0 (aligned_with (quadTL E ?half)) fresh))
               (quadTL E ?half)
               (gemm_update Conj orientC orientD beta
                  (snd (part_rows orientC (fst C) ?half), snd C) (fst (part_cols orientD (fst D) ?half), snd D)
                  kCD 1 (quadBL E ?half)
                  (gemm_update Conj orientA orientB alpha
                     (snd (part_rows orientA (fst A) ?half), snd A) (fst (part_cols orientB (fst B) ?half), snd B)
                     kAB 1 (quadBL E ?half) (ScaleTrapezoid gamma LOWER E sE)))) i j =
          trr2k_update Conj LOWER orientA orientB orientC orientD alpha A B kAB beta C D kCD gamma E sE i j"
      (is "?L i j = ?R i j") for i j
    proof -
      consider (out) "\<not> in_window E i j" | (TL) "in_window (quadTL E ?half) i j"
        | (TR) "in_window (quadTR E ?half) i j" | (BL) "in_window (quadBL E ?half) i j"
        | (BR) "in_window (quadBR E ?half) i j"
        using quad_cover [OF r c h w, of i j] by blast
      then show ?thesis
      proof cases
        case out
        then have "\<not> in_window (quadTL E ?half) i j" "\<not> in_window (quadTR E ?half) i j"
          "\<not> in_window (quadBL E ?half) i j" "\<not> in_window (quadBR E ?half) i j"
          using quad_cover [OF r c h w, of i j] by blast+
        with out show ?thesis by (simp add: defs)
      next
        case TL
        note f = quad_TL [OF r c h w TL]
        show ?thesis
          using TL f
          by (simp add: defs quad_fields aligned_with_simps ql global_row_quad [OF r]
              global_col_quad [OF c] opA opB opC opD)
      next
        case TR
        note f = quad_TR [OF r c h w TR]
        show ?thesis
          using TR f by (simp add: defs)
      next
        case BL
        note f = quad_BL [OF r c h w BL]
        have ia: "i - (LocalRow0 E + LocalLength ?half (ColShift_V E) (ColStride_V E))
                    + LocalLength ?half (ColShift_V E) (ColStride_V E) = i - LocalRow0 E"
          using f(7) by simp
        show ?thesis
          using BL f
          by (simp add: defs quad_fields opA opB opC opD ia algebra_simps)
      next
        case BR
        note f = quad_BR [OF r c h w BR]
        have ia: "i - (LocalRow0 E + LocalLength ?half (ColShift_V E) (ColStride_V E))
                    + LocalLength ?half (ColShift_V E) (ColStride_V E) = i - LocalRow0 E"
          using f(7) by simp
        have ja: "j - (LocalCol0 E + LocalLength ?half (RowShift_V E) (RowStride_V E))
                    + LocalLength ?half (RowShift_V E) (RowStride_V E) = j - LocalCol0 E"
          using f(8) by simp
        have tri: "in_triangle LOWER (global_row E i - ?half) (global_col E j - ?half) =
                     in_triangle LOWER (global_row E i) (global_col E j)"
          by (rule in_triangle_shift [OF f(5,6)])
        have gr: "global_row (quadBR E ?half) i = global_row E i - ?half"
          by (rule global_row_quad(4) [OF r f(7)])
        have gc: "global_col (quadBR E ?half) j = global_col E j - ?half"
          by (rule global_col_quad(4) [OF c f(8)])
        show ?thesis
          using BR f(1-4,9,10)
          by (simp add: defs quad_fields aligned_with_simps ql gr gc tri opA opB opC opD ia ja
              del: in_triangle.simps)
      qed
    qed
    then show ?thesis
      unfolding LocalTrr2kKernel_unfold LOWER
      by (simp add: gAB gCD and_then_Inr fun_eq_iff)
  next
    case UPPER
    have "AxpyTriangle UPPER 1
            (aligned_with (quadBR E ?half),
             gemm_update Conj orientC orientD beta
               (snd (part_rows orientC (fst C) ?half), snd C) (snd (part_cols orientD (fst D) ?half), snd D)
               kCD 1 (aligned_with (quadBR E ?half))
               (gemm_update Conj orientA orientB alpha
                  (snd (part_rows orientA (fst A) ?half), snd A) (snd (part_cols orientB (fst B) ?half), snd B)
                  kAB 0 (aligned_with (quadBR E ?half)) fresh))
            (quadBR E ?half)
            (AxpyTriangle UPPER 1
               (aligned_with (quadTL E ?half),
                gemm_update Conj orientC orientD beta
                  (fst (part_rows orientC (fst C) ?half), snd C) (fst (part_cols orientD (fst D) ?half), snd D)
                  kCD 1 (aligned_with (quadTL E ?half))
                  (gemm_update Conj orientA orientB alpha
                     (fst (part_rows orientA (fst A) ?half), snd A) (fst (part_cols orientB (fst B) ?half), snd B)
                     kAB 0 (aligned_with (quadTL E ?half)) fresh))
               (quadTL E ?half)
               (gemm_update Conj orientC orientD beta
                  (fst (part_rows orientC (fst C) ?half), snd C) (snd (part_cols orientD (fst D) ?half), snd D)
                  kCD 1 (quadTR E ?half)
                  (gemm_update Conj orientA orientB alpha
                     (fst (part_rows orientA (fst A) ?half), snd A) (snd (part_cols orientB (fst B) ?half), snd B)
                     kAB 1 (quadTR E ?half) (ScaleTrapezoid gamma UPPER E sE)))) i j =
          trr2k_update Conj UPPER orientA orientB orientC orientD alpha A B kAB beta C D kCD gamma E sE i j"
      (is "?L i j = ?R i j") for i j
    proof -
      consider (out) "\<not> in_window E i j" | (TL) "in_window (quadTL E ?half) i j"
        | (TR) "in_window (quadTR E ?half) i j" | (BL) "in_window (quadBL E ?half) i j"
        | (BR) "in_window (quadBR E ?half) i j"
        using quad_cover [OF r c h w, of i j] by blast
      then show ?thesis
      proof cases
        case out
        then have "\<not> in_window (quadTL E ?half) i j" "\<not> in_window (quadTR E ?half) i j"
          "\<not> in_window (quadBL E ?half) i j" "\<not> in_window (quadBR E ?half) i j"
          using quad_cover [OF r c h w, of i j] by blast+
        with out show ?thesis by (simp add: defs)
      next
        case TL
        note f = quad_TL [OF r c h w TL]
        show ?thesis
          using TL f
          by (simp add: defs quad_fields aligned_with_simps ql global_row_quad [OF r]
              global_col_quad [OF c] opA opB opC opD)
      next
        case TR
        note f = quad_TR [OF r c h w TR]
        have ja: "j - (LocalCol0 E + LocalLength ?half (RowShift_V E) (RowStride_V E))
                    + LocalLength ?half (RowShift_V E) (RowStride_V E) = j - LocalCol0 E"
          using f(8) by simp
        show ?thesis
          using TR f
          by (simp add: defs quad_fields opA opB opC opD ja algebra_simps)
      next
        case BL
        note f = quad_BL [OF r c h w BL]
        show ?thesis
          using BL f by (simp add: defs)
      next
        case BR
        note f = quad_BR [OF r c h w BR]
        have ia: "i - (LocalRow0 E + LocalLength ?half (ColShift_V E) (ColStride_V E))
                    + LocalLength ?half (ColShift_V E) (ColStride_V E) = i - LocalRow0 E"
          using f(7) by simp
        have ja: "j - (LocalCol0 E + LocalLength ?half (RowShift_V E) (RowStride_V E))
                    + LocalLength ?half (RowShift_V E) (RowStride_V E) = j - LocalCol0 E"
          using f(8) by simp
        have tri: "in_triangle UPPER (global_row E i - ?half) (global_col E j - ?half) =
                     in_triangle UPPER (global_row E i) (global_col E j)"
          by (rule in_triangle_shift [OF f(5,6)])
        have gr: "global_row (quadBR E ?half) i = global_row E i - ?half"
          by (rule global_row_quad(4) [OF r f(7)])
        have gc: "global_col (quadBR E ?half) j = global_col E j - ?half"
          by (rule global_col_quad(4) [OF c f(8)])
        show ?thesis
          using BR f(1-4,9,10)
          by (simp add: defs quad_fields aligned_with_simps ql gr gc tri opA opB opC opD ia ja
              del: in_triangle.simps)
      qed
    qed
    then show ?thesis
      unfolding LocalTrr2kKernel_unfold UPPER
      by (simp add: gAB gCD and_then_Inr fun_eq_iff)
  qed
qed



lemma LocalTrr2k_unfold:
  "LocalTrr2k (Suc fuel) threshold Conj fresh uplo orientA orientB orientC orientD
       alpha A B beta C D gamma E sE =
    (if Height_V E < threshold then
       Some (LocalTrr2kKernel Conj fresh uplo orientA orientB orientC orientD
               alpha A B beta C D gamma E sE)
     else
       case (if uplo = LOWER then
               and_then (Gemm_local Conj orientA orientB alpha
                           (snd (part_rows orientA (fst A) (Height_V E div 2)), snd A)
                           (fst (part_cols orientB (fst B) (Height_V E div 2)), snd B) gamma
                           (quadBL E (Height_V E div 2)) sE)
                 (\<lambda>sE'. Gemm_local Conj orientC orientD beta
                           (snd (part_rows orientC (fst C) (Height_V E div 2)), snd C)
                           (fst (part_cols orientD (fst D) (Height_V E div 2)), snd D) 1
                           (quadBL E (Height_V E div 2)) sE')
             else
               and_then (Gemm_local Conj orientA orientB alpha
                           (fst (part_rows orientA (fst A) (Height_V E div 2)), snd A)
                           (snd (part_cols orientB (fst B) (Height_V E div 2)), snd B) gamma
                           (quadTR E (Height_V E div 2)) sE)
                 (\<lambda>sE'. Gemm_local Conj orientC orientD beta
                           (fst (part_rows orientC (fst C) (Height_V E div 2)), snd C)
                           (snd (part_cols orientD (fst D) (Height_V E div 2)), snd D) 1
                           (quadTR E (Height_V E div 2)) sE')) of
         Inl e \<Rightarrow> Some (Inl e)
       | Inr sE1 \<Rightarrow>
          (case LocalTrr2k fuel threshold Conj fresh uplo orientA orientB orientC orientD
                  alpha (fst (part_rows orientA (fst A) (Height_V E div 2)), snd A)
                        (fst (part_cols orientB (fst B) (Height_V E div 2)), snd B)
                  beta (fst (part_rows orientC (fst C) (Height_V E div 2)), snd C)
                       (fst (part_cols orientD (fst D) (Height_V E div 2)), snd D)
                  gamma (quadTL E (Height_V E div 2)) sE1 of
             None \<Rightarrow> None
           | Some (Inl e) \<Rightarrow> Some (Inl e)
           | Some (Inr sE2) \<Rightarrow>
               LocalTrr2k fuel threshold Conj fresh uplo orientA orientB orientC orientD
                 alpha (snd (part_rows orientA (fst A) (Height_V E div 2)), snd A)
                       (snd (part_cols orientB (fst B) (Height_V E div 2)), snd B)
                 beta (snd (part_rows orientC (fst C) (Height_V E div 2)), snd C)
                      (snd (part_cols orientD (fst D) (Height_V E div 2)), snd D)
                 gamma (quadBR E (Height_V E div 2)) sE2))"
  by (simp add: Let_def case_prod_unfold PartitionDownDiagonal_eq part_rows_def part_cols_def
      cong: sum.case_cong option.case_cong)












lemma unit_view_conforms:
  "conforms_rows NORMAL unit_view unit_view 1" "conforms_cols NORMAL unit_view unit_view 1"
  by (simp_all add: conforms_rows_def conforms_cols_def unit_view_def)

lemma unit_view_parts:
  "snd (part_rows NORMAL unit_view 0) = unit_view" "snd (part_cols NORMAL unit_view 0) = unit_view"
  "quadBR unit_view 0 = unit_view" "Height_V unit_view div 2 = 0"
  "Height_V (quadTL unit_view 0) = 0"
  by (simp_all add: part_rows_def part_cols_def quadBR_def quadTL_def PartitionDown_def
      PartitionRight_def unit_view_def LocalLength_def)

text \<open>
  Claim C2.  With a recursion threshold of 1 (a grid of width one with
  \<open>LocalTrr2kBlocksize\<close> set to one) and \<open>E\<close> of size 1 by 1, all operands being
  conformal, the routine takes its recursive branch: \<open>half\<close> is 0, the top-left block
  is empty and the bottom-right block is \<open>E\<close> again, on which the second recursive
  call is the same call.  No recursion depth suffices: for every bound \<open>fuel\<close> the run
  has not returned, so the entry of \<open>E\<close> is never set to the value the contract asks
  for.
\<close>

theorem LocalTrr2k_blocksize_one_does_not_return:
  fixes sE :: "('a::comm_ring_1) entries"
  shows "LocalTrr2k fuel 1 Conj fresh uplo NORMAL NORMAL NORMAL NORMAL
           alpha (unit_view, sA) (unit_view, sB) beta (unit_view, sC) (unit_view, sD)
           gamma unit_view sE = None"
proof (induction fuel arbitrary: sE)
  case 0
  show ?case by simp
next
  case (Suc fuel)
  note cr = unit_view_conforms(1) and cc = unit_view_conforms(2)
  have E: "0 < ColStride_V unit_view" "0 < RowStride_V unit_view"
    "Width_V unit_view = Height_V unit_view"
    and hv: "Height_V unit_view = 1"
    by (simp_all add: unit_view_def)
  have cA: "conforms_rows NORMAL (fst (unit_view, s)) unit_view 1"
    and cB: "conforms_cols NORMAL (fst (unit_view, s)) unit_view 1" for s :: "'a entries"
    using cr cc by simp_all
  note gAB = Gemm_local_quads [OF cA [of sA] cB [of sB], where Conj = Conj and alpha = alpha
      and half = 0]
  note gCD = Gemm_local_quads [OF cA [of sC] cB [of sD], where Conj = Conj and alpha = beta
      and half = 0]
  have first: "LocalTrr2k fuel 1 Conj fresh uplo NORMAL NORMAL NORMAL NORMAL
        alpha (fst (part_rows NORMAL unit_view 0), sA) (fst (part_cols NORMAL unit_view 0), sB)
        beta (fst (part_rows NORMAL unit_view 0), sC) (fst (part_cols NORMAL unit_view 0), sD)
        gamma (quadTL unit_view 0) s = None \<or>
      (\<exists>s'. LocalTrr2k fuel 1 Conj fresh uplo NORMAL NORMAL NORMAL NORMAL
        alpha (fst (part_rows NORMAL unit_view 0), sA) (fst (part_cols NORMAL unit_view 0), sB)
        beta (fst (part_rows NORMAL unit_view 0), sC) (fst (part_cols NORMAL unit_view 0), sD)
        gamma (quadTL unit_view 0) s = Some (Inr s'))" for s :: "'a entries"
  proof (cases fuel)
    case 0
    then show ?thesis by simp
  next
    case (Suc f)
    have "LocalTrr2kKernel Conj fresh uplo NORMAL NORMAL NORMAL NORMAL
        alpha (fst (part_rows NORMAL unit_view 0), sA) (fst (part_cols NORMAL unit_view 0), sB)
        beta (fst (part_rows NORMAL unit_view 0), sC) (fst (part_cols NORMAL unit_view 0), sD)
        gamma (quadTL unit_view 0) s =
      Inr (trr2k_update Conj uplo NORMAL NORMAL NORMAL NORMAL
        alpha (fst (part_rows NORMAL unit_view 0), sA) (fst (part_cols NORMAL unit_view 0), sB) 1
        beta (fst (part_rows NORMAL unit_view 0), sC) (fst (part_cols NORMAL unit_view 0), sD) 1
        gamma (quadTL unit_view 0) s)"
    proof (rule LocalTrr2kKernel_spec)
      show "0 < ColStride_V (quadTL unit_view 0)" "0 < RowStride_V (quadTL unit_view 0)"
        "Width_V (quadTL unit_view 0) = Height_V (quadTL unit_view 0)"
        by (simp_all add: quad_fields E)
      show "conforms_rows NORMAL (fst (fst (part_rows NORMAL unit_view 0), sA)) (quadTL unit_view 0) 1"
        "conforms_rows NORMAL (fst (fst (part_rows NORMAL unit_view 0), sC)) (quadTL unit_view 0) 1"
        unfolding fst_conv by (rule quad_conforms_rows [OF cr])+
      show "conforms_cols NORMAL (fst (fst (part_cols NORMAL unit_view 0), sB)) (quadTL unit_view 0) 1"
        "conforms_cols NORMAL (fst (fst (part_cols NORMAL unit_view 0), sD)) (quadTL unit_view 0) 1"
        unfolding fst_conv by (rule quad_conforms_cols [OF cc])+
    qed
    then show ?thesis
      unfolding Suc LocalTrr2k_unfold by (simp add: unit_view_parts)
  qed
  have step: "LocalTrr2k (Suc fuel) 1 Conj fresh uplo NORMAL NORMAL NORMAL NORMAL
           alpha (unit_view, sA) (unit_view, sB) beta (unit_view, sC) (unit_view, sD)
           gamma unit_view sE =
        (case LocalTrr2k fuel 1 Conj fresh uplo NORMAL NORMAL NORMAL NORMAL
            alpha (fst (part_rows NORMAL unit_view 0), sA) (fst (part_cols NORMAL unit_view 0), sB)
            beta (fst (part_rows NORMAL unit_view 0), sC) (fst (part_cols NORMAL unit_view 0), sD)
            gamma (quadTL unit_view 0) s1 of
           None \<Rightarrow> None
         | Some (Inl e) \<Rightarrow> Some (Inl e)
         | Some (Inr sE2) \<Rightarrow>
             LocalTrr2k fuel 1 Conj fresh uplo NORMAL NORMAL NORMAL NORMAL
               alpha (unit_view, sA) (unit_view, sB) beta (unit_view, sC) (unit_view, sD)
               gamma unit_view sE2)"
    if s1: "s1 = (if uplo = LOWER
         then gemm_update Conj NORMAL NORMAL beta
                (unit_view, sC) (fst (part_cols NORMAL unit_view 0), sD) 1 1 (quadBL unit_view 0)
                (gemm_update Conj NORMAL NORMAL alpha
                   (unit_view, sA) (fst (part_cols NORMAL unit_view 0), sB) 1 gamma
                   (quadBL unit_view 0) sE)
         else gemm_update Conj NORMAL NORMAL beta
                (fst (part_rows NORMAL unit_view 0), sC) (unit_view, sD) 1 1 (quadTR unit_view 0)
                (gemm_update Conj NORMAL NORMAL alpha
                   (fst (part_rows NORMAL unit_view 0), sA) (unit_view, sB) 1 gamma
                   (quadTR unit_view 0) sE))" for s1
    unfolding LocalTrr2k_unfold s1
    using gAB gCD
    by (simp add: hv unit_view_parts and_then_Inr cong: sum.case_cong option.case_cong)
  define s1 where "s1 = (if uplo = LOWER
         then gemm_update Conj NORMAL NORMAL beta
                (unit_view, sC) (fst (part_cols NORMAL unit_view 0), sD) 1 1 (quadBL unit_view 0)
                (gemm_update Conj NORMAL NORMAL alpha
                   (unit_view, sA) (fst (part_cols NORMAL unit_view 0), sB) 1 gamma
                   (quadBL unit_view 0) sE)
         else gemm_update Conj NORMAL NORMAL beta
                (fst (part_rows NORMAL unit_view 0), sC) (unit_view, sD) 1 1 (quadTR unit_view 0)
                (gemm_update Conj NORMAL NORMAL alpha
                   (fst (part_rows NORMAL unit_view 0), sA) (unit_view, sB) 1 gamma
                   (quadTR unit_view 0) sE))"
  note st = step [OF s1_def]
  from first [of s1] show ?case
    unfolding st using Suc.IH by (elim disjE exE) simp_all
qed

end
